theory Spec2Isabelle
  imports Complex_Main "HOL-Library.Multiset"
begin

section \<open>OpenSAM: rate limiting, cosine ranking, result caching and chat adapters\<close>

text \<open>
  A shallow embedding of the request-handling core of the OpenSAM dashboard:
  \<^item> \<^verbatim>\<open>src/app/api/chat/route.ts\<close> and its pages-router twin (the chat gateway and its
    rate limiter),
  \<^item> \<^verbatim>\<open>src/pages/api/sam-search.ts\<close> (rate limiter, embedding cache, semantic ranking,
    result cache, request handler),
  \<^item> \<^verbatim>\<open>lib/utils\<close> (\<^verbatim>\<open>cosineSimilarity\<close>).

  Conventions. A thrown \<^verbatim>\<open>Error\<close> is a value \<open>Inl (Error msg)\<close> of a sum type. Module-level
  \<^verbatim>\<open>Map\<close> objects are finite maps passed in and returned. \<^verbatim>\<open>Date.now()\<close> is an explicit
  integer argument (milliseconds). Calls that leave the process (\<^verbatim>\<open>fetch\<close>) are function
  parameters, and so are \<^verbatim>\<open>parseInt\<close> and \<^verbatim>\<open>JSON.stringify\<close>. A string is the list of
  its code units, each of them below 256 (the type \<open>char\<close> has 8 bits).

  Numbers. \<^verbatim>\<open>cosineSimilarity\<close> is given twice. The first definition computes with exact
  real numbers; it shows what the function does where rounding plays no part (the length
  check and the division for a vector of zeros). The second one,
  \<open>cosineSimilarity_double\<close>, rounds the result of every operation to the nearest IEEE
  binary64 value, as the runtime does; the semantic ranking calls that one, and its
  comparator subtracts with the same rounding.
\<close>

subsection \<open>Requests and JavaScript's falsy strings\<close>

datatype error = Error string

text \<open>
  The request as the handlers read it. \<open>query\<close> is the query string as the list of its
  name/value pairs. The handlers read a parameter by its name and use it as a string,
  which it is when the name occurs once in the query string; for a name that occurs more
  than once the framework hands over an array, which the handlers are not written for.
  Statements about the handler of the search endpoint are therefore about requests whose
  parameter names are distinct.
\<close>

record request =
  http_method :: string
  headers :: "string \<rightharpoonup> string"
  remoteAddress :: "string option"
  query :: "(string \<times> string) list"

text \<open>
  \<^verbatim>\<open>a || b\<close> on values that are a string or \<^verbatim>\<open>undefined\<close>/\<^verbatim>\<open>null\<close>: the left operand
  is taken unless it is missing or the empty string.
\<close>

definition truthy :: "string option \<Rightarrow> bool" where
  "truthy v = (case v of None \<Rightarrow> False | Some s \<Rightarrow> s \<noteq> [])"

definition js_or :: "string option \<Rightarrow> string option \<Rightarrow> string option" where
  "js_or a b = (if truthy a then a else b)"

definition js_or_default :: "string option \<Rightarrow> string \<Rightarrow> string" where
  "js_or_default a d = (case a of None \<Rightarrow> d | Some s \<Rightarrow> if s = [] then d else s)"

text \<open>
  \<^verbatim>\<open>String.prototype.trim\<close> removes white space and line terminators from both ends. Of
  the code units below 256 these are U+0009 to U+000D, the space U+0020 and the no-break
  space U+00A0.
\<close>

definition is_space :: "char \<Rightarrow> bool" where
  "is_space c =
     (c \<in> set [CHR '' '', CHR 0x09, CHR 0x0A, CHR 0x0B, CHR 0x0C, CHR 0x0D, CHR 0xA0])"

definition trim :: "string \<Rightarrow> string" where
  "trim s = rev (dropWhile is_space (rev (dropWhile is_space s)))"

subsection \<open>The fixed-window rate limiters\<close>

record rate_entry =
  count :: nat
  timestamp :: int

type_synonym rate_map = "string \<rightharpoonup> rate_entry"

definition RATE_LIMIT_WINDOW :: int where
  "RATE_LIMIT_WINDOW = 60000"

definition RATE_LIMIT_MAX_REQUESTS :: nat where
  "RATE_LIMIT_MAX_REQUESTS = 20"

definition SAM_RATE_LIMIT_WINDOW :: int where
  "SAM_RATE_LIMIT_WINDOW = 60000"

definition SAM_RATE_LIMIT_MAX_REQUESTS :: nat where
  "SAM_RATE_LIMIT_MAX_REQUESTS = 100"

text \<open>
  The caller identity of the chat route:
  \<^verbatim>\<open>req.headers.get('x-forwarded-for')?.split(',')[0].trim() || req.headers.get('x-real-ip') || 'unknown'\<close>.
\<close>

definition chatClientIp :: "request \<Rightarrow> string" where
  "chatClientIp req =
     js_or_default
       (js_or (map_option (\<lambda>v. trim (takeWhile (\<lambda>c. c \<noteq> CHR '','') v)) (headers req ''x-forwarded-for''))
              (headers req ''x-real-ip''))
       ''unknown''"

text \<open>
  The caller identity of the search endpoint:
  \<^verbatim>\<open>req.headers['x-forwarded-for'] || req.connection.remoteAddress || 'unknown'\<close>.
\<close>

definition samClientIp :: "request \<Rightarrow> string" where
  "samClientIp req =
     js_or_default (js_or (headers req ''x-forwarded-for'') (remoteAddress req)) ''unknown''"

text \<open>
  \<^verbatim>\<open>checkRateLimit\<close> of the chat route. The argument \<open>now\<close> is the value of
  \<^verbatim>\<open>Date.now()\<close>; the result is the returned boolean and \<^verbatim>\<open>rateLimitMap\<close> afterwards.
\<close>

definition checkRateLimit :: "request \<Rightarrow> int \<Rightarrow> rate_map \<Rightarrow> bool \<times> rate_map" where
  "checkRateLimit req now rateLimitMap =
     (let clientIp = chatClientIp req in
      case rateLimitMap clientIp of
        None \<Rightarrow> (True, rateLimitMap(clientIp \<mapsto> \<lparr>count = 1, timestamp = now\<rparr>))
      | Some clientData \<Rightarrow>
          if now - timestamp clientData > RATE_LIMIT_WINDOW
          then (True, rateLimitMap(clientIp \<mapsto> \<lparr>count = 1, timestamp = now\<rparr>))
          else if count clientData \<ge> RATE_LIMIT_MAX_REQUESTS then (False, rateLimitMap)
          else (True, rateLimitMap(clientIp \<mapsto>
                  \<lparr>count = count clientData + 1, timestamp = timestamp clientData\<rparr>)))"

text \<open>
  \<^verbatim>\<open>checkSAMRateLimit\<close> of the search endpoint. Its last branch increments the stored
  object in place (\<^verbatim>\<open>clientData.count++\<close>), which leaves the map holding the entry with
  the count raised by one.
\<close>

definition checkSAMRateLimit :: "request \<Rightarrow> int \<Rightarrow> rate_map \<Rightarrow> bool \<times> rate_map" where
  "checkSAMRateLimit req now samRateLimitMap =
     (let clientIp = samClientIp req in
      case samRateLimitMap clientIp of
        None \<Rightarrow> (True, samRateLimitMap(clientIp \<mapsto> \<lparr>count = 1, timestamp = now\<rparr>))
      | Some clientData \<Rightarrow>
          if now - timestamp clientData > SAM_RATE_LIMIT_WINDOW
          then (True, samRateLimitMap(clientIp \<mapsto> \<lparr>count = 1, timestamp = now\<rparr>))
          else if count clientData \<ge> SAM_RATE_LIMIT_MAX_REQUESTS then (False, samRateLimitMap)
          else (True, samRateLimitMap(clientIp \<mapsto> clientData\<lparr>count := count clientData + 1\<rparr>)))"

text \<open>
  The two limiters are one algorithm with different constants; \<open>window_check\<close> is that
  algorithm, used to prove their properties once.
\<close>

definition window_check :: "nat \<Rightarrow> int \<Rightarrow> string \<Rightarrow> int \<Rightarrow> rate_map \<Rightarrow> bool \<times> rate_map" where
  "window_check maxRequests windowSize clientIp now m =
     (case m clientIp of
        None \<Rightarrow> (True, m(clientIp \<mapsto> \<lparr>count = 1, timestamp = now\<rparr>))
      | Some clientData \<Rightarrow>
          if now - timestamp clientData > windowSize
          then (True, m(clientIp \<mapsto> \<lparr>count = 1, timestamp = now\<rparr>))
          else if count clientData \<ge> maxRequests then (False, m)
          else (True, m(clientIp \<mapsto> \<lparr>count = count clientData + 1, timestamp = timestamp clientData\<rparr>)))"

text \<open>
  Consecutive checks: the limiter \<open>step\<close> is called once for each reading of the clock in
  \<open>ts\<close>, each call on the map the previous one left. The result lists the answers in order.
\<close>

fun run_checks :: "(int \<Rightarrow> rate_map \<Rightarrow> bool \<times> rate_map) \<Rightarrow> int list \<Rightarrow> rate_map \<Rightarrow> bool list \<times> rate_map" where
  "run_checks step [] m = ([], m)"
| "run_checks step (t # ts) m =
     (let (ok, m') = step t m; (oks, m'') = run_checks step ts m' in (ok # oks, m''))"

text \<open>
  No window is open for an identity at time \<open>now\<close>: the map has no entry for it, or the
  entry's window has passed.
\<close>

definition no_open_window :: "int \<Rightarrow> rate_map \<Rightarrow> string \<Rightarrow> int \<Rightarrow> bool" where
  "no_open_window windowSize m clientIp now =
     (case m clientIp of None \<Rightarrow> True | Some e \<Rightarrow> now - timestamp e > windowSize)"

subsection \<open>Rate limiter: proofs\<close>

lemma rate_entry_count_update:
  "e\<lparr>count := n\<rparr> = \<lparr>count = n, timestamp = timestamp e\<rparr>"
  by (cases e) simp

lemma checkRateLimit_window_check:
  "checkRateLimit req = window_check RATE_LIMIT_MAX_REQUESTS RATE_LIMIT_WINDOW (chatClientIp req)"
  by (intro ext) (simp add: checkRateLimit_def window_check_def Let_def split: option.splits)

lemma checkSAMRateLimit_window_check:
  "checkSAMRateLimit req =
     window_check SAM_RATE_LIMIT_MAX_REQUESTS SAM_RATE_LIMIT_WINDOW (samClientIp req)"
  by (intro ext)
    (simp add: checkSAMRateLimit_def window_check_def Let_def rate_entry_count_update
      split: option.splits)

lemma window_check_opens:
  assumes "no_open_window W m ip now"
  shows "window_check N W ip now m = (True, m(ip \<mapsto> \<lparr>count = 1, timestamp = now\<rparr>))"
  using assms by (auto simp: window_check_def no_open_window_def split: option.splits)

lemma window_check_rejects:
  assumes "m ip = Some e" and "N \<le> count e" and "\<not> now - timestamp e > W"
  shows "window_check N W ip now m = (False, m)"
  using assms by (simp add: window_check_def)

lemma window_check_other:
  assumes "ip' \<noteq> ip"
  shows "snd (window_check N W ip' now m) ip = m ip"
  using assms by (simp add: window_check_def split: option.splits)

text \<open>A check by one identity leaves the windows of all other identities as they are.\<close>

lemma other_identities_untouched:
  "chatClientIp req \<noteq> ip \<Longrightarrow> snd (checkRateLimit req now m) ip = m ip"
  "samClientIp req \<noteq> ip \<Longrightarrow> snd (checkSAMRateLimit req now m) ip = m ip"
  unfolding checkRateLimit_window_check checkSAMRateLimit_window_check
  by (simp_all add: window_check_other)

text \<open>
  Inside an open window holding \<open>c\<close> requests, the next checks are accepted until the
  count reaches the maximum and rejected from then on.
\<close>

lemma run_checks_in_window:
  assumes "m ip = Some \<lparr>count = c, timestamp = t0\<rparr>"
    and "\<forall>t\<in>set ts. t - t0 \<le> W"
  shows "fst (run_checks (window_check N W ip) ts m) =
           replicate (min (length ts) (N - c)) True @ replicate (length ts - (N - c)) False"
  using assms
proof (induction ts arbitrary: m c)
  case Nil
  then show ?case by simp
next
  case (Cons t ts)
  from Cons.prems have inside: "\<not> t - t0 > W" and rest: "\<forall>t\<in>set ts. t - t0 \<le> W"
    by auto
  show ?case
  proof (cases "N \<le> c")
    case True
    with Cons.prems(1) inside
    have step: "window_check N W ip t m = (False, m)"
      by (simp add: window_check_def)
    from Cons.IH [of m c, OF Cons.prems(1) rest] True
    have "fst (run_checks (window_check N W ip) ts m) = replicate (length ts) False"
      by simp
    with step True show ?thesis
      by (simp add: split_beta)
  next
    case False
    let ?m' = "m(ip \<mapsto> \<lparr>count = Suc c, timestamp = t0\<rparr>)"
    from False Cons.prems(1) inside
    have step: "window_check N W ip t m = (True, ?m')"
      by (simp add: window_check_def)
    have "?m' ip = Some \<lparr>count = Suc c, timestamp = t0\<rparr>"
      by simp
    from Cons.IH [of ?m' "Suc c", OF this rest]
    have ih: "fst (run_checks (window_check N W ip) ts ?m') =
        replicate (min (length ts) (N - Suc c)) True @
        replicate (length ts - (N - Suc c)) False" .
    from False obtain k where k: "N - c = Suc k"
      by (cases "N - c") auto
    then have k': "N - Suc c = k"
      by simp
    have "fst (run_checks (window_check N W ip) (t # ts) m) =
        True # fst (run_checks (window_check N W ip) ts ?m')"
      by (simp add: step split_beta)
    also have "\<dots> = replicate (min (length (t # ts)) (N - c)) True @
        replicate (length (t # ts) - (N - c)) False"
      unfolding ih k k' by simp
    finally show ?thesis .
  qed
qed

lemma run_checks_fresh_window:
  assumes "no_open_window W m ip t0"
    and "\<forall>t\<in>set ts. t - t0 \<le> W"
    and "0 < N"
  shows "fst (run_checks (window_check N W ip) (t0 # ts) m) =
           replicate (min (Suc (length ts)) N) True @ replicate (Suc (length ts) - N) False"
proof -
  let ?m' = "m(ip \<mapsto> \<lparr>count = 1, timestamp = t0\<rparr>)"
  have step: "window_check N W ip t0 m = (True, ?m')"
    by (rule window_check_opens [OF assms(1)])
  have "?m' ip = Some \<lparr>count = 1, timestamp = t0\<rparr>"
    by simp
  from run_checks_in_window [of ?m' ip 1 t0 ts W N, OF this assms(2)]
  have rest: "fst (run_checks (window_check N W ip) ts ?m') =
      replicate (min (length ts) (N - 1)) True @ replicate (length ts - (N - 1)) False" .
  from assms(3) obtain k where k: "N - 1 = k" and k': "N = Suc k"
    by (cases N) auto
  have "fst (run_checks (window_check N W ip) (t0 # ts) m) =
      True # fst (run_checks (window_check N W ip) ts ?m')"
    by (simp add: step split_beta)
  also have "\<dots> = True # replicate (min (length ts) k) True @ replicate (length ts - k) False"
    unfolding rest k by simp
  also have "\<dots> = replicate (min (Suc (length ts)) N) True @ replicate (Suc (length ts) - N) False"
    unfolding k' by simp
  finally show ?thesis .
qed

text \<open>
  Claim C2. For either limiter and any caller identity: when no window is open for the
  identity at the first check (time \<open>t0\<close>) and every later check is made no more than
  the window size after \<open>t0\<close>, the checks are accepted up to the maximum number of
  requests (20 for chat, 100 for search) and every check after that is rejected; in
  particular the first N are accepted and check N+1 is rejected. A check made more than
  the window size after the window's start is accepted and leaves the identity with
  count 1 and the window start set to the time of that check.
\<close>

theorem rate_limit_window:
  "(no_open_window RATE_LIMIT_WINDOW m (chatClientIp req) t0 \<and>
      (\<forall>t\<in>set ts. t - t0 \<le> RATE_LIMIT_WINDOW) \<longrightarrow>
      fst (run_checks (checkRateLimit req) (t0 # ts) m) =
        replicate (min (Suc (length ts)) RATE_LIMIT_MAX_REQUESTS) True @
        replicate (Suc (length ts) - RATE_LIMIT_MAX_REQUESTS) False) \<and>
   (no_open_window SAM_RATE_LIMIT_WINDOW m (samClientIp req) t0 \<and>
      (\<forall>t\<in>set ts. t - t0 \<le> SAM_RATE_LIMIT_WINDOW) \<longrightarrow>
      fst (run_checks (checkSAMRateLimit req) (t0 # ts) m) =
        replicate (min (Suc (length ts)) SAM_RATE_LIMIT_MAX_REQUESTS) True @
        replicate (Suc (length ts) - SAM_RATE_LIMIT_MAX_REQUESTS) False) \<and>
   (m (chatClientIp req) = Some e \<and> now - timestamp e > RATE_LIMIT_WINDOW \<longrightarrow>
      checkRateLimit req now m =
        (True, m(chatClientIp req \<mapsto> \<lparr>count = 1, timestamp = now\<rparr>))) \<and>
   (m (samClientIp req) = Some e \<and> now - timestamp e > SAM_RATE_LIMIT_WINDOW \<longrightarrow>
      checkSAMRateLimit req now m =
        (True, m(samClientIp req \<mapsto> \<lparr>count = 1, timestamp = now\<rparr>)))"
proof (intro conjI impI)
  assume "no_open_window RATE_LIMIT_WINDOW m (chatClientIp req) t0 \<and>
      (\<forall>t\<in>set ts. t - t0 \<le> RATE_LIMIT_WINDOW)"
  then show "fst (run_checks (checkRateLimit req) (t0 # ts) m) =
        replicate (min (Suc (length ts)) RATE_LIMIT_MAX_REQUESTS) True @
        replicate (Suc (length ts) - RATE_LIMIT_MAX_REQUESTS) False"
    unfolding checkRateLimit_window_check
    by (intro run_checks_fresh_window) (simp_all add: RATE_LIMIT_MAX_REQUESTS_def)
next
  assume "no_open_window SAM_RATE_LIMIT_WINDOW m (samClientIp req) t0 \<and>
      (\<forall>t\<in>set ts. t - t0 \<le> SAM_RATE_LIMIT_WINDOW)"
  then show "fst (run_checks (checkSAMRateLimit req) (t0 # ts) m) =
        replicate (min (Suc (length ts)) SAM_RATE_LIMIT_MAX_REQUESTS) True @
        replicate (Suc (length ts) - SAM_RATE_LIMIT_MAX_REQUESTS) False"
    unfolding checkSAMRateLimit_window_check
    by (intro run_checks_fresh_window) (simp_all add: SAM_RATE_LIMIT_MAX_REQUESTS_def)
next
  assume "m (chatClientIp req) = Some e \<and> now - timestamp e > RATE_LIMIT_WINDOW"
  then have "no_open_window RATE_LIMIT_WINDOW m (chatClientIp req) now"
    by (simp add: no_open_window_def)
  then show "checkRateLimit req now m =
      (True, m(chatClientIp req \<mapsto> \<lparr>count = 1, timestamp = now\<rparr>))"
    unfolding checkRateLimit_window_check by (rule window_check_opens)
next
  assume "m (samClientIp req) = Some e \<and> now - timestamp e > SAM_RATE_LIMIT_WINDOW"
  then have "no_open_window SAM_RATE_LIMIT_WINDOW m (samClientIp req) now"
    by (simp add: no_open_window_def)
  then show "checkSAMRateLimit req now m =
      (True, m(samClientIp req \<mapsto> \<lparr>count = 1, timestamp = now\<rparr>))"
    unfolding checkSAMRateLimit_window_check by (rule window_check_opens)
qed

text \<open>
  A request of the address 10.0.0.1, and a limiter map in which that address has an old
  window.
\<close>

definition example_request :: request where
  "example_request =
     \<lparr>http_method = ''GET'', headers = [''x-forwarded-for'' \<mapsto> ''10.0.0.1''],
      remoteAddress = None, query = []\<rparr>"

definition example_rate_map :: rate_map where
  "example_rate_map = [''10.0.0.1'' \<mapsto> \<lparr>count = 7, timestamp = 500\<rparr>]"

lemma example_request_identity:
  "chatClientIp example_request = ''10.0.0.1''" "samClientIp example_request = ''10.0.0.1''"
  by (simp_all add: chatClientIp_def samClientIp_def example_request_def js_or_def
      js_or_default_def truthy_def trim_def is_space_def)

text \<open>
  On a map with no entry, 21 chat checks in one window give 20 acceptances and one
  rejection, and 101 search checks give 100 acceptances and one rejection; a check
  70 seconds after the start of an old window opens a new one.
\<close>

theorem rate_limit_window_witness:
  "fst (run_checks (checkRateLimit example_request) (1000 # replicate 20 2000) Map.empty) =
     replicate 20 True @ [False] \<and>
   fst (run_checks (checkSAMRateLimit example_request) (1000 # replicate 100 2000) Map.empty) =
     replicate 100 True @ [False] \<and>
   checkRateLimit example_request 70500 example_rate_map =
     (True, example_rate_map(''10.0.0.1'' \<mapsto> \<lparr>count = 1, timestamp = 70500\<rparr>)) \<and>
   checkSAMRateLimit example_request 70500 example_rate_map =
     (True, example_rate_map(''10.0.0.1'' \<mapsto> \<lparr>count = 1, timestamp = 70500\<rparr>))"
proof -
  have open1: "no_open_window RATE_LIMIT_WINDOW Map.empty (chatClientIp example_request) 1000"
    and open2: "no_open_window SAM_RATE_LIMIT_WINDOW Map.empty (samClientIp example_request) 1000"
    by (simp_all add: no_open_window_def)
  have in1: "\<forall>t\<in>set (replicate 20 2000). t - 1000 \<le> RATE_LIMIT_WINDOW"
    and in2: "\<forall>t\<in>set (replicate 100 2000). t - 1000 \<le> SAM_RATE_LIMIT_WINDOW"
    by (simp_all add: RATE_LIMIT_WINDOW_def SAM_RATE_LIMIT_WINDOW_def)
  have old: "example_rate_map ''10.0.0.1'' = Some \<lparr>count = 7, timestamp = 500\<rparr>"
    by (simp add: example_rate_map_def)
  have late1: "70500 - timestamp \<lparr>count = 7, timestamp = 500\<rparr> > RATE_LIMIT_WINDOW"
    and late2: "70500 - timestamp \<lparr>count = 7, timestamp = 500\<rparr> > SAM_RATE_LIMIT_WINDOW"
    by (simp_all add: RATE_LIMIT_WINDOW_def SAM_RATE_LIMIT_WINDOW_def)
  note chat = rate_limit_window [of Map.empty example_request 1000 "replicate 20 2000"]
  note sam = rate_limit_window [of Map.empty example_request 1000 "replicate 100 2000"]
  note reset = rate_limit_window [of example_rate_map example_request 0 "[]"
      "\<lparr>count = 7, timestamp = 500\<rparr>" 70500]
  have "fst (run_checks (checkRateLimit example_request) (1000 # replicate 20 2000) Map.empty) =
      replicate 20 True @ [False]"
    using chat open1 in1 by (simp add: RATE_LIMIT_MAX_REQUESTS_def)
  moreover
  have "fst (run_checks (checkSAMRateLimit example_request) (1000 # replicate 100 2000) Map.empty) =
      replicate 100 True @ [False]"
    using sam open2 in2 by (simp add: SAM_RATE_LIMIT_MAX_REQUESTS_def)
  moreover
  have "checkRateLimit example_request 70500 example_rate_map =
      (True, example_rate_map(''10.0.0.1'' \<mapsto> \<lparr>count = 1, timestamp = 70500\<rparr>))"
    using reset old late1 by (simp add: example_request_identity)
  moreover
  have "checkSAMRateLimit example_request 70500 example_rate_map =
      (True, example_rate_map(''10.0.0.1'' \<mapsto> \<lparr>count = 1, timestamp = 70500\<rparr>))"
    using reset old late2 by (simp add: example_request_identity)
  ultimately show ?thesis
    by blast
qed

text \<open>
  Claim C9. A rejected check changes nothing: for an identity whose window is still open
  (the check is not later than the window size after its start) and whose count has
  reached the maximum, either limiter returns false and the limiter map after the call is
  the map before it, so the identity's count and window start are unchanged.
\<close>

theorem rejected_check_leaves_state:
  "(m (chatClientIp req) = Some e \<and> RATE_LIMIT_MAX_REQUESTS \<le> count e \<and>
      \<not> now - timestamp e > RATE_LIMIT_WINDOW \<longrightarrow>
      checkRateLimit req now m = (False, m)) \<and>
   (m (samClientIp req) = Some e \<and> SAM_RATE_LIMIT_MAX_REQUESTS \<le> count e \<and>
      \<not> now - timestamp e > SAM_RATE_LIMIT_WINDOW \<longrightarrow>
      checkSAMRateLimit req now m = (False, m))"
  unfolding checkRateLimit_window_check checkSAMRateLimit_window_check
  by (auto intro: window_check_rejects)

definition example_full_map :: rate_map where
  "example_full_map = [''10.0.0.1'' \<mapsto> \<lparr>count = 100, timestamp = 500\<rparr>]"

theorem rejected_check_leaves_state_witness:
  "checkRateLimit example_request 60500 example_full_map = (False, example_full_map) \<and>
   checkSAMRateLimit example_request 60500 example_full_map = (False, example_full_map) \<and>
   example_full_map ''10.0.0.1'' = Some \<lparr>count = 100, timestamp = 500\<rparr>"
proof -
  have full: "example_full_map ''10.0.0.1'' = Some \<lparr>count = 100, timestamp = 500\<rparr>"
    by (simp add: example_full_map_def)
  have "RATE_LIMIT_MAX_REQUESTS \<le> count \<lparr>count = 100, timestamp = 500\<rparr>"
    and "SAM_RATE_LIMIT_MAX_REQUESTS \<le> count \<lparr>count = 100, timestamp = 500\<rparr>"
    and "\<not> 60500 - timestamp \<lparr>count = 100, timestamp = 500\<rparr> > RATE_LIMIT_WINDOW"
    and "\<not> 60500 - timestamp \<lparr>count = 100, timestamp = 500\<rparr> > SAM_RATE_LIMIT_WINDOW"
    by (simp_all add: RATE_LIMIT_MAX_REQUESTS_def SAM_RATE_LIMIT_MAX_REQUESTS_def
        RATE_LIMIT_WINDOW_def SAM_RATE_LIMIT_WINDOW_def)
  with full rejected_check_leaves_state [of example_full_map example_request
      "\<lparr>count = 100, timestamp = 500\<rparr>" 60500]
  show ?thesis
    by (simp add: example_request_identity)
qed

subsection \<open>Cosine similarity\<close>

text \<open>
  A JavaScript number: a finite value, \<^verbatim>\<open>NaN\<close> or an infinity. The two zeros of the
  format are the one value \<open>Num 0\<close>: the sign of a zero shows only in a division by it,
  and the divisor of \<^verbatim>\<open>cosineSimilarity\<close>, a product of two square roots, is never the
  negative zero.
\<close>

datatype number = Num real | NaN | PosInfinity | NegInfinity

text \<open>
  This subsection has \<^verbatim>\<open>cosineSimilarity\<close> with exact arithmetic: the sums, the products and
  the square roots are those of the real numbers, and the one division has its
  JavaScript result for a divisor that is zero. The function with the arithmetic of
  doubles follows in the next subsections.
\<close>

definition js_div :: "real \<Rightarrow> real \<Rightarrow> number" where
  "js_div x y =
     (if y \<noteq> 0 then Num (x / y)
      else if x = 0 then NaN
      else if x > 0 then PosInfinity else NegInfinity)"

text \<open>
  The loop of \<^verbatim>\<open>cosineSimilarity\<close>: one step for each index, on the accumulators
  \<^verbatim>\<open>dotProduct\<close>, \<^verbatim>\<open>normA\<close> and \<^verbatim>\<open>normB\<close>. It runs after the length check, on
  two arrays of one length.
\<close>

fun cosine_loop :: "real list \<Rightarrow> real list \<Rightarrow> real \<times> real \<times> real \<Rightarrow> real \<times> real \<times> real" where
  "cosine_loop (x # xs) (y # ys) (dotProduct, normA, normB) =
     cosine_loop xs ys (dotProduct + x * y, normA + x * x, normB + y * y)"
| "cosine_loop [] ys acc = acc"
| "cosine_loop xs [] acc = acc"

definition cosineSimilarity :: "real list \<Rightarrow> real list \<Rightarrow> error + number" where
  "cosineSimilarity a b =
     (if length a \<noteq> length b then Inl (Error ''Vectors must have the same length'')
      else
        let (dotProduct, normA, normB) = cosine_loop a b (0, 0, 0)
        in Inr (js_div dotProduct (sqrt normA * sqrt normB)))"


subsection \<open>Cosine similarity: proofs\<close>

lemma cosine_loop_sums:
  "length a = length b \<Longrightarrow>
   cosine_loop a b (d, na, nb) =
     (d + (\<Sum>(x, y)\<leftarrow>zip a b. x * y), na + (\<Sum>x\<leftarrow>a. x * x), nb + (\<Sum>y\<leftarrow>b. y * y))"
proof (induction a b "(d, na, nb)" arbitrary: d na nb rule: cosine_loop.induct)
  case (1 x xs y ys dotProduct normA normB)
  then show ?case by (simp add: algebra_simps)
qed simp_all

lemma sum_squares_nonneg: "0 \<le> (\<Sum>x\<leftarrow>a. x * x)" for a :: "real list"
  by (induction a) simp_all

lemma sum_squares_zero_iff: "(\<Sum>x\<leftarrow>a. x * x) = 0 \<longleftrightarrow> (\<forall>x\<in>set a. x = 0)"
  for a :: "real list"
proof (induction a)
  case Nil
  then show ?case by simp
next
  case (Cons x a)
  have "x * x + (\<Sum>x\<leftarrow>a. x * x) = 0 \<longleftrightarrow> x * x = 0 \<and> (\<Sum>x\<leftarrow>a. x * x) = 0"
    using sum_squares_nonneg [of a] by (intro add_nonneg_eq_0_iff) simp_all
  with Cons show ?case by simp
qed

lemma dot_zero_left: "\<forall>x\<in>set a. x = 0 \<Longrightarrow> (\<Sum>(x, y)\<leftarrow>zip a b. x * y) = 0"
  for a b :: "real list"
proof (induction a arbitrary: b)
  case Nil
  then show ?case by simp
next
  case (Cons x a)
  then show ?case by (cases b) simp_all
qed

lemma dot_zero_right: "\<forall>y\<in>set b. y = 0 \<Longrightarrow> (\<Sum>(x, y)\<leftarrow>zip a b. x * y) = 0"
  for a b :: "real list"
proof (induction b arbitrary: a)
  case Nil
  then show ?case by simp
next
  case (Cons y b)
  then show ?case by (cases a) simp_all
qed

lemma dot_commute: "(\<Sum>(x, y)\<leftarrow>zip a b. x * y) = (\<Sum>(y, x)\<leftarrow>zip b a. y * x)"
  for a b :: "real list"
proof (induction a arbitrary: b)
  case Nil
  then show ?case by simp
next
  case (Cons x a)
  then show ?case by (cases b) (simp_all add: mult.commute)
qed

lemma dot_self: "(\<Sum>(x, y)\<leftarrow>zip a a. x * y) = (\<Sum>x\<leftarrow>a. x * x)" for a :: "real list"
  by (induction a) simp_all

lemma dot_negated: "(\<Sum>(x, y)\<leftarrow>zip a (map uminus a). x * y) = - (\<Sum>x\<leftarrow>a. x * x)"
  for a :: "real list"
  by (induction a) simp_all

lemma squares_negated: "(\<Sum>y\<leftarrow>map uminus a. y * y) = (\<Sum>x\<leftarrow>a. x * x)" for a :: "real list"
  by (induction a) simp_all

lemma cosineSimilarity_sums:
  "length a = length b \<Longrightarrow>
   cosineSimilarity a b =
     Inr (js_div (\<Sum>(x, y)\<leftarrow>zip a b. x * y)
            (sqrt (\<Sum>x\<leftarrow>a. x * x) * sqrt (\<Sum>y\<leftarrow>b. y * y)))"
  by (simp add: cosineSimilarity_def cosine_loop_sums)

lemma cosineSimilarity_negated_sums:
  "cosineSimilarity v (map uminus v) =
     Inr (js_div (- (\<Sum>x\<leftarrow>v. x * x)) (sqrt (\<Sum>x\<leftarrow>v. x * x) * sqrt (\<Sum>x\<leftarrow>v. x * x)))"
proof -
  have "cosineSimilarity v (map uminus v) =
      Inr (js_div (\<Sum>(x, y)\<leftarrow>zip v (map uminus v). x * y)
             (sqrt (\<Sum>x\<leftarrow>v. x * x) * sqrt (\<Sum>y\<leftarrow>map uminus v. y * y)))"
    by (rule cosineSimilarity_sums) simp
  then show ?thesis
    unfolding dot_negated squares_negated .
qed

text \<open>
  With exact arithmetic the function is symmetric, and a vector with a non-zero coordinate
  has similarity 1 to itself and -1 to its negation. These three facts are about the
  formula; what the code computes in doubles is the subject of the next subsections.
\<close>

lemma cosineSimilarity_symmetric_exact: "cosineSimilarity a b = cosineSimilarity b a"
proof (cases "length a = length b")
  case True
  then show ?thesis
    using dot_commute [of a b]
    by (simp add: cosineSimilarity_sums mult.commute split_def)
next
  case False
  then show ?thesis by (auto simp: cosineSimilarity_def)
qed

lemma cosineSimilarity_self_exact:
  assumes "\<exists>x\<in>set v. x \<noteq> 0"
  shows "cosineSimilarity v v = Inr (Num 1)"
proof -
  let ?n = "\<Sum>x\<leftarrow>v. x * x"
  from assms have "?n \<noteq> 0"
    by (simp add: sum_squares_zero_iff)
  moreover have "sqrt ?n * sqrt ?n = ?n"
    using sum_squares_nonneg [of v] by simp
  ultimately show ?thesis
    by (simp add: cosineSimilarity_sums dot_self js_div_def)
qed

lemma cosineSimilarity_negated_exact:
  assumes "\<exists>x\<in>set v. x \<noteq> 0"
  shows "cosineSimilarity v (map uminus v) = Inr (Num (- 1))"
proof -
  let ?n = "\<Sum>x\<leftarrow>v. x * x"
  from assms have "?n \<noteq> 0"
    by (simp add: sum_squares_zero_iff)
  moreover have "sqrt ?n * sqrt ?n = ?n"
    using sum_squares_nonneg [of v] by simp
  ultimately show ?thesis
    by (simp add: cosineSimilarity_negated_sums js_div_def)
qed

text \<open>With exact arithmetic the function never returns an infinity.\<close>

lemma cosineSimilarity_finite_or_NaN:
  assumes "cosineSimilarity a b = Inr s"
  shows "s = NaN \<or> (\<exists>r. s = Num r)"
proof -
  from assms have len: "length a = length b"
    by (auto simp: cosineSimilarity_def split: if_splits)
  let ?d = "\<Sum>(x, y)\<leftarrow>zip a b. x * y"
  let ?m = "sqrt (\<Sum>x\<leftarrow>a. x * x) * sqrt (\<Sum>y\<leftarrow>b. y * y)"
  from assms len have s: "s = js_div ?d ?m"
    by (simp add: cosineSimilarity_sums)
  show ?thesis
  proof (cases "?m = 0")
    case True
    then have "(\<forall>x\<in>set a. x = 0) \<or> (\<forall>y\<in>set b. y = 0)"
      by (simp add: sum_squares_zero_iff)
    then have "?d = 0"
      using dot_zero_left [of a b] dot_zero_right [of b a] by blast
    with True s show ?thesis
      by (simp add: js_div_def)
  next
    case False
    with s show ?thesis
      by (simp add: js_div_def)
  qed
qed

text \<open>
  Claim C7. For two vectors of unequal length \<^verbatim>\<open>cosineSimilarity\<close> throws its error
  (\<^verbatim>\<open>Vectors must have the same length\<close>) and returns no number.
\<close>

theorem cosineSimilarity_dimension_mismatch:
  assumes "length a \<noteq> length b"
  shows "cosineSimilarity a b = Inl (Error ''Vectors must have the same length'') \<and>
         (\<forall>s. cosineSimilarity a b \<noteq> Inr s)"
  using assms by (simp add: cosineSimilarity_def)

theorem cosineSimilarity_dimension_mismatch_witness:
  "length [1, 2 :: real] \<noteq> length [1 :: real] \<and>
   cosineSimilarity [1, 2] [1] = Inl (Error ''Vectors must have the same length'')"
  using cosineSimilarity_dimension_mismatch [of "[1, 2]" "[1]"] by simp



subsection \<open>The arithmetic of doubles\<close>

text \<open>
  A JavaScript number is an IEEE 754 binary64 value, and each arithmetic operation
  returns the double nearest to the exact result, a tie going to the one whose last bit is
  zero. A finite double is a multiple \<open>m * 2 ^ (e - 52)\<close> with \<open>\<bar>m\<bar> < 2 ^ 53\<close> and
  \<open>-1022 \<le> e \<le> 1023\<close>.

  \<open>round_half_even y\<close> is the integer nearest to \<open>y\<close>, the even one of two nearest.
  \<open>double_exponent x\<close> is the exponent \<open>e\<close> of the doubles around \<open>x\<close>: the one with
  \<open>2 ^ e \<le> \<bar>x\<bar> < 2 ^ (e + 1)\<close>, and -1022 for smaller values (the subnormal range).
  \<open>round_double x\<close> rounds \<open>x\<close> to a multiple of \<open>2 ^ (e - 52)\<close>; a result that reaches
  \<open>2 ^ 1024\<close> is an infinity.
\<close>

definition round_half_even :: "real \<Rightarrow> int" where
  "round_half_even y =
     (let f = \<lfloor>y\<rfloor> in
      if y - of_int f < 1 / 2 then f
      else if y - of_int f > 1 / 2 then f + 1
      else if even f then f else f + 1)"

definition double_exponent :: "real \<Rightarrow> int" where
  "double_exponent x = max \<lfloor>log 2 \<bar>x\<bar>\<rfloor> (- 1022)"

definition round_double :: "real \<Rightarrow> number" where
  "round_double x =
     (if x = 0 then Num 0
      else
        let q = 2 powi (double_exponent x - 52);
            r = of_int (round_half_even (x / q)) * q
        in if 2 ^ 1024 \<le> r then PosInfinity
           else if r \<le> - (2 ^ 1024) then NegInfinity
           else Num r)"

text \<open>
  The operations of the code on numbers: \<^verbatim>\<open>-x\<close>, \<^verbatim>\<open>x + y\<close>, \<^verbatim>\<open>x * y\<close>,
  \<^verbatim>\<open>Math.sqrt(x)\<close> and \<^verbatim>\<open>x / y\<close>, with their results for \<^verbatim>\<open>NaN\<close> and the infinities.
  \<^verbatim>\<open>Math.sqrt\<close> is taken to return the correctly rounded square root, as IEEE 754 asks
  of the operation.
\<close>

fun js_negate :: "number \<Rightarrow> number" where
  "js_negate (Num x) = Num (- x)"
| "js_negate NaN = NaN"
| "js_negate PosInfinity = NegInfinity"
| "js_negate NegInfinity = PosInfinity"

fun js_add :: "number \<Rightarrow> number \<Rightarrow> number" where
  "js_add (Num x) (Num y) = round_double (x + y)"
| "js_add NaN y = NaN"
| "js_add x NaN = NaN"
| "js_add PosInfinity NegInfinity = NaN"
| "js_add NegInfinity PosInfinity = NaN"
| "js_add PosInfinity y = PosInfinity"
| "js_add NegInfinity y = NegInfinity"
| "js_add x PosInfinity = PosInfinity"
| "js_add x NegInfinity = NegInfinity"

text \<open>The product of an infinity and a finite number.\<close>

definition infinity_times :: "number \<Rightarrow> real \<Rightarrow> number" where
  "infinity_times infinity x =
     (if x = 0 then NaN else if 0 < x then infinity else js_negate infinity)"

fun js_mul :: "number \<Rightarrow> number \<Rightarrow> number" where
  "js_mul (Num x) (Num y) = round_double (x * y)"
| "js_mul NaN y = NaN"
| "js_mul x NaN = NaN"
| "js_mul (Num x) y = infinity_times y x"
| "js_mul x (Num y) = infinity_times x y"
| "js_mul PosInfinity y = y"
| "js_mul NegInfinity y = js_negate y"

fun js_sqrt :: "number \<Rightarrow> number" where
  "js_sqrt (Num x) = (if x < 0 then NaN else round_double (sqrt x))"
| "js_sqrt PosInfinity = PosInfinity"
| "js_sqrt x = NaN"

fun js_divide :: "number \<Rightarrow> number \<Rightarrow> number" where
  "js_divide (Num x) (Num y) =
     (if y = 0 then (if x = 0 then NaN else if 0 < x then PosInfinity else NegInfinity)
      else round_double (x / y))"
| "js_divide NaN y = NaN"
| "js_divide x NaN = NaN"
| "js_divide (Num x) y = Num 0"
| "js_divide x (Num y) = (if y < 0 then js_negate x else x)"
| "js_divide x y = NaN"

subsection \<open>Cosine similarity in the arithmetic of doubles\<close>

text \<open>
  \<^verbatim>\<open>cosineSimilarity\<close> as the runtime computes it: the loop adds and multiplies with
  rounding, in the order of the source, and the last line takes the two square roots,
  multiplies them and divides.
\<close>

fun cosine_loop_double ::
  "number list \<Rightarrow> number list \<Rightarrow> number \<times> number \<times> number \<Rightarrow> number \<times> number \<times> number" where
  "cosine_loop_double (x # xs) (y # ys) (dotProduct, normA, normB) =
     cosine_loop_double xs ys
       (js_add dotProduct (js_mul x y), js_add normA (js_mul x x), js_add normB (js_mul y y))"
| "cosine_loop_double [] ys acc = acc"
| "cosine_loop_double xs [] acc = acc"

definition cosineSimilarity_double :: "number list \<Rightarrow> number list \<Rightarrow> error + number" where
  "cosineSimilarity_double a b =
     (if length a \<noteq> length b then Inl (Error ''Vectors must have the same length'')
      else
        let (dotProduct, normA, normB) = cosine_loop_double a b (Num 0, Num 0, Num 0)
        in Inr (js_divide dotProduct (js_mul (js_sqrt normA) (js_sqrt normB))))"

text \<open>The value of \<^verbatim>\<open>normA\<close> after the loop, when both arguments are \<open>v\<close>.\<close>

definition squared_norm :: "number list \<Rightarrow> number" where
  "squared_norm v = fst (snd (cosine_loop_double v v (Num 0, Num 0, Num 0)))"

subsection \<open>Rounding: proofs\<close>

lemma round_half_even_near: "\<bar>of_int (round_half_even y) - y\<bar> \<le> 1 / 2"
  unfolding round_half_even_def Let_def by (auto; linarith)

lemma round_half_even_unique:
  assumes "\<bar>y - of_int m\<bar> < 1 / 2"
  shows "round_half_even y = m"
proof -
  have "\<bar>of_int (round_half_even y) - y\<bar> \<le> 1 / 2"
    by (rule round_half_even_near)
  with assms have "\<bar>(of_int (round_half_even y) :: real) - of_int m\<bar> < 1"
    by linarith
  then have "\<bar>of_int (round_half_even y - m) :: real\<bar> < 1"
    by simp
  then have "\<bar>round_half_even y - m\<bar> < 1"
    by (metis of_int_abs of_int_less_1_iff)
  then show ?thesis by simp
qed

lemma round_half_even_of_int: "round_half_even (of_int m) = m"
  by (rule round_half_even_unique) simp

lemma round_half_even_uminus: "round_half_even (- y) = - round_half_even y"
proof (cases "y = of_int \<lfloor>y\<rfloor>")
  case True
  then obtain m where "y = of_int m" by blast
  then show ?thesis
    by (simp add: round_half_even_of_int flip: of_int_minus)
next
  case False
  then have "of_int \<lfloor>y\<rfloor> < y"
    using of_int_floor_le [of y] by linarith
  moreover have "y < of_int \<lfloor>y\<rfloor> + 1"
    by linarith
  ultimately have fl: "\<lfloor>- y\<rfloor> = - \<lfloor>y\<rfloor> - 1"
    by (intro floor_unique) (simp; linarith)+
  show ?thesis
    unfolding round_half_even_def Let_def fl
    using False by (auto; linarith)
qed

lemma two_powi_pos: "0 < (2::real) powi k"
  by (simp add: power_int_def)

lemma two_powi_le_abs_nonzero:
  assumes "2 powi e \<le> \<bar>x\<bar>"
  shows "(x::real) \<noteq> 0"
proof
  assume "x = 0"
  with assms have "(2::real) powi e \<le> 0" by simp
  moreover have "0 < (2::real) powi e" by (rule two_powi_pos)
  ultimately show False by linarith
qed

lemma two_powr_int: "2 powr real_of_int k = (2::real) powi k"
  by (rule powr_real_of_int') simp_all

lemma one_less_two_real: "(1::real) < 2"
  by simp

lemma floor_log2_bounds:
  assumes "x \<noteq> 0"
  shows "2 powi \<lfloor>log 2 \<bar>x\<bar>\<rfloor> \<le> \<bar>x\<bar>" and "\<bar>x\<bar> < 2 powi (\<lfloor>log 2 \<bar>x\<bar>\<rfloor> + 1)"
proof -
  from assms have pos: "0 < \<bar>x\<bar>" by simp
  have "2 powr real_of_int \<lfloor>log 2 \<bar>x\<bar>\<rfloor> \<le> \<bar>x\<bar> \<and>
      \<bar>x\<bar> < 2 powr real_of_int (\<lfloor>log 2 \<bar>x\<bar>\<rfloor> + 1)"
    using floor_log_eq_powr_iff [OF pos one_less_two_real, of "\<lfloor>log 2 \<bar>x\<bar>\<rfloor>"] by blast
  then show "2 powi \<lfloor>log 2 \<bar>x\<bar>\<rfloor> \<le> \<bar>x\<bar>" and "\<bar>x\<bar> < 2 powi (\<lfloor>log 2 \<bar>x\<bar>\<rfloor> + 1)"
    unfolding two_powr_int by blast+
qed

lemma floor_log2_eq:
  assumes "2 powi e \<le> \<bar>x\<bar>" and "\<bar>x\<bar> < 2 powi (e + 1)"
  shows "\<lfloor>log 2 \<bar>x\<bar>\<rfloor> = e"
proof -
  from assms(1) have pos: "0 < \<bar>x\<bar>"
    using two_powi_pos [of e] by linarith
  from assms have "2 powr real_of_int e \<le> \<bar>x\<bar> \<and> \<bar>x\<bar> < 2 powr real_of_int (e + 1)"
    unfolding two_powr_int by blast
  then show ?thesis
    using floor_log_eq_powr_iff [OF pos one_less_two_real, of e] by blast
qed

lemma double_exponent_eq:
  assumes "2 powi e \<le> \<bar>x\<bar>" and "\<bar>x\<bar> < 2 powi (e + 1)" and "- 1022 \<le> e"
  shows "double_exponent x = e"
  using floor_log2_eq [OF assms(1,2)] assms(3) by (simp add: double_exponent_def)

lemma double_exponent_normal:
  assumes "2 powi (- 1022) \<le> \<bar>x\<bar>"
  shows "double_exponent x = \<lfloor>log 2 \<bar>x\<bar>\<rfloor>"
proof -
  from assms have nz: "x \<noteq> 0"
    by (rule two_powi_le_abs_nonzero)
  have "- 1022 \<le> \<lfloor>log 2 \<bar>x\<bar>\<rfloor>"
  proof (rule ccontr)
    assume "\<not> - 1022 \<le> \<lfloor>log 2 \<bar>x\<bar>\<rfloor>"
    then have "\<lfloor>log 2 \<bar>x\<bar>\<rfloor> + 1 \<le> - 1022" by linarith
    then have "(2::real) powi (\<lfloor>log 2 \<bar>x\<bar>\<rfloor> + 1) \<le> 2 powi (- 1022)"
      by (intro power_int_increasing) simp_all
    with floor_log2_bounds(2) [OF nz] assms show False by linarith
  qed
  then show ?thesis by (simp add: double_exponent_def)
qed

lemma two_powi_split: "(2::real) powi e = 2 powi (e - 52) * 2 ^ 52"
proof -
  have "(2::real) powi ((e - 52) + 52) = 2 powi (e - 52) * 2 powi 52"
    by (rule power_int_add) simp
  then show ?thesis by simp
qed

text \<open>A value that is nearer to one multiple of the unit in the last place than to any other.\<close>

lemma round_double_eval:
  assumes lo: "2 powi e \<le> \<bar>x\<bar>" and hi: "\<bar>x\<bar> < 2 powi (e + 1)" and e: "- 1022 \<le> e"
    and near: "\<bar>x / 2 powi (e - 52) - of_int m\<bar> < 1 / 2"
    and fin: "\<bar>of_int m * (2::real) powi (e - 52)\<bar> < 2 ^ 1024"
  shows "round_double x = Num (of_int m * 2 powi (e - 52))"
proof -
  from lo have nz: "x \<noteq> 0"
    by (rule two_powi_le_abs_nonzero)
  have ex: "double_exponent x = e"
    by (rule double_exponent_eq [OF lo hi e])
  have rd: "round_half_even (x / 2 powi (e - 52)) = m"
    by (rule round_half_even_unique [OF near])
  from fin have "\<not> 2 ^ 1024 \<le> of_int m * (2::real) powi (e - 52)"
    and "\<not> of_int m * (2::real) powi (e - 52) \<le> - (2 ^ 1024)"
    by linarith+
  with nz ex rd show ?thesis
    by (simp add: round_double_def Let_def)
qed

text \<open>A value that is a double already.\<close>

lemma round_double_exact:
  assumes lo: "2 powi e \<le> \<bar>x\<bar>" and hi: "\<bar>x\<bar> < 2 powi (e + 1)" and e: "- 1022 \<le> e" "e \<le> 1023"
    and rep: "x = of_int m * 2 powi (e - 52)"
  shows "round_double x = Num x"
proof -
  have q: "0 < (2::real) powi (e - 52)" by (rule two_powi_pos)
  from rep q have near: "\<bar>x / 2 powi (e - 52) - of_int m\<bar> < 1 / 2"
    by simp
  from e(2) have "(2::real) powi (e + 1) \<le> 2 powi 1024"
    by (intro power_int_increasing) simp_all
  with hi have "\<bar>x\<bar> < 2 ^ 1024" by simp
  with rep have fin: "\<bar>of_int m * (2::real) powi (e - 52)\<bar> < 2 ^ 1024" by simp
  from round_double_eval [OF lo hi e(1) near fin] rep show ?thesis by simp
qed

text \<open>In the normal range the relative error of rounding is at most \<open>2 ^ -53\<close>.\<close>

lemma round_double_relative_error:
  assumes lo: "2 powi (- 1022) \<le> \<bar>x\<bar>" and hi: "\<bar>x\<bar> \<le> 2 ^ 1023 * (3 / 2)"
  shows "\<exists>r. round_double x = Num r \<and> \<bar>r - x\<bar> \<le> \<bar>x\<bar> / 2 ^ 53"
proof -
  from lo have nz: "x \<noteq> 0"
    by (rule two_powi_le_abs_nonzero)
  define e where "e = \<lfloor>log 2 \<bar>x\<bar>\<rfloor>"
  define q where "q = (2::real) powi (e - 52)"
  define r where "r = of_int (round_half_even (x / q)) * q"
  have ex: "double_exponent x = e"
    unfolding e_def by (rule double_exponent_normal [OF lo])
  have qpos: "0 < q"
    unfolding q_def by (rule two_powi_pos)
  have "2 powi e \<le> \<bar>x\<bar>"
    unfolding e_def by (rule floor_log2_bounds(1) [OF nz])
  then have big: "q * 2 ^ 52 \<le> \<bar>x\<bar>"
    unfolding q_def using two_powi_split [of e] by simp
  have "\<bar>of_int (round_half_even (x / q)) - x / q\<bar> \<le> 1 / 2"
    by (rule round_half_even_near)
  then have "\<bar>of_int (round_half_even (x / q)) - x / q\<bar> * q \<le> 1 / 2 * q"
    using qpos by (intro mult_right_mono) simp_all
  moreover have "\<bar>of_int (round_half_even (x / q)) - x / q\<bar> * q = \<bar>r - x\<bar>"
  proof -
    have "\<bar>of_int (round_half_even (x / q)) - x / q\<bar> * q =
        \<bar>(of_int (round_half_even (x / q)) - x / q) * q\<bar>"
      using qpos by (simp add: abs_mult)
    also have "(of_int (round_half_even (x / q)) - x / q) * q = r - x"
      using qpos by (simp add: r_def left_diff_distrib)
    finally show ?thesis .
  qed
  ultimately have err: "\<bar>r - x\<bar> \<le> q / 2"
    by simp
  from big have "q / 2 \<le> \<bar>x\<bar> / 2 ^ 53"
    by (simp add: field_simps)
  with err have rel: "\<bar>r - x\<bar> \<le> \<bar>x\<bar> / 2 ^ 53"
    by linarith
  have "\<bar>x\<bar> / 2 ^ 53 \<le> \<bar>x\<bar> / 4"
    by (intro divide_left_mono) simp_all
  with rel have "\<bar>r\<bar> \<le> \<bar>x\<bar> * (5 / 4)"
    by linarith
  also from hi have "\<bar>x\<bar> * (5 / 4) \<le> 2 ^ 1023 * (3 / 2) * (5 / 4)"
    by (intro mult_right_mono) simp_all
  also have "\<dots> < (2::real) ^ 1024"
    by simp
  finally have "\<bar>r\<bar> < 2 ^ 1024" .
  then have "\<not> 2 ^ 1024 \<le> r" and "\<not> r \<le> - (2 ^ 1024)"
    by linarith+
  with nz ex have "round_double x = Num r"
    by (simp add: round_double_def Let_def q_def r_def)
  with rel show ?thesis by blast
qed

text \<open>Negation commutes with rounding and with the operations.\<close>

lemma double_exponent_uminus: "double_exponent (- x) = double_exponent x"
  by (simp add: double_exponent_def)

lemma round_double_uminus: "round_double (- x) = js_negate (round_double x)"
proof (cases "x = 0")
  case True
  then show ?thesis by (simp add: round_double_def)
next
  case False
  define q where "q = (2::real) powi (double_exponent x - 52)"
  define r where "r = of_int (round_half_even (x / q)) * q"
  have "of_int (round_half_even (- x / q)) * q = - r"
    using round_half_even_uminus [of "x / q"] by (simp add: r_def)
  moreover have "\<not> ((2::real) ^ 1024 \<le> r \<and> r \<le> - (2 ^ 1024))"
    by simp
  ultimately show ?thesis
    using False
    by (auto simp: round_double_def Let_def double_exponent_uminus q_def [symmetric] r_def [symmetric])
qed

lemma js_mul_commute: "js_mul x y = js_mul y x"
  by (cases x; cases y) (simp_all add: mult.commute infinity_times_def)

lemma js_negate_negate: "js_negate (js_negate x) = x"
  by (cases x) simp_all

lemma js_mul_negate_right: "js_mul x (js_negate y) = js_negate (js_mul x y)"
  by (cases x; cases y) (auto simp: infinity_times_def round_double_uminus)

lemma js_add_negate: "js_add (js_negate x) (js_negate y) = js_negate (js_add x y)"
proof (cases x; cases y)
  fix a b assume "x = Num a" "y = Num b"
  then show ?thesis
    using round_double_uminus [of "a + b"] by simp
qed simp_all

lemma js_divide_negate_left: "js_divide (js_negate x) y = js_negate (js_divide x y)"
proof (cases x; cases y)
  fix a b assume "x = Num a" "y = Num b"
  then show ?thesis
    using round_double_uminus [of "a / b"] by auto
qed simp_all

subsection \<open>Cosine similarity in the arithmetic of doubles: proofs\<close>

lemma cosine_loop_double_swap:
  "cosine_loop_double b a (d, nb, na) =
     (case cosine_loop_double a b (d, na, nb) of (d', na', nb') \<Rightarrow> (d', nb', na'))"
proof (induction a b "(d, na, nb)" arbitrary: d na nb rule: cosine_loop_double.induct)
  case (1 x xs y ys dotProduct normA normB)
  then show ?case by (simp add: js_mul_commute)
next
  case (2 ys)
  then show ?case by (cases ys) simp_all
next
  case (3 xs)
  then show ?case by (cases xs) simp_all
qed

lemma cosineSimilarity_double_symmetric:
  "cosineSimilarity_double a b = cosineSimilarity_double b a"
proof (cases "length a = length b")
  case True
  obtain d na nb where l: "cosine_loop_double a b (Num 0, Num 0, Num 0) = (d, na, nb)"
    by (cases "cosine_loop_double a b (Num 0, Num 0, Num 0)") auto
  then have "cosine_loop_double b a (Num 0, Num 0, Num 0) = (d, nb, na)"
    using cosine_loop_double_swap [of b a "Num 0" "Num 0" "Num 0"] by simp
  with l True show ?thesis
    by (simp add: cosineSimilarity_double_def js_mul_commute)
next
  case False
  then show ?thesis by (auto simp: cosineSimilarity_double_def)
qed

lemma cosine_loop_double_self:
  "\<exists>n. cosine_loop_double v v (t, t, t) = (n, n, n)"
  by (induction v arbitrary: t) simp_all

lemma cosine_loop_double_negated:
  "cosine_loop_double v v (t, t, t) = (n, n, n) \<Longrightarrow>
   cosine_loop_double v (map js_negate v) (js_negate t, t, t) = (js_negate n, n, n)"
proof (induction v arbitrary: t)
  case Nil
  then show ?case by simp
next
  case (Cons x v)
  have "js_mul (js_negate x) (js_negate x) = js_mul x x"
    by (simp add: js_mul_negate_right js_mul_commute [of "js_negate x" x] js_negate_negate)
  with Cons show ?case
    by (simp add: js_mul_negate_right js_add_negate)
qed

lemma cosineSimilarity_double_self:
  "cosineSimilarity_double v v =
     Inr (js_divide (squared_norm v) (js_mul (js_sqrt (squared_norm v)) (js_sqrt (squared_norm v))))"
proof -
  obtain n where n: "cosine_loop_double v v (Num 0, Num 0, Num 0) = (n, n, n)"
    using cosine_loop_double_self by blast
  then show ?thesis
    by (simp add: cosineSimilarity_double_def squared_norm_def)
qed

lemma cosineSimilarity_double_negated:
  "cosineSimilarity_double v (map js_negate v) =
     Inr (js_negate
       (js_divide (squared_norm v) (js_mul (js_sqrt (squared_norm v)) (js_sqrt (squared_norm v)))))"
proof -
  obtain n where n: "cosine_loop_double v v (Num 0, Num 0, Num 0) = (n, n, n)"
    using cosine_loop_double_self by blast
  from cosine_loop_double_negated [OF this]
  have "cosine_loop_double v (map js_negate v) (Num 0, Num 0, Num 0) = (js_negate n, n, n)"
    by simp
  with n show ?thesis
    by (simp add: cosineSimilarity_double_def squared_norm_def js_divide_negate_left)
qed

lemma smallest_normal: "(2::real) powi (- 1022) = 1 / 2 ^ 1022"
  by (simp add: power_int_minus_divide)

lemma relative_error_interval_general:
  fixes x r u :: real
  assumes "\<bar>r - x\<bar> \<le> x * u"
  shows "(1 - u) * x \<le> r" and "r \<le> (1 + u) * x"
  using assms by (simp_all add: algebra_simps abs_le_iff)

lemma relative_error_interval:
  fixes x r :: real
  assumes "\<bar>r - x\<bar> \<le> \<bar>x\<bar> / 2 ^ 53" and "0 < x"
  shows "(1 - 1 / 2 ^ 53) * x \<le> r" and "r \<le> (1 + 1 / 2 ^ 53) * x"
proof -
  from assms have "\<bar>r - x\<bar> \<le> x * (1 / 2 ^ 53)"
    by simp
  then show "(1 - 1 / 2 ^ 53) * x \<le> r" and "r \<le> (1 + 1 / 2 ^ 53) * x"
    by (rule relative_error_interval_general)+
qed

text \<open>
  Bounds used below: \<open>L\<close> and \<open>U\<close> are the factors by which one rounding can change a
  value of the normal range.
\<close>

lemma rounding_unit_facts:
  fixes L U :: real
  assumes "L = 1 - 1 / 2 ^ 53" "U = 1 + 1 / 2 ^ 53"
  shows "0 < L" "0 < U" "1 / 2 \<le> L ^ 3" "U ^ 3 \<le> 3 / 2" "1 / 2 \<le> L\<^sup>2" "U\<^sup>2 \<le> 3 / 2"
    "U \<le> (1 + 1 / 2 ^ 50) * L ^ 3" "(1 - 1 / 2 ^ 50) * U ^ 3 \<le> L"
  unfolding assms
  by (simp_all add: power2_eq_square power3_eq_cube field_simps)

lemma range_facts:
  fixes tiny huge c top :: real
  assumes "tiny = 1 / 2 ^ 1022" "huge = 2 ^ 1023 * (3 / 2)" "c = 1 / 2 ^ 1021" "top = 2 ^ 1023"
  shows "0 < tiny" "0 < c" "tiny\<^sup>2 \<le> c" "tiny = c / 2" "top \<le> huge\<^sup>2" "0 \<le> huge"
    "3 / 2 * top = huge" "tiny \<le> 1 / 2" "2 \<le> huge" "0 < top"
  unfolding assms
  by (simp_all add: power2_eq_square field_simps)

text \<open>
  For a squared norm \<open>n\<close> in the range where neither it nor its square root leaves the
  normal range, the quotient \<open>n / (sqrt n * sqrt n)\<close> with its three roundings is within
  \<open>2 ^ -50\<close> of 1.
\<close>

lemma self_quotient_bound:
  assumes lo: "1 / 2 ^ 1021 \<le> n" and hi: "n \<le> 2 ^ 1023"
  shows "\<exists>r. js_divide (Num n) (js_mul (js_sqrt (Num n)) (js_sqrt (Num n))) = Num r \<and>
           \<bar>r - 1\<bar> \<le> 1 / 2 ^ 50"
proof -
  define L :: real where "L = 1 - 1 / 2 ^ 53"
  define U :: real where "U = 1 + 1 / 2 ^ 53"
  define tiny :: real where "tiny = 1 / 2 ^ 1022"
  define huge :: real where "huge = 2 ^ 1023 * (3 / 2)"
  define c :: real where "c = 1 / 2 ^ 1021"
  define top :: real where "top = 2 ^ 1023"
  note LU = rounding_unit_facts [OF L_def U_def]
  note rg = range_facts [OF tiny_def huge_def c_def top_def]
  have normal: "\<And>x. tiny \<le> \<bar>x\<bar> \<Longrightarrow> \<bar>x\<bar> \<le> huge \<Longrightarrow>
      \<exists>r. round_double x = Num r \<and> \<bar>r - x\<bar> \<le> \<bar>x\<bar> / 2 ^ 53"
    unfolding tiny_def huge_def
    using round_double_relative_error by (simp add: smallest_normal)
  have interval: "\<And>x r. \<bar>r - x\<bar> \<le> \<bar>x\<bar> / 2 ^ 53 \<Longrightarrow> 0 < x \<Longrightarrow> L * x \<le> r \<and> r \<le> U * x"
    unfolding L_def U_def using relative_error_interval by blast
  from lo hi have lo': "c \<le> n" and hi': "n \<le> top"
    by (simp_all add: c_def top_def)
  from lo' rg(2) have npos: "0 < n"
    by linarith
  define a where "a = sqrt n"
  have apos: "0 < a" and asq: "a\<^sup>2 = n"
    using npos by (simp_all add: a_def)
  from rg(3) lo' have "tiny\<^sup>2 \<le> n" by linarith
  then have "tiny \<le> a"
    unfolding a_def by (rule real_le_rsqrt)
  with apos have a_lo: "tiny \<le> \<bar>a\<bar>"
    by linarith
  from rg(5) hi' have "n \<le> huge\<^sup>2"
    by linarith
  with rg(6) have "a \<le> huge"
    unfolding a_def by (intro real_le_lsqrt)
  with apos have a_hi: "\<bar>a\<bar> \<le> huge"
    by linarith
  from normal [OF a_lo a_hi]
  obtain s where s: "round_double a = Num s" and s_err: "\<bar>s - a\<bar> \<le> \<bar>a\<bar> / 2 ^ 53"
    by blast
  from interval [OF s_err apos]
  have s_lo: "L * a \<le> s" and s_hi: "s \<le> U * a"
    by blast+
  have "0 < L * a"
    using LU(1) apos by simp
  with s_lo have spos: "0 < s"
    by linarith
  have "(L * a)\<^sup>2 \<le> s\<^sup>2"
    using s_lo LU(1) apos by (intro power_mono) simp_all
  moreover have "(L * a)\<^sup>2 = L\<^sup>2 * n"
    by (simp add: power_mult_distrib asq)
  ultimately have "L\<^sup>2 * n \<le> s\<^sup>2"
    by (simp only:)
  then have ss_lo: "L\<^sup>2 * n \<le> s * s"
    by (simp only: power2_eq_square [of s])
  have "s\<^sup>2 \<le> (U * a)\<^sup>2"
    using s_hi spos by (intro power_mono) simp_all
  moreover have "(U * a)\<^sup>2 = U\<^sup>2 * n"
    by (simp add: power_mult_distrib asq)
  ultimately have "s\<^sup>2 \<le> U\<^sup>2 * n"
    by (simp only:)
  then have ss_hi: "s * s \<le> U\<^sup>2 * n"
    by (simp only: power2_eq_square [of s])
  have sspos: "0 < s * s"
    using spos by simp
  have "1 / 2 * c \<le> 1 / 2 * n"
    using lo' by simp
  moreover have "1 / 2 * n \<le> L\<^sup>2 * n"
    using LU(5) npos by (intro mult_right_mono) simp_all
  ultimately have "tiny \<le> s * s"
    using ss_lo rg(4) by linarith
  with sspos have ss_lo': "tiny \<le> \<bar>s * s\<bar>"
    by linarith
  have "U\<^sup>2 * n \<le> 3 / 2 * top"
    using LU(6) hi' npos by (intro mult_mono) simp_all
  with ss_hi sspos rg(7) have ss_hi': "\<bar>s * s\<bar> \<le> huge"
    by linarith
  from normal [OF ss_lo' ss_hi']
  obtain p where p: "round_double (s * s) = Num p" and p_err: "\<bar>p - s * s\<bar> \<le> \<bar>s * s\<bar> / 2 ^ 53"
    by blast
  from interval [OF p_err sspos]
  have "L * (s * s) \<le> p" and "p \<le> U * (s * s)"
    by blast+
  moreover have "L * (L\<^sup>2 * n) \<le> L * (s * s)"
    using ss_lo LU(1) by (intro mult_left_mono) simp_all
  moreover have "U * (s * s) \<le> U * (U\<^sup>2 * n)"
    using ss_hi LU(2) by (intro mult_left_mono) simp_all
  moreover have "L * (L\<^sup>2 * n) = L ^ 3 * n" and "U * (U\<^sup>2 * n) = U ^ 3 * n"
    by (simp_all add: power2_eq_square power3_eq_cube)
  ultimately have p_lo: "L ^ 3 * n \<le> p" and p_hi: "p \<le> U ^ 3 * n"
    by linarith+
  have "0 < L ^ 3 * n"
    using LU(1) npos by simp
  with p_lo have ppos: "0 < p"
    by linarith
  define t where "t = n / p"
  have tpos: "0 < t"
    using npos ppos by (simp add: t_def)
  have pt: "p * t = n"
    using ppos by (simp add: t_def)
  have t_lo: "1 \<le> U ^ 3 * t"
  proof -
    have "p * t \<le> U ^ 3 * n * t"
      using p_hi tpos by (intro mult_right_mono) simp_all
    with pt have "1 * n \<le> (U ^ 3 * t) * n"
      by (simp add: mult.commute mult.left_commute)
    then show ?thesis
      using npos by (simp only: mult_le_cancel_right_pos)
  qed
  have t_hi: "L ^ 3 * t \<le> 1"
  proof -
    have "L ^ 3 * n * t \<le> p * t"
      using p_lo tpos by (intro mult_right_mono) simp_all
    with pt have "(L ^ 3 * t) * n \<le> 1 * n"
      by (simp add: mult.commute mult.left_commute)
    then show ?thesis
      using npos by (simp only: mult_le_cancel_right_pos)
  qed
  have "U ^ 3 * t \<le> 3 / 2 * t"
    using LU(4) tpos by (intro mult_right_mono) simp_all
  with t_lo have "1 / 2 \<le> t"
    by linarith
  with rg(8) tpos have t_lo': "tiny \<le> \<bar>t\<bar>"
    by linarith
  have "1 / 2 * t \<le> L ^ 3 * t"
    using LU(3) tpos by (intro mult_right_mono) simp_all
  with t_hi have "t \<le> 2"
    by linarith
  with rg(9) tpos have t_hi': "\<bar>t\<bar> \<le> huge"
    by linarith
  from normal [OF t_lo' t_hi']
  obtain q where q: "round_double t = Num q" and q_err: "\<bar>q - t\<bar> \<le> \<bar>t\<bar> / 2 ^ 53"
    by blast
  from interval [OF q_err tpos]
  have q_lo: "L * t \<le> q" and q_hi: "q \<le> U * t"
    by blast+
  define eps :: real where "eps = 1 / 2 ^ 50"
  have eps: "0 \<le> eps" "eps \<le> 1"
    by (simp_all add: eps_def)
  have "q \<le> 1 + eps"
  proof -
    have "U * t \<le> (1 + eps) * L ^ 3 * t"
      using LU(7) tpos unfolding eps_def by (intro mult_right_mono) simp_all
    also have "\<dots> = (1 + eps) * (L ^ 3 * t)"
      by simp
    also have "\<dots> \<le> (1 + eps) * 1"
      using t_hi eps by (intro mult_left_mono) simp_all
    finally show ?thesis using q_hi by simp
  qed
  moreover have "1 - eps \<le> q"
  proof -
    have "(1 - eps) * 1 \<le> (1 - eps) * (U ^ 3 * t)"
      using t_lo eps by (intro mult_left_mono) simp_all
    also have "\<dots> = (1 - eps) * U ^ 3 * t"
      by simp
    also have "\<dots> \<le> L * t"
      using LU(8) tpos unfolding eps_def by (intro mult_right_mono) simp_all
    finally show ?thesis using q_lo by simp
  qed
  ultimately have "\<bar>q - 1\<bar> \<le> eps"
    by (simp add: abs_le_iff)
  moreover have "js_divide (Num n) (js_mul (js_sqrt (Num n)) (js_sqrt (Num n))) = Num q"
    using npos s p q ppos by (simp add: a_def t_def)
  ultimately show ?thesis
    unfolding eps_def by blast
qed

text \<open>Integers below \<open>2 ^ 53\<close> are doubles.\<close>

lemma round_double_of_int:
  assumes "k \<noteq> 0" and "\<bar>k\<bar> < 2 ^ 53"
  shows "round_double (of_int k) = Num (of_int k)"
proof -
  define x :: real where "x = of_int k"
  define e where "e = \<lfloor>log 2 \<bar>x\<bar>\<rfloor>"
  from assms(1) have nz: "x \<noteq> 0" by (simp add: x_def)
  have lo: "2 powi e \<le> \<bar>x\<bar>" and hi: "\<bar>x\<bar> < 2 powi (e + 1)"
    unfolding e_def by (rule floor_log2_bounds [OF nz])+
  from assms(1) have "1 \<le> \<bar>k\<bar>" by simp
  then have "(1::real) \<le> of_int \<bar>k\<bar>" by (simp only: of_int_1_le_iff)
  then have one: "1 \<le> \<bar>x\<bar>" by (simp add: x_def)
  have e0: "0 \<le> e"
  proof (rule ccontr)
    assume "\<not> 0 \<le> e"
    then have "e + 1 \<le> 0" by simp
    then have "(2::real) powi (e + 1) \<le> 2 powi 0"
      by (intro power_int_increasing) simp_all
    with hi one show False by simp
  qed
  from assms(2) have "\<bar>x\<bar> < 2 ^ 53"
    unfolding x_def by (metis of_int_abs of_int_less_numeral_power_cancel_iff)
  have e52: "e \<le> 52"
  proof (rule ccontr)
    assume "\<not> e \<le> 52"
    then have "53 \<le> e" by simp
    then have "(2::real) powi 53 \<le> 2 powi e"
      by (intro power_int_increasing) simp_all
    with lo \<open>\<bar>x\<bar> < 2 ^ 53\<close> show False by simp
  qed
  define m where "m = k * 2 ^ nat (52 - e)"
  have "(2::real) powi (52 - e) * 2 powi (e - 52) = 2 powi ((52 - e) + (e - 52))"
    by (rule power_int_add [symmetric]) simp
  then have unit: "(2::real) powi (52 - e) * 2 powi (e - 52) = 1"
    by simp
  have "(2::real) ^ nat (52 - e) = 2 powi (52 - e)"
    using e52 by (simp add: power_int_def)
  then have "of_int m * 2 powi (e - 52) = x * (2 powi (52 - e) * 2 powi (e - 52))"
    by (simp add: m_def x_def)
  with unit have rep: "x = of_int m * 2 powi (e - 52)"
    by simp
  from e0 e52 have "- 1022 \<le> e" "e \<le> 1023" by simp_all
  from round_double_exact [OF lo hi this rep] show ?thesis
    by (simp add: x_def)
qed

lemma round_double_small_numbers:
  "round_double 1 = Num 1" "round_double (- 1) = Num (- 1)" "round_double 2 = Num 2"
  "round_double 3 = Num 3" "round_double 6 = Num 6" "round_double 9 = Num 9"
  "round_double 18 = Num 18"
  using round_double_of_int [of 1] round_double_of_int [of "- 1"] round_double_of_int [of 2]
    round_double_of_int [of 3] round_double_of_int [of 6] round_double_of_int [of 9]
    round_double_of_int [of 18]
  by simp_all

text \<open>The rounded square roots of 2 and of 18.\<close>

lemma round_double_sqrt_2: "round_double (sqrt 2) = Num (6369051672525773 / 2 ^ 52)"
proof -
  have lo: "(6369051672525773 - 1 / 2) / 2 ^ 52 < sqrt 2"
    by (rule real_less_rsqrt) (simp add: power2_eq_square)
  have hi: "sqrt 2 < (6369051672525773 + 1 / 2) / 2 ^ 52"
    by (rule real_less_lsqrt) (simp_all add: power2_eq_square)
  have one: "1 \<le> sqrt 2" by simp
  have two: "sqrt 2 < 2"
    by (rule real_less_lsqrt) simp_all
  have "round_double (sqrt 2) = Num (of_int 6369051672525773 * 2 powi (0 - 52))"
  proof (rule round_double_eval)
    show "2 powi 0 \<le> \<bar>sqrt 2\<bar>" using one by simp
    show "\<bar>sqrt 2\<bar> < 2 powi (0 + 1)" using two by simp
    from lo have l: "6369051672525773 - 1 / 2 < sqrt 2 * 2 ^ 52"
      by (simp add: field_simps)
    from hi have h: "sqrt 2 * 2 ^ 52 < 6369051672525773 + 1 / 2"
      by (simp add: field_simps)
    have "sqrt 2 / 2 powi (0 - 52) = sqrt 2 * 2 ^ 52"
      by (simp add: power_int_minus_divide)
    with l h show "\<bar>sqrt 2 / 2 powi (0 - 52) - of_int 6369051672525773\<bar> < 1 / 2"
      by (simp only: abs_less_iff of_int_numeral) linarith
  qed (simp_all add: power_int_minus_divide)
  then show ?thesis by (simp add: power_int_minus_divide)
qed

lemma round_double_sqrt_18: "round_double (sqrt 18) = Num (4776788754394329 / 2 ^ 50)"
proof -
  have lo: "(4776788754394329 - 1 / 2) / 2 ^ 50 < sqrt 18"
    by (rule real_less_rsqrt) (simp add: power2_eq_square)
  have hi: "sqrt 18 < (4776788754394329 + 1 / 2) / 2 ^ 50"
    by (rule real_less_lsqrt) (simp_all add: power2_eq_square)
  have four: "4 \<le> sqrt 18"
    by (rule real_le_rsqrt) simp
  have eight: "sqrt 18 < 8"
    by (rule real_less_lsqrt) simp_all
  have "round_double (sqrt 18) = Num (of_int 4776788754394329 * 2 powi (2 - 52))"
  proof (rule round_double_eval)
    show "2 powi 2 \<le> \<bar>sqrt 18\<bar>" using four by simp
    show "\<bar>sqrt 18\<bar> < 2 powi (2 + 1)" using eight by simp
    from lo have l: "4776788754394329 - 1 / 2 < sqrt 18 * 2 ^ 50"
      by (simp add: field_simps)
    from hi have h: "sqrt 18 * 2 ^ 50 < 4776788754394329 + 1 / 2"
      by (simp add: field_simps)
    have "sqrt 18 / 2 powi (2 - 52) = sqrt 18 * 2 ^ 50"
      by (simp add: power_int_minus_divide)
    with l h show "\<bar>sqrt 18 / 2 powi (2 - 52) - of_int 4776788754394329\<bar> < 1 / 2"
      by (simp only: abs_less_iff of_int_numeral) linarith
  qed (simp_all add: power_int_minus_divide)
  then show ?thesis by (simp add: power_int_minus_divide)
qed

lemma round_double_square_of_sqrt_2:
  "round_double (6369051672525773 / 2 ^ 52 * (6369051672525773 / 2 ^ 52)) =
     Num (4503599627370497 / 2 ^ 51)"
proof -
  have "round_double (6369051672525773 / 2 ^ 52 * (6369051672525773 / 2 ^ 52)) =
      Num (of_int 4503599627370497 * 2 powi (1 - 52))"
    by (rule round_double_eval) (simp_all add: power_int_minus_divide abs_less_iff)
  then show ?thesis by (simp add: power_int_minus_divide)
qed

lemma round_double_two_over_square:
  "round_double (2 / (4503599627370497 / 2 ^ 51)) = Num (1 - 1 / 2 ^ 52)"
proof -
  have "round_double (2 / (4503599627370497 / 2 ^ 51)) =
      Num (of_int 9007199254740990 * 2 powi (- 1 - 52))"
    by (rule round_double_eval) (simp_all add: power_int_minus_divide abs_less_iff)
  then show ?thesis by (simp add: power_int_minus_divide)
qed

lemma round_double_sqrt_2_times_sqrt_18:
  "round_double (6369051672525773 / 2 ^ 52 * (4776788754394329 / 2 ^ 50)) = Num 6"
proof -
  have "round_double (6369051672525773 / 2 ^ 52 * (4776788754394329 / 2 ^ 50)) =
      Num (of_int 6755399441055744 * 2 powi (2 - 52))"
    by (rule round_double_eval) (simp_all add: power_int_minus_divide abs_less_iff)
  then show ?thesis by (simp add: power_int_minus_divide)
qed

lemma cosineSimilarity_double_of_loop:
  assumes "length a = length b"
    and "cosine_loop_double a b (Num 0, Num 0, Num 0) = (dotProduct, normA, normB)"
  shows "cosineSimilarity_double a b =
    Inr (js_divide dotProduct (js_mul (js_sqrt normA) (js_sqrt normB)))"
  using assms by (simp add: cosineSimilarity_double_def)

text \<open>
  The doubles that the code computes on the way to the similarity of \<open>[1, 1]\<close> to itself
  and to \<open>[3, 3]\<close>: the rounded square roots of 2 and of 18, and the rounded square of the
  former.
\<close>

definition double_sqrt_2 :: real where
  "double_sqrt_2 = 6369051672525773 / 2 ^ 52"

definition double_sqrt_18 :: real where
  "double_sqrt_18 = 4776788754394329 / 2 ^ 50"

definition double_sqrt_2_squared :: real where
  "double_sqrt_2_squared = 4503599627370497 / 2 ^ 51"

lemma js_sqrt_2: "js_sqrt (Num 2) = Num double_sqrt_2"
  by (simp add: round_double_sqrt_2 double_sqrt_2_def)

lemma js_sqrt_18: "js_sqrt (Num 18) = Num double_sqrt_18"
  by (simp add: round_double_sqrt_18 double_sqrt_18_def)

lemma js_mul_sqrt_2_sqrt_2: "js_mul (Num double_sqrt_2) (Num double_sqrt_2) = Num double_sqrt_2_squared"
  unfolding double_sqrt_2_def double_sqrt_2_squared_def js_mul.simps
  by (rule round_double_square_of_sqrt_2)

lemma js_divide_2_sqrt_2_squared: "js_divide (Num 2) (Num double_sqrt_2_squared) = Num (1 - 1 / 2 ^ 52)"
proof -
  have "double_sqrt_2_squared \<noteq> 0" by (simp add: double_sqrt_2_squared_def)
  then have "js_divide (Num 2) (Num double_sqrt_2_squared) = round_double (2 / double_sqrt_2_squared)"
    by simp
  also have "\<dots> = Num (1 - 1 / 2 ^ 52)"
    unfolding double_sqrt_2_squared_def by (rule round_double_two_over_square)
  finally show ?thesis .
qed

lemma js_mul_sqrt_2_sqrt_18: "js_mul (Num double_sqrt_2) (Num double_sqrt_18) = Num 6"
  unfolding double_sqrt_2_def double_sqrt_18_def js_mul.simps
  by (rule round_double_sqrt_2_times_sqrt_18)

lemma js_divide_6_6: "js_divide (Num 6) (Num 6) = Num 1"
  by (simp add: round_double_small_numbers)

lemma squared_norm_1_1: "squared_norm [Num 1, Num 1] = Num 2"
  by (simp add: squared_norm_def round_double_small_numbers)

lemma cosineSimilarity_double_1_1_self:
  "cosineSimilarity_double [Num 1, Num 1] [Num 1, Num 1] = Inr (Num (1 - 1 / 2 ^ 52))"
  by (simp only: cosineSimilarity_double_self squared_norm_1_1 js_sqrt_2 js_mul_sqrt_2_sqrt_2
      js_divide_2_sqrt_2_squared)

lemma cosineSimilarity_double_1_1_negated:
  "cosineSimilarity_double [Num 1, Num 1] [Num (- 1), Num (- 1)] = Inr (Num (- (1 - 1 / 2 ^ 52)))"
proof -
  have "cosineSimilarity_double [Num 1, Num 1] (map js_negate [Num 1, Num 1]) =
      Inr (js_negate (Num (1 - 1 / 2 ^ 52)))"
    by (simp only: cosineSimilarity_double_negated squared_norm_1_1 js_sqrt_2
        js_mul_sqrt_2_sqrt_2 js_divide_2_sqrt_2_squared)
  then show ?thesis by simp
qed

lemma cosineSimilarity_double_1_1_3_3:
  "cosineSimilarity_double [Num 1, Num 1] [Num 3, Num 3] = Inr (Num 1)"
proof -
  have "cosine_loop_double [Num 1, Num 1] [Num 3, Num 3] (Num 0, Num 0, Num 0) =
      (Num 6, Num 2, Num 18)"
    by (simp add: round_double_small_numbers)
  from cosineSimilarity_double_of_loop [OF _ this] show ?thesis
    by (simp only: js_sqrt_2 js_sqrt_18 js_mul_sqrt_2_sqrt_18 js_divide_6_6 list.size)
qed

text \<open>
  Vectors of different lengths and a vector of zeros: in the arithmetic of doubles the
  function throws and returns \<^verbatim>\<open>NaN\<close> as it does with exact arithmetic, whatever the
  other vector holds.
\<close>

lemma cosine_loop_double_zero:
  assumes "\<forall>x \<in> set a. x = Num 0" and "dotProduct = Num 0 \<or> dotProduct = NaN"
  shows "\<exists>d normB'. cosine_loop_double a b (dotProduct, Num 0, normB) = (d, Num 0, normB') \<and>
    (d = Num 0 \<or> d = NaN)"
  using assms
proof (induction a arbitrary: b dotProduct normB)
  case Nil
  then show ?case by simp
next
  case (Cons x xs)
  show ?case
  proof (cases b)
    case Nil
    with Cons.prems show ?thesis by simp
  next
    case (Cons y ys)
    from Cons.prems have x: "x = Num 0" and xs: "\<forall>x \<in> set xs. x = Num 0" by simp_all
    have n: "js_add (Num 0) (js_mul x x) = Num 0"
      by (simp add: x round_double_def)
    have m: "js_mul x y = Num 0 \<or> js_mul x y = NaN"
      by (cases y) (simp_all add: x round_double_def infinity_times_def)
    with Cons.prems(2)
    have d: "js_add dotProduct (js_mul x y) = Num 0 \<or> js_add dotProduct (js_mul x y) = NaN"
      by (auto simp: round_double_def)
    from Cons.IH [OF xs d, of ys "js_add normB (js_mul y y)"] n Cons show ?thesis
      by simp
  qed
qed

lemma cosineSimilarity_double_zero_vector:
  assumes "length a = length b" and "\<forall>x \<in> set a. x = Num 0"
  shows "cosineSimilarity_double a b = Inr NaN"
proof -
  from cosine_loop_double_zero [OF assms(2), of "Num 0" b "Num 0"]
  obtain d normB where l: "cosine_loop_double a b (Num 0, Num 0, Num 0) = (d, Num 0, normB)"
    and d: "d = Num 0 \<or> d = NaN" by auto
  have "js_sqrt (Num 0) = Num 0" by (simp add: round_double_def)
  moreover have "js_mul (Num 0) y = Num 0 \<or> js_mul (Num 0) y = NaN" for y
    by (cases y) (simp_all add: round_double_def infinity_times_def)
  ultimately have "js_mul (js_sqrt (Num 0)) (js_sqrt normB) = Num 0 \<or>
      js_mul (js_sqrt (Num 0)) (js_sqrt normB) = NaN"
    by simp
  with d have "js_divide d (js_mul (js_sqrt (Num 0)) (js_sqrt normB)) = NaN"
    by auto
  with cosineSimilarity_double_of_loop [OF assms(1) l] show ?thesis by simp
qed

lemma cosineSimilarity_double_dimension_mismatch:
  "length a \<noteq> length b \<Longrightarrow>
   cosineSimilarity_double a b = Inl (Error ''Vectors must have the same length'')"
  by (simp add: cosineSimilarity_double_def)

lemma cosineSimilarity_double_zero_vector_right:
  assumes "length a = length b" and "\<forall>y \<in> set b. y = Num 0"
  shows "cosineSimilarity_double a b = Inr NaN"
  using cosineSimilarity_double_zero_vector [of b a] assms
  by (simp add: cosineSimilarity_double_symmetric [of a b])

subsection \<open>Claims about cosine similarity in the arithmetic of doubles\<close>

lemma round_double_0: "round_double 0 = Num 0"
  by (simp add: round_double_def)

text \<open>A value below half of the smallest positive double is rounded to zero.\<close>

lemma round_double_underflow:
  assumes "\<bar>x\<bar> < 2 powi (- 1075)"
  shows "round_double x = Num 0"
proof (cases "x = 0")
  case True
  then show ?thesis by (simp add: round_double_def)
next
  case False
  have "\<lfloor>log 2 \<bar>x\<bar>\<rfloor> \<le> - 1022"
  proof (rule ccontr)
    assume "\<not> \<lfloor>log 2 \<bar>x\<bar>\<rfloor> \<le> - 1022"
    then have "- 1075 \<le> \<lfloor>log 2 \<bar>x\<bar>\<rfloor>" by simp
    then have "(2::real) powi (- 1075) \<le> 2 powi \<lfloor>log 2 \<bar>x\<bar>\<rfloor>"
      by (intro power_int_increasing) simp_all
    with floor_log2_bounds(1) [OF False] assms show False by linarith
  qed
  then have e: "double_exponent x = - 1022"
    by (simp add: double_exponent_def)
  define q :: real where "q = 2 powi (- 1074)"
  have q: "0 < q" by (simp add: q_def two_powi_pos)
  have "(2::real) powi (- 1075 + 1) = 2 powi (- 1075) * 2 powi 1"
    by (rule power_int_add) simp
  then have half: "2 powi (- 1075) = q / 2"
    by (simp add: q_def)
  have "\<bar>x / q\<bar> = \<bar>x\<bar> / q"
    using q by simp
  also have "\<dots> < (q / 2) / q"
    using assms q unfolding half by (intro divide_strict_right_mono) simp_all
  also have "\<dots> = 1 / 2"
    using q by simp
  finally have "\<bar>x / q - of_int 0\<bar> < 1 / 2"
    by simp
  then have "round_half_even (x / q) = 0"
    by (rule round_half_even_unique)
  with False e show ?thesis
    by (simp add: round_double_def Let_def q_def)
qed

lemma cosineSimilarity_double_underflow:
  "cosineSimilarity_double [Num (1 / 2 ^ 600)] [Num (1 / 2 ^ 600)] = Inr NaN"
proof -
  have "\<bar>1 / 2 ^ 600 * (1 / 2 ^ 600)\<bar> < (2::real) powi (- 1075)"
    by (simp add: power_int_minus_divide)
  then have "round_double (1 / 2 ^ 600 * (1 / 2 ^ 600)) = Num 0"
    by (rule round_double_underflow)
  then have "js_mul (Num (1 / 2 ^ 600)) (Num (1 / 2 ^ 600)) = Num 0"
    by (simp only: js_mul.simps)
  then have "cosine_loop_double [Num (1 / 2 ^ 600)] [Num (1 / 2 ^ 600)] (Num 0, Num 0, Num 0) =
      (Num 0, Num 0, Num 0)"
    by (simp add: round_double_0 del: js_mul.simps)
  from cosineSimilarity_double_of_loop [OF _ this] show ?thesis
    by (simp add: round_double_0)
qed

text \<open>
  Claim C8, amended. \<^verbatim>\<open>cosineSimilarity\<close>, computed in doubles as the code computes it:
  \<^item> is symmetric, \<open>similarity(a, b) = similarity(b, a)\<close>, exactly and for all vectors;
  \<^item> gives for \<open>v\<close> and its negation exactly the negated value of what it gives for \<open>v\<close>
    and \<open>v\<close>;
  \<^item> gives for \<open>v\<close> and \<open>v\<close> a number within \<open>2 ^ -50\<close> of 1, and for \<open>v\<close> and its negation
    a number within \<open>2 ^ -50\<close> of -1, when the squared norm of \<open>v\<close>, as the loop computes
    it, is a finite number between \<open>2 ^ -1021\<close> and \<open>2 ^ 1023\<close>.

  The values 1 and -1 themselves are not reached in general, and a vector that is not
  zero but whose squared norm is rounded to zero has no similarity to itself.
\<close>

theorem cosineSimilarity_double_symmetric_near_one:
  "cosineSimilarity_double a b = cosineSimilarity_double b a \<and>
   (\<exists>s. cosineSimilarity_double v v = Inr s \<and>
        cosineSimilarity_double v (map js_negate v) = Inr (js_negate s)) \<and>
   (squared_norm v = Num n \<and> 1 / 2 ^ 1021 \<le> n \<and> n \<le> 2 ^ 1023 \<longrightarrow>
      (\<exists>r. cosineSimilarity_double v v = Inr (Num r) \<and> \<bar>r - 1\<bar> \<le> 1 / 2 ^ 50 \<and>
           cosineSimilarity_double v (map js_negate v) = Inr (Num (- r))))"
proof (intro conjI impI)
  show "cosineSimilarity_double a b = cosineSimilarity_double b a"
    by (rule cosineSimilarity_double_symmetric)
next
  show "\<exists>s. cosineSimilarity_double v v = Inr s \<and>
        cosineSimilarity_double v (map js_negate v) = Inr (js_negate s)"
    by (simp add: cosineSimilarity_double_self cosineSimilarity_double_negated)
next
  assume a: "squared_norm v = Num n \<and> 1 / 2 ^ 1021 \<le> n \<and> n \<le> 2 ^ 1023"
  then have "1 / 2 ^ 1021 \<le> n" and "n \<le> 2 ^ 1023"
    by simp_all
  from self_quotient_bound [OF this]
  obtain r where "js_divide (Num n) (js_mul (js_sqrt (Num n)) (js_sqrt (Num n))) = Num r"
    and "\<bar>r - 1\<bar> \<le> 1 / 2 ^ 50"
    by blast
  with a have "cosineSimilarity_double v v = Inr (Num r) \<and> \<bar>r - 1\<bar> \<le> 1 / 2 ^ 50 \<and>
      cosineSimilarity_double v (map js_negate v) = Inr (Num (- r))"
    by (simp add: cosineSimilarity_double_self cosineSimilarity_double_negated)
  then show "\<exists>r. cosineSimilarity_double v v = Inr (Num r) \<and> \<bar>r - 1\<bar> \<le> 1 / 2 ^ 50 \<and>
      cosineSimilarity_double v (map js_negate v) = Inr (Num (- r))"
    by blast
qed

text \<open>
  The vector \<open>[1, 1]\<close> has the squared norm 2; its similarity to itself is within
  \<open>2 ^ -50\<close> of 1.
\<close>

theorem cosineSimilarity_double_symmetric_near_one_witness:
  "squared_norm [Num 1, Num 1] = Num 2 \<and>
   cosineSimilarity_double [Num 1, Num 3] [Num 3, Num 1] =
     cosineSimilarity_double [Num 3, Num 1] [Num 1, Num 3] \<and>
   (\<exists>r. cosineSimilarity_double [Num 1, Num 1] [Num 1, Num 1] = Inr (Num r) \<and>
        \<bar>r - 1\<bar> \<le> 1 / 2 ^ 50 \<and>
        cosineSimilarity_double [Num 1, Num 1] [Num (- 1), Num (- 1)] = Inr (Num (- r)))"
  using cosineSimilarity_double_symmetric_near_one [of "[Num 1, Num 3]" "[Num 3, Num 1]"
      "[Num 1, Num 1]" 2]
  by (simp add: squared_norm_1_1)

text \<open>
  The claim as it is stated fails. For \<open>v = [1, 1]\<close> the code computes the squared norm 2,
  the square root \<open>6369051672525773 / 2 ^ 52\<close>, the product of the two square roots
  \<open>2 + 2 ^ -51\<close> and the quotient \<open>1 - 2 ^ -52\<close>, which JavaScript prints as
  \<^verbatim>\<open>0.9999999999999998\<close>; for \<open>v\<close> and \<open>-v\<close> it computes the negation of that. For the
  non-zero vector \<open>[2 ^ -600]\<close> the squared norm is rounded to 0 and the result is
  \<^verbatim>\<open>NaN\<close>.
\<close>

theorem self_similarity_below_one_counterexample:
  "cosineSimilarity_double [Num 1, Num 1] [Num 1, Num 1] = Inr (Num (1 - 1 / 2 ^ 52)) \<and>
   cosineSimilarity_double [Num 1, Num 1] [Num (- 1), Num (- 1)] =
     Inr (Num (- (1 - 1 / 2 ^ 52))) \<and>
   cosineSimilarity_double [Num (1 / 2 ^ 600)] [Num (1 / 2 ^ 600)] = Inr NaN"
  using cosineSimilarity_double_1_1_self cosineSimilarity_double_1_1_negated
    cosineSimilarity_double_underflow
  by (intro conjI)

subsection \<open>The search endpoint: data\<close>

text \<open>
  An opportunity record, with the fields the ranking reads and writes. The other fields
  of \<^verbatim>\<open>SAMOpportunity\<close> are copied unchanged by every function below.
\<close>

record opportunity =
  noticeId :: string
  title :: string
  description :: string
  synopsis :: string
  relevanceScore :: number

text \<open>
  \<^verbatim>\<open>SAMSearchFilters\<close> as the handler builds it. A field that is \<^verbatim>\<open>undefined\<close> is
  \<open>None\<close>; the field \<^verbatim>\<open>type\<close> is named \<open>noticeType\<close> here.
\<close>

record SAMSearchFilters =
  keyword :: "string option"
  startDate :: "string option"
  endDate :: "string option"
  naicsCode :: "string option"
  state :: "string option"
  agency :: "string option"
  noticeType :: "string option"
  setAside :: "string option"
  active :: "bool option"
  limit :: number
  offset :: number

record SAMSearchResponse =
  opportunities :: "opportunity list"
  totalRecords :: nat
  response_limit :: number
  response_offset :: number

datatype json_value = JString string | JBool bool | JNumber number

text \<open>
  What the code takes from its runtime and from other hosts: \<^verbatim>\<open>parseInt\<close>,
  \<^verbatim>\<open>JSON.stringify\<close> (applied to the own properties of an object, in insertion order),
  the two embedding requests and the request to SAM.gov. Each of the last three is one
  \<^verbatim>\<open>fetch\<close> whose reply becomes the returned value or a thrown error.
\<close>

record env =
  parseInt :: "string \<Rightarrow> number"
  JSON_stringify :: "(string \<times> json_value) list \<Rightarrow> string"
  generateOpenAIEmbeddings :: "string \<Rightarrow> string \<Rightarrow> error + number list"
  generateHuggingFaceEmbeddings :: "string \<Rightarrow> string \<Rightarrow> error + number list"
  searchSAMOpportunities :: "SAMSearchFilters \<Rightarrow> string \<Rightarrow> error + opportunity list"

type_synonym embedding_cache = "string \<rightharpoonup> number list"

datatype cache_entry = CacheEntry (data: SAMSearchResponse) (stored: int)

record server =
  samRateLimitMap :: rate_map
  embeddingCache :: embedding_cache
  searchResultsCache :: "string \<rightharpoonup> cache_entry"

text \<open>The readings of \<^verbatim>\<open>Date.now()\<close> during one call of the handler, in program order.\<close>

record clock =
  now_limit :: int
  now_lookup :: int
  now_store :: int
  now_reply :: int

datatype reply_body =
  ErrorBody string
| DataBody (payload: SAMSearchResponse) (cached: bool) (reply_timestamp: int)

datatype reply = Reply (status: nat) (body: reply_body)

definition CACHE_DURATION :: int where
  "CACHE_DURATION = 5 * 60 * 1000"

subsection \<open>Embeddings and semantic ranking\<close>

definition generateEmbeddings ::
  "env \<Rightarrow> embedding_cache \<Rightarrow> string \<Rightarrow> string \<Rightarrow> string \<Rightarrow>
     (error + number list) \<times> embedding_cache" where
  "generateEmbeddings e cache text provider apiKey =
     (let cacheKey = provider @ '':'' @ text in
      case cache cacheKey of
        Some embeddings \<Rightarrow> (Inr embeddings, cache)
      | None \<Rightarrow>
          (case (if provider = ''openai'' then generateOpenAIEmbeddings e text apiKey
                 else if provider = ''huggingface'' then generateHuggingFaceEmbeddings e text apiKey
                 else Inl (Error (''Embedding provider '' @ provider @ '' not supported''))) of
             Inl err \<Rightarrow> (Inl err, cache)
           | Inr embeddings \<Rightarrow> (Inr embeddings, cache(cacheKey \<mapsto> embeddings))))"

text \<open>
  \<^verbatim>\<open>x || 0\<close> and \<^verbatim>\<open>x - y\<close> on numbers, and the test \<^verbatim>\<open>x > 0\<close>. The difference of two
  finite numbers is rounded like every other result.
\<close>

definition js_or_zero :: "number \<Rightarrow> number" where
  "js_or_zero x = (case x of NaN \<Rightarrow> Num 0 | _ \<Rightarrow> x)"

fun js_minus :: "number \<Rightarrow> number \<Rightarrow> number" where
  "js_minus (Num x) (Num y) = round_double (x - y)"
| "js_minus NaN _ = NaN"
| "js_minus _ NaN = NaN"
| "js_minus PosInfinity PosInfinity = NaN"
| "js_minus NegInfinity NegInfinity = NaN"
| "js_minus PosInfinity _ = PosInfinity"
| "js_minus NegInfinity _ = NegInfinity"
| "js_minus (Num x) PosInfinity = NegInfinity"
| "js_minus (Num x) NegInfinity = PosInfinity"

fun js_positive :: "number \<Rightarrow> bool" where
  "js_positive (Num x) = (x > 0)"
| "js_positive PosInfinity = True"
| "js_positive _ = False"

text \<open>
  The comparator of the ranking,
  \<^verbatim>\<open>(a, b) => (b.relevanceScore || 0) - (a.relevanceScore || 0)\<close>.
\<close>

definition compareRelevance :: "opportunity \<Rightarrow> opportunity \<Rightarrow> number" where
  "compareRelevance a b = js_minus (js_or_zero (relevanceScore b)) (js_or_zero (relevanceScore a))"

text \<open>
  \<^verbatim>\<open>Array.prototype.sort\<close> with a comparator: the stable sort, written as insertion from
  the right. An element moves behind another one only when the comparator's value for
  the pair is positive.
\<close>

fun insert_sorted :: "('a \<Rightarrow> 'a \<Rightarrow> number) \<Rightarrow> 'a \<Rightarrow> 'a list \<Rightarrow> 'a list" where
  "insert_sorted cmp x [] = [x]"
| "insert_sorted cmp x (y # ys) =
     (if js_positive (cmp x y) then y # insert_sorted cmp x ys else x # y # ys)"

definition array_sort :: "('a \<Rightarrow> 'a \<Rightarrow> number) \<Rightarrow> 'a list \<Rightarrow> 'a list" where
  "array_sort cmp xs = foldr (insert_sorted cmp) xs []"

text \<open>\<^verbatim>\<open>Promise.all\<close>: all values when every promise is fulfilled, a rejection otherwise.\<close>

fun promise_all :: "(error + 'a) list \<Rightarrow> error + 'a list" where
  "promise_all [] = Inr []"
| "promise_all (Inl err # rs) = Inl err"
| "promise_all (Inr v # rs) = (case promise_all rs of Inl err \<Rightarrow> Inl err | Inr vs \<Rightarrow> Inr (v # vs))"

definition opportunity_text :: "opportunity \<Rightarrow> string" where
  "opportunity_text opp = title opp @ '' '' @ description opp @ '' '' @ synopsis opp"

text \<open>
  The callback that \<^verbatim>\<open>performSemanticSearch\<close> maps over the opportunities. Every
  callback looks its text up in the embedding cache before any of their requests has
  been answered, so each one starts from the cache as it is after the query's embedding.
  The similarity is the one computed in doubles.
\<close>

definition score_opportunity ::
  "env \<Rightarrow> embedding_cache \<Rightarrow> number list \<Rightarrow> string \<Rightarrow> string \<Rightarrow> opportunity \<Rightarrow>
     (error + opportunity) \<times> embedding_cache" where
  "score_opportunity e cache queryEmbeddings provider apiKey opp =
     (case generateEmbeddings e cache (opportunity_text opp) provider apiKey of
        (Inl err, cache') \<Rightarrow> (Inl err, cache')
      | (Inr opportunityEmbeddings, cache') \<Rightarrow>
          (case cosineSimilarity_double queryEmbeddings opportunityEmbeddings of
             Inl err \<Rightarrow> (Inl err, cache')
           | Inr similarity \<Rightarrow> (Inr (opp\<lparr>relevanceScore := similarity\<rparr>), cache')))"

text \<open>
  \<^verbatim>\<open>performSemanticSearch\<close>. The result is the returned array and the embedding cache
  once every request has been answered. The \<^verbatim>\<open>catch\<close> block returns the array it was
  given.
\<close>

definition performSemanticSearch ::
  "env \<Rightarrow> embedding_cache \<Rightarrow> opportunity list \<Rightarrow> string \<Rightarrow> string \<Rightarrow> string \<Rightarrow>
     opportunity list \<times> embedding_cache" where
  "performSemanticSearch e cache opps query_text provider apiKey =
     (if trim query_text = [] then (opps, cache)
      else
        case generateEmbeddings e cache query_text provider apiKey of
          (Inl err, cache1) \<Rightarrow> (opps, cache1)
        | (Inr queryEmbeddings, cache1) \<Rightarrow>
            (let results = map (score_opportunity e cache1 queryEmbeddings provider apiKey) opps;
                 cache2 = foldl (++) cache1 (map snd results)
             in case promise_all (map fst results) of
                  Inl err \<Rightarrow> (opps, cache2)
                | Inr opportunitiesWithScores \<Rightarrow>
                    (take 25 (array_sort compareRelevance opportunitiesWithScores), cache2)))"

subsection \<open>The request handler of the search endpoint\<close>

text \<open>\<^verbatim>\<open>s.replace(pattern, replacement)\<close> with a string pattern: the first occurrence.\<close>

fun replace_first :: "string \<Rightarrow> string \<Rightarrow> string \<Rightarrow> string" where
  "replace_first pat rep [] = (if pat = [] then rep else [])"
| "replace_first pat rep (c # cs) =
     (if take (length pat) (c # cs) = pat then rep @ drop (length pat) (c # cs)
      else c # replace_first pat rep cs)"

definition number_or :: "number \<Rightarrow> number \<Rightarrow> number" where
  "number_or x d = (if x = NaN \<or> x = Num 0 then d else x)"

text \<open>The filter object of the handler, from the parsed query string.\<close>

definition build_filters :: "env \<Rightarrow> (string \<rightharpoonup> string) \<Rightarrow> SAMSearchFilters" where
  "build_filters e q =
     \<lparr>keyword = q ''q'',
      startDate = q ''startDate'',
      endDate = q ''endDate'',
      naicsCode = q ''naicsCode'',
      state = q ''state'',
      agency = q ''agency'',
      noticeType = q ''type'',
      setAside = q ''setAside'',
      active = (if truthy (q ''active'') then Some (q ''active'' = Some ''true'') else None),
      limit = (if truthy (q ''limit'') then parseInt e (the (q ''limit'')) else Num 50),
      offset = (if truthy (q ''offset'') then parseInt e (the (q ''offset'')) else Num 0)\<rparr>"

text \<open>
  The own properties of the filter object in the order of the object literal, without
  those whose value is \<^verbatim>\<open>undefined\<close> (\<^verbatim>\<open>JSON.stringify\<close> leaves them out).
\<close>

definition string_property :: "string \<Rightarrow> string option \<Rightarrow> (string \<times> json_value) list" where
  "string_property name v = (case v of None \<Rightarrow> [] | Some s \<Rightarrow> [(name, JString s)])"

definition filter_properties :: "SAMSearchFilters \<Rightarrow> (string \<times> json_value) list" where
  "filter_properties f =
     string_property ''keyword'' (keyword f) @
     string_property ''startDate'' (startDate f) @
     string_property ''endDate'' (endDate f) @
     string_property ''naicsCode'' (naicsCode f) @
     string_property ''state'' (state f) @
     string_property ''agency'' (agency f) @
     string_property ''type'' (noticeType f) @
     string_property ''setAside'' (setAside f) @
     (case active f of None \<Rightarrow> [] | Some b \<Rightarrow> [(''active'', JBool b)]) @
     [(''limit'', JNumber (limit f)), (''offset'', JNumber (offset f))]"

definition cache_key :: "env \<Rightarrow> SAMSearchFilters \<Rightarrow> string" where
  "cache_key e f = JSON_stringify e (filter_properties f)"

text \<open>
  The key for the embedding requests,
  \<^verbatim>\<open>req.headers.authorization?.replace('Bearer ', '')\<close>, and the provider, whose
  default \<^verbatim>\<open>'openai'\<close> stands in for a missing parameter only.
\<close>

definition llmApiKey :: "request \<Rightarrow> string option" where
  "llmApiKey req = map_option (replace_first ''Bearer '' []) (headers req ''authorization'')"

definition provider_of :: "(string \<rightharpoonup> string) \<Rightarrow> string" where
  "provider_of q = (case q ''provider'' of None \<Rightarrow> ''openai'' | Some p \<Rightarrow> p)"

text \<open>The test \<^verbatim>\<open>semantic === 'true' && keyword\<close>, and below it \<^verbatim>\<open>if (llmApiKey)\<close>.\<close>

definition wants_ranking :: "request \<Rightarrow> bool" where
  "wants_ranking req =
     (map_of (query req) ''semantic'' = Some ''true'' \<and> truthy (map_of (query req) ''q'') \<and>
      truthy (llmApiKey req))"

text \<open>
  The optional ranking step of the handler: the opportunities to return, and the
  embedding cache afterwards.
\<close>

definition final_opportunities ::
  "env \<Rightarrow> request \<Rightarrow> embedding_cache \<Rightarrow> opportunity list \<Rightarrow> opportunity list \<times> embedding_cache" where
  "final_opportunities e req cache opps =
     (if wants_ranking req
      then performSemanticSearch e cache opps (the (map_of (query req) ''q''))
             (provider_of (map_of (query req))) (the (llmApiKey req))
      else (opps, cache))"

text \<open>The response object; its \<^verbatim>\<open>facets\<close> are four empty arrays in every response.\<close>

definition build_response ::
  "SAMSearchFilters \<Rightarrow> opportunity list \<Rightarrow> opportunity list \<Rightarrow> SAMSearchResponse" where
  "build_response filters finalOpportunities opps =
     \<lparr>opportunities = finalOpportunities,
      totalRecords = length opps,
      response_limit = number_or (limit filters) (Num 50),
      response_offset = number_or (offset filters) (Num 0)\<rparr>"

text \<open>
  The part of the handler after the cache lookup has missed: the request to SAM.gov, the
  optional ranking, the response object, the cache entry and the reply.
\<close>

definition search_and_store ::
  "env \<Rightarrow> clock \<Rightarrow> request \<Rightarrow> SAMSearchFilters \<Rightarrow> string \<Rightarrow> server \<Rightarrow> reply \<times> server" where
  "search_and_store e clk req filters cacheKey st =
     (case searchSAMOpportunities e filters (the (map_of (query req) ''samApiKey'')) of
        Inl (Error message) \<Rightarrow> (Reply 500 (ErrorBody message), st)
      | Inr opps \<Rightarrow>
          (let (finalOpportunities, cache') = final_opportunities e req (embeddingCache st) opps;
               response = build_response filters finalOpportunities opps
           in (Reply 200 (DataBody response False (now_reply clk)),
               st\<lparr>embeddingCache := cache',
                  searchResultsCache :=
                    (searchResultsCache st)(cacheKey \<mapsto> CacheEntry response (now_store clk))\<rparr>)))"

text \<open>
  The handler: method check, rate limit, parameter check, cache lookup, and on a miss the
  search. A thrown error becomes the reply with status 500.
\<close>

definition handler :: "env \<Rightarrow> clock \<Rightarrow> request \<Rightarrow> server \<Rightarrow> reply \<times> server" where
  "handler e clk req st0 =
     (if http_method req \<noteq> ''GET'' then (Reply 405 (ErrorBody ''Method not allowed''), st0)
      else
        let (allowed, limiter) = checkSAMRateLimit req (now_limit clk) (samRateLimitMap st0);
            st = st0\<lparr>samRateLimitMap := limiter\<rparr>
        in if \<not> allowed
           then (Reply 429 (ErrorBody ''Rate limit exceeded. Please try again later.''), st)
           else
             let q = map_of (query req) in
             if \<not> truthy (q ''samApiKey'')
             then (Reply 400 (ErrorBody ''SAM API key is required''), st)
             else
               let filters = build_filters e q;
                   cacheKey = cache_key e filters
               in case searchResultsCache st cacheKey of
                    None \<Rightarrow> search_and_store e clk req filters cacheKey st
                  | Some cachedResult \<Rightarrow>
                      if now_lookup clk - stored cachedResult < CACHE_DURATION
                      then (Reply 200 (DataBody (data cachedResult) True (now_reply clk)), st)
                      else search_and_store e clk req filters cacheKey st)"

subsection \<open>Sorting with the comparator: proofs\<close>

lemma length_insert_sorted: "length (insert_sorted cmp x ys) = Suc (length ys)"
  by (induction ys) simp_all

lemma length_array_sort: "length (array_sort cmp xs) = length xs"
  by (induction xs) (simp_all add: array_sort_def length_insert_sorted)

lemma mset_insert_sorted: "mset (insert_sorted cmp x ys) = add_mset x (mset ys)"
  by (induction ys) simp_all

lemma mset_array_sort: "mset (array_sort cmp xs) = mset xs"
  by (induction xs) (simp_all add: array_sort_def mset_insert_sorted)

lemma set_insert_sorted: "set (insert_sorted cmp x ys) = insert x (set ys)"
  by (induction ys) auto

lemma set_array_sort: "set (array_sort cmp xs) = set xs"
  by (induction xs) (simp_all add: array_sort_def set_insert_sorted)

lemma mset_take_subseteq: "mset (take n xs) \<subseteq># mset xs"
proof -
  have "mset xs = mset (take n xs) + mset (drop n xs)"
    by (metis append_take_drop_id mset_append)
  then show ?thesis by simp
qed

text \<open>
  The order that a ranking by score is to have, stated on the scores and without the
  comparator: \<open>score_at_least x y\<close> when the score \<open>x\<close> is greater than or equal to the
  score \<open>y\<close>, where a score that is \<^verbatim>\<open>NaN\<close> counts as 0 (\<open>counted_score\<close>). A list of
  opportunities is in descending order of score when \<open>descending a b\<close> holds for every
  \<open>a\<close> that stands before a \<open>b\<close> in it.
\<close>

fun number_at_least :: "number \<Rightarrow> number \<Rightarrow> bool" where
  "number_at_least (Num x) (Num y) = (y \<le> x)"
| "number_at_least PosInfinity y = True"
| "number_at_least x NegInfinity = True"
| "number_at_least x y = False"

definition counted_score :: "number \<Rightarrow> number" where
  "counted_score s = (if s = NaN then Num 0 else s)"

definition score_at_least :: "number \<Rightarrow> number \<Rightarrow> bool" where
  "score_at_least x y = number_at_least (counted_score x) (counted_score y)"

definition descending :: "opportunity \<Rightarrow> opportunity \<Rightarrow> bool" where
  "descending a b = score_at_least (relevanceScore a) (relevanceScore b)"

text \<open>
  Every finite double is a multiple of \<open>2 ^ -1074\<close>, the smallest positive double, and so
  is every value that \<open>round_double\<close> returns. Two such values that differ have a
  difference of at least \<open>2 ^ -1074\<close>, which is not rounded to zero: the rounded
  difference of two doubles has the sign of the exact difference.
\<close>

definition double_grid :: "real \<Rightarrow> bool" where
  "double_grid x = (\<exists>m::int. x = of_int m * 2 powi (- 1074))"

fun grid_number :: "number \<Rightarrow> bool" where
  "grid_number (Num x) = double_grid x"
| "grid_number x = True"

lemma double_grid_0: "double_grid 0"
  unfolding double_grid_def by (rule exI [of _ 0]) simp

lemma double_grid_uminus: "double_grid x \<Longrightarrow> double_grid (- x)"
  unfolding double_grid_def
proof -
  assume "\<exists>m::int. x = of_int m * 2 powi (- 1074)"
  then obtain m :: int where "x = of_int m * 2 powi (- 1074)" by blast
  then have "- x = of_int (- m) * 2 powi (- 1074)" by simp
  then show "\<exists>m::int. - x = of_int m * 2 powi (- 1074)" by blast
qed

lemma double_grid_diff: "double_grid x \<Longrightarrow> double_grid y \<Longrightarrow> double_grid (x - y)"
  unfolding double_grid_def
proof -
  assume "\<exists>m::int. x = of_int m * 2 powi (- 1074)" and "\<exists>m::int. y = of_int m * 2 powi (- 1074)"
  then obtain m k :: int where "x = of_int m * 2 powi (- 1074)" "y = of_int k * 2 powi (- 1074)"
    by blast
  then have "x - y = of_int (m - k) * 2 powi (- 1074)"
    by (simp add: left_diff_distrib)
  then show "\<exists>m::int. x - y = of_int m * 2 powi (- 1074)" by blast
qed

lemma grid_number_negate: "grid_number x \<Longrightarrow> grid_number (js_negate x)"
  by (cases x) (simp_all add: double_grid_uminus)

lemma double_exponent_ge: "- 1022 \<le> double_exponent x"
  by (simp add: double_exponent_def)

lemma two_powi_grid:
  assumes "- 1074 \<le> k"
  shows "(2::real) powi k = 2 ^ nat (k + 1074) * 2 powi (- 1074)"
proof -
  have "(2::real) powi ((k + 1074) + (- 1074)) = 2 powi (k + 1074) * 2 powi (- 1074)"
    by (rule power_int_add) simp
  moreover from assms have "(2::real) powi (k + 1074) = 2 ^ nat (k + 1074)"
    by (simp add: power_int_def)
  ultimately show ?thesis by simp
qed

lemma grid_number_round_double: "grid_number (round_double x)"
proof (cases "round_double x")
  case (Num r)
  show ?thesis
  proof (cases "x = 0")
    case True
    then show ?thesis by (simp add: round_double_def double_grid_0)
  next
    case False
    define k where "k = double_exponent x - 52"
    define m where "m = round_half_even (x / 2 powi k)"
    from False Num have r: "r = of_int m * 2 powi k"
      by (simp add: round_double_def Let_def k_def m_def split: if_splits)
    have "- 1074 \<le> k"
      using double_exponent_ge [of x] by (simp add: k_def)
    from two_powi_grid [OF this] r
    have "r = of_int (m * 2 ^ nat (k + 1074)) * 2 powi (- 1074)"
      by simp
    then have "double_grid r"
      unfolding double_grid_def by blast
    with Num show ?thesis by simp
  qed
qed simp_all

text \<open>The sign of a rounded value.\<close>

lemma round_half_even_nonneg: "0 \<le> y \<Longrightarrow> 0 \<le> round_half_even y"
  using round_half_even_near [of y] by linarith

lemma round_half_even_pos: "1 \<le> y \<Longrightarrow> 0 < round_half_even y"
  using round_half_even_near [of y] by linarith

lemma round_double_nonneg:
  assumes "0 \<le> x"
  shows "round_double x = PosInfinity \<or> (\<exists>r. round_double x = Num r \<and> 0 \<le> r)"
proof (cases "x = 0")
  case True
  then show ?thesis by (simp add: round_double_def)
next
  case False
  define q where "q = (2::real) powi (double_exponent x - 52)"
  have q: "0 < q" by (simp add: q_def two_powi_pos)
  with assms have "0 \<le> x / q" by simp
  then have "0 \<le> round_half_even (x / q)" by (rule round_half_even_nonneg)
  with q have "0 \<le> of_int (round_half_even (x / q)) * q" by simp
  with False show ?thesis
    by (auto simp: round_double_def Let_def q_def [symmetric])
qed

lemma round_double_not_positive:
  assumes "x \<le> 0"
  shows "\<not> js_positive (round_double x)"
proof -
  from assms have "0 \<le> - x" by simp
  from round_double_nonneg [OF this] have "\<not> js_positive (js_negate (round_double (- x)))"
    by auto
  then show ?thesis
    by (simp add: round_double_uminus js_negate_negate)
qed

lemma quotient_of_multiple: "0 < q \<Longrightarrow> x = m * q \<Longrightarrow> x / q = m" for q x m :: real
  by simp

lemma round_double_positive:
  assumes "0 < x" and "double_grid x"
  shows "js_positive (round_double x)"
proof -
  define e where "e = double_exponent x"
  define q where "q = (2::real) powi (e - 52)"
  have q: "0 < q" by (simp add: q_def two_powi_pos)
  from assms(1) have nz: "x \<noteq> 0" by simp
  have "1 \<le> x / q"
  proof (cases "\<lfloor>log 2 \<bar>x\<bar>\<rfloor> \<le> - 1022")
    case True
    then have "e = - 1022" by (simp add: e_def double_exponent_def)
    then have qu: "q = 2 powi (- 1074)" by (simp add: q_def)
    from assms(2) obtain m :: int where m: "x = of_int m * 2 powi (- 1074)"
      unfolding double_grid_def by blast
    with assms(1) two_powi_pos [of "- 1074"] have "0 < (of_int m :: real)"
      by (simp add: zero_less_mult_iff)
    then have "1 \<le> (of_int m :: real)" by simp
    moreover from m qu have "x = of_int m * q" by (simp only:)
    with q have "x / q = of_int m" by (rule quotient_of_multiple)
    ultimately show ?thesis by simp
  next
    case False
    then have "e = \<lfloor>log 2 \<bar>x\<bar>\<rfloor>" by (simp add: e_def double_exponent_def)
    with floor_log2_bounds(1) [OF nz] assms(1) have "2 powi e \<le> x" by simp
    moreover have "q \<le> 2 powi e"
      unfolding q_def by (intro power_int_increasing) simp_all
    ultimately have "q \<le> x" by linarith
    with q show ?thesis by simp
  qed
  then have "0 < round_half_even (x / q)" by (rule round_half_even_pos)
  with q have "0 < of_int (round_half_even (x / q)) * q" by simp
  with nz show ?thesis
    by (auto simp: round_double_def Let_def q_def [symmetric] e_def [symmetric])
qed

lemma js_positive_round_double_diff:
  assumes "double_grid x" and "double_grid y"
  shows "js_positive (round_double (x - y)) \<longleftrightarrow> y < x"
proof (cases "y < x")
  case True
  then have "0 < x - y" by simp
  from round_double_positive [OF this double_grid_diff [OF assms]] True show ?thesis by simp
next
  case False
  then have "x - y \<le> 0" by simp
  from round_double_not_positive [OF this] False show ?thesis by simp
qed

text \<open>
  On scores that are doubles, the comparator asks for \<open>a\<close> to be moved behind \<open>b\<close> exactly
  when the score of \<open>b\<close> is the greater one.
\<close>

lemma grid_number_js_or_zero: "grid_number s \<Longrightarrow> grid_number (js_or_zero s)"
  by (cases s) (simp_all add: js_or_zero_def double_grid_0)

lemma js_or_zero_counted: "js_or_zero s = counted_score s"
  by (cases s) (simp_all add: js_or_zero_def counted_score_def)

lemma compareRelevance_positive_iff:
  assumes "grid_number (relevanceScore a)" and "grid_number (relevanceScore b)"
  shows "js_positive (compareRelevance a b) \<longleftrightarrow>
    \<not> score_at_least (relevanceScore a) (relevanceScore b)"
proof -
  from assms have "grid_number (js_or_zero (relevanceScore a))"
    and "grid_number (js_or_zero (relevanceScore b))"
    by (simp_all add: grid_number_js_or_zero)
  moreover have "js_or_zero (relevanceScore a) \<noteq> NaN" "js_or_zero (relevanceScore b) \<noteq> NaN"
    by (simp_all add: js_or_zero_def split: number.splits)
  ultimately show ?thesis
    unfolding compareRelevance_def score_at_least_def js_or_zero_counted [symmetric]
    by (cases "js_or_zero (relevanceScore a)"; cases "js_or_zero (relevanceScore b)")
      (simp_all add: js_positive_round_double_diff not_le)
qed

lemma score_at_least_total: "\<not> score_at_least x y \<Longrightarrow> score_at_least y x"
  unfolding score_at_least_def counted_score_def
  by (cases x; cases y) (simp_all split: if_splits)

lemma score_at_least_trans: "score_at_least x y \<Longrightarrow> score_at_least y z \<Longrightarrow> score_at_least x z"
  unfolding score_at_least_def counted_score_def
  by (cases x; cases y; cases z) (simp_all split: if_splits)

lemma sorted_insert_sorted:
  assumes "sorted_wrt descending ys"
    and "grid_number (relevanceScore x)" and "\<forall>y\<in>set ys. grid_number (relevanceScore y)"
  shows "sorted_wrt descending (insert_sorted compareRelevance x ys)"
  using assms
proof (induction ys)
  case Nil
  then show ?case by simp
next
  case (Cons y ys)
  from Cons.prems have gy: "grid_number (relevanceScore y)" by simp
  show ?case
  proof (cases "js_positive (compareRelevance x y)")
    case True
    with compareRelevance_positive_iff [OF Cons.prems(2) gy]
    have "descending y x"
      by (simp add: descending_def score_at_least_total)
    with True Cons show ?thesis
      by (auto simp: set_insert_sorted)
  next
    case False
    with compareRelevance_positive_iff [OF Cons.prems(2) gy]
    have "descending x y"
      by (simp add: descending_def)
    with False Cons.prems(1) show ?thesis
      by (auto simp: descending_def intro: score_at_least_trans)
  qed
qed

lemma sorted_array_sort:
  assumes "\<forall>x\<in>set xs. grid_number (relevanceScore x)"
  shows "sorted_wrt descending (array_sort compareRelevance xs)"
  using assms
proof (induction xs)
  case Nil
  then show ?case by (simp add: array_sort_def)
next
  case (Cons x xs)
  then have "sorted_wrt descending (array_sort compareRelevance xs)" by simp
  moreover from Cons.prems have "grid_number (relevanceScore x)"
    and "\<forall>y\<in>set (array_sort compareRelevance xs). grid_number (relevanceScore y)"
    by (simp_all add: set_array_sort)
  ultimately have "sorted_wrt descending
      (insert_sorted compareRelevance x (array_sort compareRelevance xs))"
    by (rule sorted_insert_sorted)
  then show ?case by (simp add: array_sort_def)
qed

text \<open>The sort is stable: opportunities of one counted score keep their order.\<close>

lemma compareRelevance_same_score:
  assumes "counted_score (relevanceScore a) = counted_score (relevanceScore b)"
  shows "\<not> js_positive (compareRelevance a b)"
proof -
  from assms have "js_or_zero (relevanceScore b) = js_or_zero (relevanceScore a)"
    by (simp add: js_or_zero_counted)
  then show ?thesis
    unfolding compareRelevance_def
    by (cases "js_or_zero (relevanceScore a)") (simp_all add: round_double_def)
qed

lemma filter_insert_sorted:
  assumes "\<forall>y\<in>set ys. P x \<and> P y \<longrightarrow> \<not> js_positive (cmp x y)"
  shows "filter P (insert_sorted cmp x ys) = filter P (x # ys)"
  using assms by (induction ys) auto

lemma filter_array_sort:
  assumes "\<forall>x\<in>set xs. \<forall>y\<in>set xs. P x \<and> P y \<longrightarrow> \<not> js_positive (cmp x y)"
  shows "filter P (array_sort cmp xs) = filter P xs"
  using assms
proof (induction xs)
  case Nil
  then show ?case by (simp add: array_sort_def)
next
  case (Cons x xs)
  then have ih: "filter P (array_sort cmp xs) = filter P xs" by simp
  from Cons.prems have "\<forall>y\<in>set (array_sort cmp xs). P x \<and> P y \<longrightarrow> \<not> js_positive (cmp x y)"
    by (simp add: set_array_sort)
  then have "filter P (insert_sorted cmp x (array_sort cmp xs)) = filter P (x # array_sort cmp xs)"
    by (rule filter_insert_sorted)
  with ih show ?case
    by (simp add: array_sort_def)
qed

lemma array_sort_stable:
  "filter (\<lambda>a. counted_score (relevanceScore a) = s) (array_sort compareRelevance xs) =
   filter (\<lambda>a. counted_score (relevanceScore a) = s) xs"
  by (rule filter_array_sort) (simp add: compareRelevance_same_score)

lemma grid_number_cosineSimilarity_double:
  assumes "cosineSimilarity_double a b = Inr s"
  shows "grid_number s"
proof -
  obtain d na nb where "cosine_loop_double a b (Num 0, Num 0, Num 0) = (d, na, nb)"
    by (cases "cosine_loop_double a b (Num 0, Num 0, Num 0)") auto
  with assms have s: "s = js_divide d (js_mul (js_sqrt na) (js_sqrt nb))"
    by (auto simp: cosineSimilarity_double_def split: if_splits)
  have "grid_number (js_divide x y)" for x y
    by (cases x; cases y) (simp_all add: grid_number_round_double double_grid_0)
  with s show ?thesis by simp
qed

subsection \<open>Semantic ranking: proofs\<close>

lemma promise_all_map_Inr: "promise_all (map Inr vs) = Inr vs"
  by (induction vs) simp_all

lemma promise_all_Inr_D: "promise_all rs = Inr vs \<Longrightarrow> rs = map Inr vs"
proof (induction rs arbitrary: vs)
  case Nil
  then show ?case by simp
next
  case (Cons r rs)
  show ?case
  proof (cases r)
    case (Inl err)
    with Cons.prems show ?thesis by simp
  next
    case (Inr v)
    with Cons.prems obtain vs' where "promise_all rs = Inr vs'" and "vs = v # vs'"
      by (auto split: sum.splits)
    with Cons.IH [of vs'] Inr show ?thesis by simp
  qed
qed

lemma promise_all_Inl:
  assumes "Inl err \<in> set rs"
  shows "\<exists>err'. promise_all rs = Inl err'"
  using assms
proof (induction rs rule: promise_all.induct)
  case 1
  then show ?case by simp
next
  case (2 err rs)
  then show ?case by simp
next
  case (3 v rs)
  then show ?case by (auto split: sum.splits)
qed

lemma map2_same_map: "map2 g xs (map f xs) = map (\<lambda>x. g x (f x)) xs"
  by (induction xs) simp_all

lemma ranking_of_scored:
  assumes nonblank: "trim query_text \<noteq> []"
    and query: "generateEmbeddings e cache query_text provider apiKey = (Inr queryEmbeddings, cache1)"
    and scored: "map fst (map (score_opportunity e cache1 queryEmbeddings provider apiKey) opps) =
        map Inr withScores"
  shows "fst (performSemanticSearch e cache opps query_text provider apiKey) =
           take 25 (array_sort compareRelevance withScores)"
proof -
  from scored
  have "promise_all (map fst (map (score_opportunity e cache1 queryEmbeddings provider apiKey) opps)) =
      Inr withScores"
    by (simp only: promise_all_map_Inr)
  with nonblank query show ?thesis
    by (simp add: performSemanticSearch_def Let_def)
qed

lemma score_opportunity_success:
  assumes "fst (generateEmbeddings e cache1 (opportunity_text opp) provider apiKey) = Inr emb"
    and "cosineSimilarity_double queryEmbeddings emb = Inr s"
  shows "fst (score_opportunity e cache1 queryEmbeddings provider apiKey opp) =
           Inr (opp\<lparr>relevanceScore := s\<rparr>)"
  using assms by (auto simp: score_opportunity_def split: prod.splits sum.splits)

lemma score_opportunity_failure:
  assumes "fst (generateEmbeddings e cache1 (opportunity_text opp) provider apiKey) = Inl err"
  shows "fst (score_opportunity e cache1 queryEmbeddings provider apiKey opp) = Inl err"
  using assms by (auto simp: score_opportunity_def split: prod.splits sum.splits)

lemma ranking_falls_back:
  assumes "fst (generateEmbeddings e cache query_text provider apiKey) = Inl err \<or>
      (\<exists>opp\<in>set opps.
         fst (generateEmbeddings e (snd (generateEmbeddings e cache query_text provider apiKey))
                (opportunity_text opp) provider apiKey) = Inl err)"
  shows "fst (performSemanticSearch e cache opps query_text provider apiKey) = opps"
proof (cases "generateEmbeddings e cache query_text provider apiKey")
  case (Pair r cache1)
  show ?thesis
  proof (cases r)
    case (Inl err')
    with Pair show ?thesis
      by (simp add: performSemanticSearch_def)
  next
    case (Inr queryEmbeddings)
    with assms Pair obtain opp where opp: "opp \<in> set opps"
      and fails: "fst (generateEmbeddings e cache1 (opportunity_text opp) provider apiKey) = Inl err"
      by auto
    from fails have "fst (score_opportunity e cache1 queryEmbeddings provider apiKey opp) = Inl err"
      by (rule score_opportunity_failure)
    with opp
    have "Inl err \<in> set (map fst (map (score_opportunity e cache1 queryEmbeddings provider apiKey) opps))"
      by force
    then obtain err' where
      "promise_all (map fst (map (score_opportunity e cache1 queryEmbeddings provider apiKey) opps)) =
         Inl err'"
      using promise_all_Inl by blast
    with Pair Inr show ?thesis
      by (simp add: performSemanticSearch_def Let_def)
  qed
qed

subsection \<open>The handler: proofs\<close>

text \<open>
  The request gets past the method check, the rate limiter and the parameter check; and
  the cache holds no entry for its key that is younger than the cache duration.
\<close>

definition passes_checks :: "clock \<Rightarrow> request \<Rightarrow> server \<Rightarrow> bool" where
  "passes_checks clk req st =
     (http_method req = ''GET'' \<and>
      fst (checkSAMRateLimit req (now_limit clk) (samRateLimitMap st)) \<and>
      truthy (map_of (query req) ''samApiKey''))"

definition request_key :: "env \<Rightarrow> request \<Rightarrow> string" where
  "request_key e req = cache_key e (build_filters e (map_of (query req)))"

definition cache_miss :: "env \<Rightarrow> clock \<Rightarrow> request \<Rightarrow> server \<Rightarrow> bool" where
  "cache_miss e clk req st =
     (case searchResultsCache st (request_key e req) of
        None \<Rightarrow> True
      | Some cachedResult \<Rightarrow> \<not> now_lookup clk - stored cachedResult < CACHE_DURATION)"

definition after_limiter :: "clock \<Rightarrow> request \<Rightarrow> server \<Rightarrow> server" where
  "after_limiter clk req st =
     st\<lparr>samRateLimitMap := snd (checkSAMRateLimit req (now_limit clk) (samRateLimitMap st))\<rparr>"

lemma handler_miss:
  assumes "passes_checks clk req st" and "cache_miss e clk req st"
  shows "handler e clk req st =
           search_and_store e clk req (build_filters e (map_of (query req))) (request_key e req)
             (after_limiter clk req st)"
  using assms
  by (auto simp: handler_def passes_checks_def cache_miss_def request_key_def after_limiter_def
      Let_def split_beta split: option.splits)

lemma handler_hit:
  assumes "passes_checks clk req st"
    and "searchResultsCache st (request_key e req) = Some cachedResult"
    and "now_lookup clk - stored cachedResult < CACHE_DURATION"
  shows "handler e clk req st =
           (Reply 200 (DataBody (data cachedResult) True (now_reply clk)), after_limiter clk req st)"
  using assms
  by (auto simp: handler_def passes_checks_def request_key_def after_limiter_def
      Let_def split_beta split: option.splits)

lemma search_and_store_success:
  assumes "searchSAMOpportunities e filters (the (map_of (query req) ''samApiKey'')) = Inr opps"
  shows "search_and_store e clk req filters cacheKey st =
     (Reply 200 (DataBody
        (build_response filters (fst (final_opportunities e req (embeddingCache st) opps)) opps)
        False (now_reply clk)),
      st\<lparr>embeddingCache := snd (final_opportunities e req (embeddingCache st) opps),
         searchResultsCache := (searchResultsCache st)(cacheKey \<mapsto>
           CacheEntry
             (build_response filters (fst (final_opportunities e req (embeddingCache st) opps)) opps)
             (now_store clk))\<rparr>)"
  using assms by (simp add: search_and_store_def Let_def split_beta)

lemma query_order_irrelevant:
  assumes "distinct (map fst xs)" and "mset xs = mset ys"
  shows "map_of xs = map_of ys"
proof -
  from assms(2) have "mset (map fst xs) = mset (map fst ys)"
    by (metis mset_map)
  then have "distinct (map fst xs) = distinct (map fst ys)"
    by (rule mset_eq_imp_distinct_iff)
  with assms(1) have "distinct (map fst ys)"
    by simp
  moreover from assms(2) have "set xs = set ys"
    by (rule mset_eq_setD)
  ultimately show ?thesis
    using assms(1) by (simp add: map_of_inject_set)
qed

subsection \<open>An example deployment\<close>

text \<open>
  Five opportunities, an embedding service that knows the texts of four of them and two
  queries and fails on every other text, and a SAM.gov that returns the first two
  opportunities for every search.
\<close>

definition example_paper :: opportunity where
  "example_paper =
     \<lparr>noticeId = ''N-1'', title = ''Paper'', description = ''clips'', synopsis = ''bulk'',
      relevanceScore = Num 0\<rparr>"

definition example_drone :: opportunity where
  "example_drone =
     \<lparr>noticeId = ''N-2'', title = ''Drone'', description = ''parts'', synopsis = ''small'',
      relevanceScore = Num 0\<rparr>"

definition example_broken :: opportunity where
  "example_broken =
     \<lparr>noticeId = ''N-3'', title = ''Broken'', description = ''text'', synopsis = ''here'',
      relevanceScore = Num 0\<rparr>"

definition example_blades :: opportunity where
  "example_blades =
     \<lparr>noticeId = ''N-4'', title = ''Rotor'', description = ''blades'', synopsis = ''spare'',
      relevanceScore = Num 0\<rparr>"

definition example_hub :: opportunity where
  "example_hub =
     \<lparr>noticeId = ''N-5'', title = ''Rotor'', description = ''hub'', synopsis = ''large'',
      relevanceScore = Num 0\<rparr>"

definition example_embeddings :: "string \<Rightarrow> string \<Rightarrow> error + number list" where
  "example_embeddings text apiKey =
     (if text = ''drone'' then Inr [Num 1, Num 0]
      else if text = ''Drone parts small'' then Inr [Num 1, Num 0]
      else if text = ''Paper clips bulk'' then Inr [Num (- 1), Num 0]
      else if text = ''rotor'' then Inr [Num 1, Num 1]
      else if text = ''Rotor blades spare'' then Inr [Num 1, Num 1]
      else if text = ''Rotor hub large'' then Inr [Num 3, Num 3]
      else Inl (Error ''OpenAI Embeddings API error: Too Many Requests''))"

definition example_stringify :: "(string \<times> json_value) list \<Rightarrow> string" where
  "example_stringify ps =
     concat (map (\<lambda>(name, v). name @ '':'' @
       (case v of JString s \<Rightarrow> s | JBool b \<Rightarrow> (if b then ''true'' else ''false'') | JNumber n \<Rightarrow> ''n'') @
       '','') ps)"

definition example_env :: env where
  "example_env =
     \<lparr>parseInt = (\<lambda>s. NaN),
      JSON_stringify = example_stringify,
      generateOpenAIEmbeddings = example_embeddings,
      generateHuggingFaceEmbeddings = (\<lambda>text apiKey. Inl (Error ''Hugging Face Embeddings API error: down'')),
      searchSAMOpportunities = (\<lambda>filters apiKey. Inr [example_paper, example_drone])\<rparr>"

definition example_search_request :: request where
  "example_search_request =
     \<lparr>http_method = ''GET'',
      headers = [''x-forwarded-for'' \<mapsto> ''10.0.0.1'', ''authorization'' \<mapsto> ''Bearer llm-key''],
      remoteAddress = None,
      query = [(''q'', ''drone''), (''semantic'', ''true''), (''samApiKey'', ''sam-key'')]\<rparr>"

definition example_search_request_reordered :: request where
  "example_search_request_reordered =
     \<lparr>http_method = ''GET'',
      headers = [''x-forwarded-for'' \<mapsto> ''10.0.0.1''],
      remoteAddress = None,
      query = [(''samApiKey'', ''sam-key''), (''semantic'', ''true''), (''q'', ''drone'')]\<rparr>"

definition example_server :: server where
  "example_server =
     \<lparr>samRateLimitMap = Map.empty, embeddingCache = Map.empty, searchResultsCache = Map.empty\<rparr>"

definition example_clock :: clock where
  "example_clock = \<lparr>now_limit = 1000, now_lookup = 1001, now_store = 1500, now_reply = 1501\<rparr>"

definition example_clock_later :: clock where
  "example_clock_later = \<lparr>now_limit = 9000, now_lookup = 9001, now_store = 9500, now_reply = 9501\<rparr>"

lemma example_texts:
  "opportunity_text example_paper = ''Paper clips bulk''"
  "opportunity_text example_drone = ''Drone parts small''"
  "opportunity_text example_broken = ''Broken text here''"
  "opportunity_text example_blades = ''Rotor blades spare''"
  "opportunity_text example_hub = ''Rotor hub large''"
  by (simp_all add: opportunity_text_def example_paper_def example_drone_def example_broken_def
      example_blades_def example_hub_def)

lemma example_trim: "trim ''drone'' \<noteq> []" "trim ''rotor'' \<noteq> []"
  by (simp_all add: trim_def is_space_def)

lemma example_query_embedding:
  "generateEmbeddings example_env Map.empty ''drone'' ''openai'' k =
     (Inr [Num 1, Num 0], [''openai:drone'' \<mapsto> [Num 1, Num 0]])"
  by (simp add: generateEmbeddings_def example_env_def example_embeddings_def)

text \<open>
  The similarities of the example, in doubles: here every intermediate result is 0, 1 or
  -1 and no rounding takes place.
\<close>

lemma example_similarities:
  "cosineSimilarity_double [Num 1, Num 0] [Num 1, Num 0] = Inr (Num 1)"
  "cosineSimilarity_double [Num 1, Num 0] [Num (- 1), Num 0] = Inr (Num (- 1))"
  by (simp_all add: cosineSimilarity_double_def round_double_0 round_double_small_numbers)

lemma example_scores:
  "fst (score_opportunity example_env [''openai:drone'' \<mapsto> [Num 1, Num 0]] [Num 1, Num 0]
         ''openai'' k example_paper) =
     Inr (example_paper\<lparr>relevanceScore := Num (- 1)\<rparr>)"
  "fst (score_opportunity example_env [''openai:drone'' \<mapsto> [Num 1, Num 0]] [Num 1, Num 0]
         ''openai'' k example_drone) =
     Inr (example_drone\<lparr>relevanceScore := Num 1\<rparr>)"
  "fst (score_opportunity example_env [''openai:drone'' \<mapsto> [Num 1, Num 0]] [Num 1, Num 0]
         ''openai'' k example_broken) =
     Inl (Error ''OpenAI Embeddings API error: Too Many Requests'')"
  by (simp_all add: score_opportunity_def generateEmbeddings_def example_texts example_env_def
      example_embeddings_def example_similarities)

lemma example_ranking:
  "fst (performSemanticSearch example_env Map.empty [example_paper, example_drone] ''drone'' ''openai'' k) =
     [example_drone\<lparr>relevanceScore := Num 1\<rparr>, example_paper\<lparr>relevanceScore := Num (- 1)\<rparr>]"
proof -
  have "fst (performSemanticSearch example_env Map.empty [example_paper, example_drone] ''drone'' ''openai'' k) =
      take 25 (array_sort compareRelevance
        [example_paper\<lparr>relevanceScore := Num (- 1)\<rparr>, example_drone\<lparr>relevanceScore := Num 1\<rparr>])"
    by (rule ranking_of_scored [OF example_trim(1) example_query_embedding])
      (simp add: example_scores)
  then show ?thesis
    by (simp add: array_sort_def compareRelevance_def js_or_zero_def round_double_small_numbers)
qed

text \<open>
  The query \<^verbatim>\<open>rotor\<close> has the embedding \<open>[1, 1]\<close>, the blades notice the embedding
  \<open>[1, 1]\<close> and the hub notice the embedding \<open>[3, 3]\<close>. In doubles the blades notice
  gets the score \<open>1 - 2 ^ -52\<close> and the hub notice the score 1, so the hub notice is
  ranked first.
\<close>

lemma example_rotor_query_embedding:
  "generateEmbeddings example_env Map.empty ''rotor'' ''openai'' k =
     (Inr [Num 1, Num 1], [''openai:rotor'' \<mapsto> [Num 1, Num 1]])"
  by (simp add: generateEmbeddings_def example_env_def example_embeddings_def)

lemma example_rotor_embeddings:
  "fst (generateEmbeddings example_env [''openai:rotor'' \<mapsto> [Num 1, Num 1]]
         (opportunity_text example_blades) ''openai'' k) = Inr [Num 1, Num 1]"
  "fst (generateEmbeddings example_env [''openai:rotor'' \<mapsto> [Num 1, Num 1]]
         (opportunity_text example_hub) ''openai'' k) = Inr [Num 3, Num 3]"
  by (simp_all add: generateEmbeddings_def example_texts example_env_def example_embeddings_def)

lemma example_rotor_scores:
  "fst (score_opportunity example_env [''openai:rotor'' \<mapsto> [Num 1, Num 1]] [Num 1, Num 1]
         ''openai'' k example_blades) =
     Inr (example_blades\<lparr>relevanceScore := Num (1 - 1 / 2 ^ 52)\<rparr>)"
  "fst (score_opportunity example_env [''openai:rotor'' \<mapsto> [Num 1, Num 1]] [Num 1, Num 1]
         ''openai'' k example_hub) =
     Inr (example_hub\<lparr>relevanceScore := Num 1\<rparr>)"
  by (rule score_opportunity_success [OF example_rotor_embeddings(1) cosineSimilarity_double_1_1_self],
      rule score_opportunity_success [OF example_rotor_embeddings(2) cosineSimilarity_double_1_1_3_3])

lemma example_rotor_comparison:
  "js_positive (compareRelevance (example_blades\<lparr>relevanceScore := Num (1 - 1 / 2 ^ 52)\<rparr>)
     (example_hub\<lparr>relevanceScore := Num 1\<rparr>))"
proof -
  have "grid_number (Num (1 - 1 / 2 ^ 52))"
    by (rule grid_number_cosineSimilarity_double [OF cosineSimilarity_double_1_1_self])
  moreover have "grid_number (Num 1)"
    by (rule grid_number_cosineSimilarity_double [OF cosineSimilarity_double_1_1_3_3])
  ultimately show ?thesis
    using compareRelevance_positive_iff [of "example_blades\<lparr>relevanceScore := Num (1 - 1 / 2 ^ 52)\<rparr>"
        "example_hub\<lparr>relevanceScore := Num 1\<rparr>"]
    by (simp add: score_at_least_def counted_score_def)
qed

lemma example_rotor_ranking:
  "fst (performSemanticSearch example_env Map.empty [example_blades, example_hub]
         ''rotor'' ''openai'' k) =
     [example_hub\<lparr>relevanceScore := Num 1\<rparr>,
      example_blades\<lparr>relevanceScore := Num (1 - 1 / 2 ^ 52)\<rparr>]"
proof -
  have "fst (performSemanticSearch example_env Map.empty [example_blades, example_hub]
         ''rotor'' ''openai'' k) =
      take 25 (array_sort compareRelevance
        [example_blades\<lparr>relevanceScore := Num (1 - 1 / 2 ^ 52)\<rparr>,
         example_hub\<lparr>relevanceScore := Num 1\<rparr>])"
    by (rule ranking_of_scored [OF example_trim(2) example_rotor_query_embedding])
      (simp only: list.map example_rotor_scores)
  then show ?thesis
    using example_rotor_comparison by (simp add: array_sort_def)
qed

definition example_huggingface_request :: request where
  "example_huggingface_request =
     \<lparr>http_method = ''GET'',
      headers = [''x-forwarded-for'' \<mapsto> ''10.0.0.1'', ''authorization'' \<mapsto> ''Bearer llm-key''],
      remoteAddress = None,
      query = [(''q'', ''drone''), (''semantic'', ''true''), (''provider'', ''huggingface''),
               (''samApiKey'', ''sam-key'')]\<rparr>"

lemma example_requests_pass:
  "passes_checks example_clock example_search_request example_server"
  "passes_checks example_clock example_huggingface_request example_server"
  by (simp_all add: passes_checks_def example_search_request_def example_huggingface_request_def
      example_server_def checkSAMRateLimit_def truthy_def)

lemma example_requests_distinct:
  "distinct (map fst (query example_search_request))"
  "distinct (map fst (query example_huggingface_request))"
  by (simp_all add: example_search_request_def example_huggingface_request_def)

lemma example_requests_miss:
  "cache_miss e example_clock req example_server"
  by (simp add: cache_miss_def example_server_def)

lemma example_requests_want_ranking:
  "wants_ranking example_search_request" "wants_ranking example_huggingface_request"
  by (simp_all add: wants_ranking_def llmApiKey_def truthy_def example_search_request_def
      example_huggingface_request_def)

lemma example_request_parameters:
  "map_of (query example_search_request) ''q'' = Some ''drone''"
  "map_of (query example_search_request) ''samApiKey'' = Some ''sam-key''"
  "provider_of (map_of (query example_search_request)) = ''openai''"
  "llmApiKey example_search_request = Some ''llm-key''"
  "map_of (query example_huggingface_request) ''q'' = Some ''drone''"
  "map_of (query example_huggingface_request) ''samApiKey'' = Some ''sam-key''"
  "provider_of (map_of (query example_huggingface_request)) = ''huggingface''"
  "llmApiKey example_huggingface_request = Some ''llm-key''"
  by (simp_all add: provider_of_def llmApiKey_def example_search_request_def
      example_huggingface_request_def)

lemma example_upstream: "searchSAMOpportunities example_env f k = Inr [example_paper, example_drone]"
  by (simp add: example_env_def)

subsection \<open>Claims about the semantic ranking\<close>

text \<open>
  An embedding call of the ranking fails: the one for the query, or the one for the text
  of some opportunity.
\<close>

definition some_embedding_fails ::
  "env \<Rightarrow> embedding_cache \<Rightarrow> opportunity list \<Rightarrow> string \<Rightarrow> string \<Rightarrow> string \<Rightarrow> bool" where
  "some_embedding_fails e cache opps query_text provider apiKey =
     (isl (fst (generateEmbeddings e cache query_text provider apiKey)) \<or>
      (\<exists>opp\<in>set opps.
         isl (fst (generateEmbeddings e (snd (generateEmbeddings e cache query_text provider apiKey))
                (opportunity_text opp) provider apiKey))))"

lemma some_embedding_fails_falls_back:
  assumes "some_embedding_fails e cache opps query_text provider apiKey"
  shows "fst (performSemanticSearch e cache opps query_text provider apiKey) = opps"
proof -
  from assms obtain err where
    "fst (generateEmbeddings e cache query_text provider apiKey) = Inl err \<or>
      (\<exists>opp\<in>set opps.
         fst (generateEmbeddings e (snd (generateEmbeddings e cache query_text provider apiKey))
                (opportunity_text opp) provider apiKey) = Inl err)"
    unfolding some_embedding_fails_def by (auto simp: isl_def)
  then show ?thesis
    by (rule ranking_falls_back)
qed

text \<open>
  Claim C6. When an embedding call fails during the ranking, for the query or for any
  opportunity, \<^verbatim>\<open>performSemanticSearch\<close> returns the array it was given; and a search
  request that asks for ranking, with each parameter given once, then gets the reply
  with status 200 whose opportunities are the list that SAM.gov returned, in its order,
  not an error.
\<close>

theorem embedding_failure_returns_unranked:
  "(some_embedding_fails e cache opps query_text provider apiKey \<longrightarrow>
      fst (performSemanticSearch e cache opps query_text provider apiKey) = opps) \<and>
   (distinct (map fst (query req)) \<and>
    passes_checks clk req st \<and> cache_miss e clk req st \<and>
    searchSAMOpportunities e (build_filters e (map_of (query req)))
      (the (map_of (query req) ''samApiKey'')) = Inr opps \<and>
    wants_ranking req \<and>
    some_embedding_fails e (embeddingCache st) opps (the (map_of (query req) ''q''))
      (provider_of (map_of (query req))) (the (llmApiKey req)) \<longrightarrow>
      fst (handler e clk req st) =
        Reply 200 (DataBody (build_response (build_filters e (map_of (query req))) opps opps)
          False (now_reply clk)))"
proof (intro conjI impI)
  assume "some_embedding_fails e cache opps query_text provider apiKey"
  then show "fst (performSemanticSearch e cache opps query_text provider apiKey) = opps"
    by (rule some_embedding_fails_falls_back)
next
  assume a: "distinct (map fst (query req)) \<and>
    passes_checks clk req st \<and> cache_miss e clk req st \<and>
    searchSAMOpportunities e (build_filters e (map_of (query req)))
      (the (map_of (query req) ''samApiKey'')) = Inr opps \<and>
    wants_ranking req \<and>
    some_embedding_fails e (embeddingCache st) opps (the (map_of (query req) ''q''))
      (provider_of (map_of (query req))) (the (llmApiKey req))"
  then have "fst (final_opportunities e req (embeddingCache (after_limiter clk req st)) opps) = opps"
    by (simp add: final_opportunities_def after_limiter_def some_embedding_fails_falls_back)
  moreover from a have "handler e clk req st =
      search_and_store e clk req (build_filters e (map_of (query req))) (request_key e req)
        (after_limiter clk req st)"
    by (simp add: handler_miss)
  ultimately show "fst (handler e clk req st) =
      Reply 200 (DataBody (build_response (build_filters e (map_of (query req))) opps opps)
        False (now_reply clk))"
    using a by (simp add: search_and_store_success)
qed

theorem embedding_failure_returns_unranked_witness:
  "distinct (map fst (query example_huggingface_request)) \<and>
   fst (performSemanticSearch example_env Map.empty [example_paper, example_broken]
         ''drone'' ''openai'' ''llm-key'') = [example_paper, example_broken] \<and>
   fst (handler example_env example_clock example_huggingface_request example_server) =
     Reply 200 (DataBody
       \<lparr>opportunities = [example_paper, example_drone], totalRecords = 2,
        response_limit = Num 50, response_offset = Num 0\<rparr> False 1501)"
proof -
  have f1: "some_embedding_fails example_env Map.empty [example_paper, example_broken]
      ''drone'' ''openai'' ''llm-key''"
    by (simp add: some_embedding_fails_def example_query_embedding generateEmbeddings_def
        example_texts example_env_def example_embeddings_def)
  have f2: "some_embedding_fails example_env (embeddingCache example_server)
      [example_paper, example_drone] ''drone'' ''huggingface'' ''llm-key''"
    by (simp add: some_embedding_fails_def generateEmbeddings_def example_env_def
        example_server_def)
  note fn = embedding_failure_returns_unranked [where e = example_env and cache = Map.empty
      and opps = "[example_paper, example_broken]" and query_text = "''drone''"
      and provider = "''openai''" and apiKey = "''llm-key''", THEN conjunct1]
  note hd = embedding_failure_returns_unranked [where e = example_env
      and opps = "[example_paper, example_drone]" and clk = example_clock
      and req = example_huggingface_request and st = example_server, THEN conjunct2]
  have "fst (performSemanticSearch example_env Map.empty [example_paper, example_broken]
         ''drone'' ''openai'' ''llm-key'') = [example_paper, example_broken]"
    using fn f1 by simp
  moreover
  have "fst (handler example_env example_clock example_huggingface_request example_server) =
      Reply 200 (DataBody
        (build_response (build_filters example_env (map_of (query example_huggingface_request)))
          [example_paper, example_drone] [example_paper, example_drone])
        False (now_reply example_clock))"
    using hd f2 example_requests_pass(2) example_requests_miss example_requests_want_ranking(2)
      example_requests_distinct(2)
    by (simp add: example_upstream example_request_parameters)
  moreover
  have "build_response (build_filters example_env (map_of (query example_huggingface_request)))
      [example_paper, example_drone] [example_paper, example_drone] =
      \<lparr>opportunities = [example_paper, example_drone], totalRecords = 2,
        response_limit = Num 50, response_offset = Num 0\<rparr>"
    by (simp add: build_response_def build_filters_def example_huggingface_request_def
        truthy_def number_or_def)
  ultimately show ?thesis
    using example_requests_distinct(2) by (simp add: example_clock_def)
qed

text \<open>
  Claim C3, amended. When the query is not blank, its embedding is obtained, and every
  opportunity's text has an embedding of the query's length, \<^verbatim>\<open>performSemanticSearch\<close>
  returns the first 25 of the list \<open>ranked\<close>, which holds every opportunity once, with
  its cosine similarity to the query (as computed in doubles) as the relevance score,
  in descending order of that score (a score that is \<^verbatim>\<open>NaN\<close> counting as 0), and
  opportunities of equal score in the order in which SAM.gov returned them. No
  opportunity is left out for its score: the result has \<open>min 25 n\<close> of the \<open>n\<close>
  opportunities.
\<close>

theorem semantic_ranking_sorted_top25:
  assumes "trim query_text \<noteq> []"
    and "generateEmbeddings e cache query_text provider apiKey = (Inr queryEmbeddings, cache1)"
    and "\<forall>opp\<in>set opps. \<exists>emb s.
           fst (generateEmbeddings e cache1 (opportunity_text opp) provider apiKey) = Inr emb \<and>
           cosineSimilarity_double queryEmbeddings emb = Inr s"
  shows "\<exists>scores ranked. length scores = length opps \<and>
     (\<forall>i<length opps. \<exists>emb.
        fst (generateEmbeddings e cache1 (opportunity_text (opps ! i)) provider apiKey) = Inr emb \<and>
        cosineSimilarity_double queryEmbeddings emb = Inr (scores ! i)) \<and>
     mset ranked = mset (map2 (\<lambda>opp s. opp\<lparr>relevanceScore := s\<rparr>) opps scores) \<and>
     sorted_wrt descending ranked \<and>
     (\<forall>s. filter (\<lambda>a. counted_score (relevanceScore a) = s) ranked =
          filter (\<lambda>a. counted_score (relevanceScore a) = s)
            (map2 (\<lambda>opp s. opp\<lparr>relevanceScore := s\<rparr>) opps scores)) \<and>
     fst (performSemanticSearch e cache opps query_text provider apiKey) = take 25 ranked \<and>
     length (fst (performSemanticSearch e cache opps query_text provider apiKey)) =
       min 25 (length opps)"
proof -
  let ?result = "fst (performSemanticSearch e cache opps query_text provider apiKey)"
  from assms(3)
  have "\<forall>opp\<in>set opps. \<exists>s. \<exists>emb.
      fst (generateEmbeddings e cache1 (opportunity_text opp) provider apiKey) = Inr emb \<and>
      cosineSimilarity_double queryEmbeddings emb = Inr s"
    by blast
  then obtain f where f: "\<forall>opp\<in>set opps. \<exists>emb.
      fst (generateEmbeddings e cache1 (opportunity_text opp) provider apiKey) = Inr emb \<and>
      cosineSimilarity_double queryEmbeddings emb = Inr (f opp)"
    using bchoice [of "set opps" "\<lambda>opp s. \<exists>emb.
      fst (generateEmbeddings e cache1 (opportunity_text opp) provider apiKey) = Inr emb \<and>
      cosineSimilarity_double queryEmbeddings emb = Inr s"] by blast
  let ?scores = "map f opps"
  let ?scored = "map2 (\<lambda>opp s. opp\<lparr>relevanceScore := s\<rparr>) opps ?scores"
  let ?ranked = "array_sort compareRelevance ?scored"
  have scored_eq: "?scored = map (\<lambda>opp. opp\<lparr>relevanceScore := f opp\<rparr>) opps"
    by (rule map2_same_map)
  have "\<forall>opp\<in>set opps. fst (score_opportunity e cache1 queryEmbeddings provider apiKey opp) =
      Inr (opp\<lparr>relevanceScore := f opp\<rparr>)"
    using f score_opportunity_success by blast
  then have "map fst (map (score_opportunity e cache1 queryEmbeddings provider apiKey) opps) =
      map Inr ?scored"
    unfolding scored_eq by simp
  from ranking_of_scored [OF assms(1) assms(2) this]
  have result: "?result = take 25 ?ranked" .
  have "\<forall>opp\<in>set opps. grid_number (f opp)"
    using f grid_number_cosineSimilarity_double by blast
  then have "\<forall>a\<in>set ?scored. grid_number (relevanceScore a)"
    unfolding scored_eq by simp
  then have sorted: "sorted_wrt descending ?ranked"
    by (rule sorted_array_sort)
  have perm: "mset ?ranked = mset ?scored"
    by (rule mset_array_sort)
  have stable: "\<forall>s. filter (\<lambda>a. counted_score (relevanceScore a) = s) ?ranked =
      filter (\<lambda>a. counted_score (relevanceScore a) = s) ?scored"
    by (simp add: array_sort_stable)
  have len: "length ?result = min 25 (length opps)"
    unfolding result by (simp add: length_array_sort min.commute)
  have nth: "\<forall>i<length opps. \<exists>emb.
      fst (generateEmbeddings e cache1 (opportunity_text (opps ! i)) provider apiKey) = Inr emb \<and>
      cosineSimilarity_double queryEmbeddings emb = Inr (?scores ! i)"
    using f by simp
  have "length ?scores = length opps"
    by simp
  with nth perm sorted stable result len show ?thesis
    by blast
qed

text \<open>
  The query \<^verbatim>\<open>rotor\<close> on the blades notice and the hub notice: the result is in
  descending order of score and has both of them, the hub notice (score 1) before the
  blades notice (score \<open>1 - 2 ^ -52\<close>).
\<close>

theorem semantic_ranking_sorted_top25_witness:
  "trim ''rotor'' \<noteq> [] \<and>
   sorted_wrt descending
     (fst (performSemanticSearch example_env Map.empty [example_blades, example_hub]
            ''rotor'' ''openai'' ''llm-key'')) \<and>
   length (fst (performSemanticSearch example_env Map.empty [example_blades, example_hub]
            ''rotor'' ''openai'' ''llm-key'')) = 2 \<and>
   fst (performSemanticSearch example_env Map.empty [example_blades, example_hub]
          ''rotor'' ''openai'' ''llm-key'') =
     [example_hub\<lparr>relevanceScore := Num 1\<rparr>,
      example_blades\<lparr>relevanceScore := Num (1 - 1 / 2 ^ 52)\<rparr>]"
proof -
  let ?result = "fst (performSemanticSearch example_env Map.empty [example_blades, example_hub]
            ''rotor'' ''openai'' ''llm-key'')"
  have embeds: "\<forall>opp\<in>set [example_blades, example_hub]. \<exists>emb s.
      fst (generateEmbeddings example_env [''openai:rotor'' \<mapsto> [Num 1, Num 1]]
             (opportunity_text opp) ''openai'' ''llm-key'') = Inr emb \<and>
      cosineSimilarity_double [Num 1, Num 1] emb = Inr s"
    using example_rotor_embeddings cosineSimilarity_double_1_1_self cosineSimilarity_double_1_1_3_3
    by simp
  from semantic_ranking_sorted_top25 [OF example_trim(2) example_rotor_query_embedding embeds]
  obtain ranked where "sorted_wrt descending ranked" and "?result = take 25 ranked"
    and "length ?result = min 25 (length [example_blades, example_hub])"
    by blast
  then have "sorted_wrt descending ?result" and "length ?result = 2"
    by (simp_all add: sorted_wrt_take)
  with example_trim(2) example_rotor_ranking [of "''llm-key''"] show ?thesis
    by (intro conjI)
qed

text \<open>
  The claim as it is stated fails: an opportunity whose score is -1 is returned.
\<close>

theorem negative_score_returned_counterexample:
  "fst (performSemanticSearch example_env Map.empty [example_paper] ''drone'' ''openai'' ''llm-key'') =
     [example_paper\<lparr>relevanceScore := Num (- 1)\<rparr>]"
proof -
  have "fst (performSemanticSearch example_env Map.empty [example_paper] ''drone'' ''openai'' ''llm-key'') =
      take 25 (array_sort compareRelevance [example_paper\<lparr>relevanceScore := Num (- 1)\<rparr>])"
    by (rule ranking_of_scored [OF example_trim(1) example_query_embedding])
      (simp add: example_scores)
  then show ?thesis
    by (simp add: array_sort_def)
qed

subsection \<open>Claims about the result cache\<close>

lemma handler_miss_success:
  assumes "passes_checks clk req st" and "cache_miss e clk req st"
    and "searchSAMOpportunities e (build_filters e (map_of (query req)))
      (the (map_of (query req) ''samApiKey'')) = Inr opps"
  shows "fst (handler e clk req st) =
      Reply 200 (DataBody
        (build_response (build_filters e (map_of (query req)))
          (fst (final_opportunities e req (embeddingCache st) opps)) opps)
        False (now_reply clk))"
    and "searchResultsCache (snd (handler e clk req st)) =
      (searchResultsCache st)(request_key e req \<mapsto>
        CacheEntry
          (build_response (build_filters e (map_of (query req)))
            (fst (final_opportunities e req (embeddingCache st) opps)) opps)
          (now_store clk))"
    and "samRateLimitMap (snd (handler e clk req st)) =
      snd (checkSAMRateLimit req (now_limit clk) (samRateLimitMap st))"
  using assms
  by (simp_all add: handler_miss search_and_store_success after_limiter_def)

text \<open>
  Claim C4, amended. For a request with each parameter given once: on a cache miss with
  a successful request to SAM.gov, the value stored in the result cache under the key of
  the filters is the response object that the caller receives: its opportunities are the
  ranked and cut list when the ranking ran and the list from SAM.gov otherwise, and its
  \<^verbatim>\<open>totalRecords\<close> is the size of the list from SAM.gov.
\<close>

theorem cache_stores_returned_response:
  "distinct (map fst (query req)) \<and>
   passes_checks clk req st \<and> cache_miss e clk req st \<and>
   searchSAMOpportunities e (build_filters e (map_of (query req)))
     (the (map_of (query req) ''samApiKey'')) = Inr opps \<longrightarrow>
     (\<exists>response.
        fst (handler e clk req st) = Reply 200 (DataBody response False (now_reply clk)) \<and>
        searchResultsCache (snd (handler e clk req st)) (request_key e req) =
          Some (CacheEntry response (now_store clk)) \<and>
        opportunities response = fst (final_opportunities e req (embeddingCache st) opps) \<and>
        totalRecords response = length opps)"
proof
  assume a: "distinct (map fst (query req)) \<and>
   passes_checks clk req st \<and> cache_miss e clk req st \<and>
   searchSAMOpportunities e (build_filters e (map_of (query req)))
     (the (map_of (query req) ''samApiKey'')) = Inr opps"
  let ?response = "build_response (build_filters e (map_of (query req)))
          (fst (final_opportunities e req (embeddingCache st) opps)) opps"
  from a have "fst (handler e clk req st) = Reply 200 (DataBody ?response False (now_reply clk))"
    by (simp add: handler_miss_success(1))
  moreover from a have "searchResultsCache (snd (handler e clk req st)) (request_key e req) =
      Some (CacheEntry ?response (now_store clk))"
    by (simp add: handler_miss_success(2))
  moreover have "opportunities ?response = fst (final_opportunities e req (embeddingCache st) opps)"
    and "totalRecords ?response = length opps"
    by (simp_all add: build_response_def)
  ultimately show "\<exists>response.
        fst (handler e clk req st) = Reply 200 (DataBody response False (now_reply clk)) \<and>
        searchResultsCache (snd (handler e clk req st)) (request_key e req) =
          Some (CacheEntry response (now_store clk)) \<and>
        opportunities response = fst (final_opportunities e req (embeddingCache st) opps) \<and>
        totalRecords response = length opps"
    by blast
qed

lemma example_final_opportunities:
  "fst (final_opportunities example_env example_search_request Map.empty
         [example_paper, example_drone]) =
     [example_drone\<lparr>relevanceScore := Num 1\<rparr>, example_paper\<lparr>relevanceScore := Num (- 1)\<rparr>]"
  by (simp add: final_opportunities_def example_requests_want_ranking example_request_parameters
      example_ranking)

theorem cache_stores_returned_response_witness:
  "distinct (map fst (query example_search_request)) \<and>
   map_option (\<lambda>c. opportunities (data c))
     (searchResultsCache (snd (handler example_env example_clock example_search_request example_server))
        (request_key example_env example_search_request)) =
     Some [example_drone\<lparr>relevanceScore := Num 1\<rparr>, example_paper\<lparr>relevanceScore := Num (- 1)\<rparr>] \<and>
   opportunities (payload (body
     (fst (handler example_env example_clock example_search_request example_server)))) =
     [example_drone\<lparr>relevanceScore := Num 1\<rparr>, example_paper\<lparr>relevanceScore := Num (- 1)\<rparr>]"
proof -
  have "distinct (map fst (query example_search_request)) \<and>
      passes_checks example_clock example_search_request example_server \<and>
      cache_miss example_env example_clock example_search_request example_server \<and>
      searchSAMOpportunities example_env
        (build_filters example_env (map_of (query example_search_request)))
        (the (map_of (query example_search_request) ''samApiKey'')) =
      Inr [example_paper, example_drone]"
    by (simp add: example_requests_pass example_requests_miss example_upstream
        example_requests_distinct)
  with cache_stores_returned_response [where clk = example_clock
      and req = example_search_request and st = example_server and e = example_env
      and opps = "[example_paper, example_drone]"]
  obtain response where
    "fst (handler example_env example_clock example_search_request example_server) =
       Reply 200 (DataBody response False (now_reply example_clock))"
    and "searchResultsCache (snd (handler example_env example_clock example_search_request example_server))
        (request_key example_env example_search_request) =
       Some (CacheEntry response (now_store example_clock))"
    and "opportunities response =
       fst (final_opportunities example_env example_search_request (embeddingCache example_server)
         [example_paper, example_drone])"
    by blast
  then show ?thesis
    using example_requests_distinct(1)
    by (simp add: example_server_def example_final_opportunities)
qed

text \<open>
  The claim as it is stated fails: SAM.gov returns the paper notice before the drone
  notice, the ranking ran, and the cache entry holds the ranked list, with the scores.
\<close>

theorem cache_holds_ranked_list_counterexample:
  "searchSAMOpportunities example_env
     (build_filters example_env (map_of (query example_search_request))) ''sam-key'' =
     Inr [example_paper, example_drone] \<and>
   map_option (\<lambda>c. opportunities (data c))
     (searchResultsCache (snd (handler example_env example_clock example_search_request example_server))
        (request_key example_env example_search_request)) =
     Some [example_drone\<lparr>relevanceScore := Num 1\<rparr>, example_paper\<lparr>relevanceScore := Num (- 1)\<rparr>]"
proof -
  have "searchResultsCache (snd (handler example_env example_clock example_search_request example_server)) =
      (searchResultsCache example_server)(request_key example_env example_search_request \<mapsto>
        CacheEntry
          (build_response (build_filters example_env (map_of (query example_search_request)))
            (fst (final_opportunities example_env example_search_request
                (embeddingCache example_server) [example_paper, example_drone]))
            [example_paper, example_drone])
          (now_store example_clock))"
    by (rule handler_miss_success(2))
      (simp_all add: example_requests_pass example_requests_miss example_upstream)
  then show ?thesis
    by (simp add: example_upstream build_response_def example_server_def
        example_final_opportunities)
qed

text \<open>
  Claim C5. Two requests whose query strings hold the same parameters with the same
  values, in any order, get the same cache key; and when the first of them missed the
  cache and was answered from SAM.gov, the second one, looked up less than the cache
  duration after the first was stored, is answered with the first one's response from the
  cache.
\<close>

theorem cache_key_ignores_query_order:
  "(distinct (map fst (query req1)) \<and> mset (query req1) = mset (query req2) \<longrightarrow>
      request_key e req1 = request_key e req2) \<and>
   (distinct (map fst (query req1)) \<and> mset (query req1) = mset (query req2) \<and>
    passes_checks clk1 req1 st \<and> cache_miss e clk1 req1 st \<and>
    searchSAMOpportunities e (build_filters e (map_of (query req1)))
      (the (map_of (query req1) ''samApiKey'')) = Inr opps \<and>
    passes_checks clk2 req2 (snd (handler e clk1 req1 st)) \<and>
    now_lookup clk2 - now_store clk1 < CACHE_DURATION \<longrightarrow>
      (\<exists>response.
         fst (handler e clk1 req1 st) = Reply 200 (DataBody response False (now_reply clk1)) \<and>
         fst (handler e clk2 req2 (snd (handler e clk1 req1 st))) =
           Reply 200 (DataBody response True (now_reply clk2))))"
proof (intro conjI impI)
  assume "distinct (map fst (query req1)) \<and> mset (query req1) = mset (query req2)"
  then have "map_of (query req1) = map_of (query req2)"
    by (simp add: query_order_irrelevant)
  then show "request_key e req1 = request_key e req2"
    by (simp add: request_key_def)
next
  assume a: "distinct (map fst (query req1)) \<and> mset (query req1) = mset (query req2) \<and>
    passes_checks clk1 req1 st \<and> cache_miss e clk1 req1 st \<and>
    searchSAMOpportunities e (build_filters e (map_of (query req1)))
      (the (map_of (query req1) ''samApiKey'')) = Inr opps \<and>
    passes_checks clk2 req2 (snd (handler e clk1 req1 st)) \<and>
    now_lookup clk2 - now_store clk1 < CACHE_DURATION"
  let ?response = "build_response (build_filters e (map_of (query req1)))
          (fst (final_opportunities e req1 (embeddingCache st) opps)) opps"
  let ?st1 = "snd (handler e clk1 req1 st)"
  from a have "map_of (query req1) = map_of (query req2)"
    by (simp add: query_order_irrelevant)
  then have key: "request_key e req2 = request_key e req1"
    by (simp add: request_key_def)
  from a have first: "fst (handler e clk1 req1 st) =
      Reply 200 (DataBody ?response False (now_reply clk1))"
    by (simp add: handler_miss_success(1))
  from a have "searchResultsCache ?st1 (request_key e req1) =
      Some (CacheEntry ?response (now_store clk1))"
    by (simp add: handler_miss_success(2))
  with key have stored: "searchResultsCache ?st1 (request_key e req2) =
      Some (CacheEntry ?response (now_store clk1))"
    by simp
  from a have pass2: "passes_checks clk2 req2 ?st1"
    and young: "now_lookup clk2 - stored (CacheEntry ?response (now_store clk1)) < CACHE_DURATION"
    by simp_all
  from handler_hit [OF pass2 stored young]
  have "fst (handler e clk2 req2 ?st1) = Reply 200 (DataBody ?response True (now_reply clk2))"
    by simp
  with first show "\<exists>response.
         fst (handler e clk1 req1 st) = Reply 200 (DataBody response False (now_reply clk1)) \<and>
         fst (handler e clk2 req2 (snd (handler e clk1 req1 st))) =
           Reply 200 (DataBody response True (now_reply clk2))"
    by blast
qed

theorem cache_key_ignores_query_order_witness:
  "request_key example_env example_search_request =
     request_key example_env example_search_request_reordered \<and>
   fst (handler example_env example_clock_later example_search_request_reordered
         (snd (handler example_env example_clock example_search_request example_server))) =
     Reply 200 (DataBody
       \<lparr>opportunities =
          [example_drone\<lparr>relevanceScore := Num 1\<rparr>, example_paper\<lparr>relevanceScore := Num (- 1)\<rparr>],
        totalRecords = 2, response_limit = Num 50, response_offset = Num 0\<rparr> True 9501)"
proof -
  let ?st1 = "snd (handler example_env example_clock example_search_request example_server)"
  have same: "distinct (map fst (query example_search_request)) \<and>
      mset (query example_search_request) = mset (query example_search_request_reordered)"
    by (simp add: example_search_request_def example_search_request_reordered_def
        add_mset_commute)
  have up: "searchSAMOpportunities example_env
      (build_filters example_env (map_of (query example_search_request)))
      (the (map_of (query example_search_request) ''samApiKey'')) =
      Inr [example_paper, example_drone]"
    by (simp add: example_upstream)
  note first = handler_miss_success [OF example_requests_pass(1) example_requests_miss up]
  have limiter: "samRateLimitMap ?st1 = [''10.0.0.1'' \<mapsto> \<lparr>count = 1, timestamp = 1000\<rparr>]"
    unfolding first(3)
    by (simp add: checkSAMRateLimit_def example_request_identity samClientIp_def js_or_def
        js_or_default_def truthy_def example_search_request_def example_server_def
        example_clock_def)
  have pass2: "passes_checks example_clock_later example_search_request_reordered ?st1"
    unfolding passes_checks_def limiter
    by (simp add: checkSAMRateLimit_def samClientIp_def js_or_def js_or_default_def truthy_def
        example_search_request_reordered_def example_clock_later_def
        SAM_RATE_LIMIT_WINDOW_def SAM_RATE_LIMIT_MAX_REQUESTS_def)
  have young: "now_lookup example_clock_later - now_store example_clock < CACHE_DURATION"
    by (simp add: example_clock_later_def example_clock_def CACHE_DURATION_def)
  note inst = cache_key_ignores_query_order [where e = example_env
      and ?req1.0 = example_search_request and ?req2.0 = example_search_request_reordered
      and ?clk1.0 = example_clock and ?clk2.0 = example_clock_later and st = example_server
      and opps = "[example_paper, example_drone]"]
  from inst same have key: "request_key example_env example_search_request =
      request_key example_env example_search_request_reordered"
    by blast
  from inst same example_requests_pass(1) example_requests_miss up pass2 young
  obtain response where
    r1: "fst (handler example_env example_clock example_search_request example_server) =
       Reply 200 (DataBody response False (now_reply example_clock))"
    and r2: "fst (handler example_env example_clock_later example_search_request_reordered ?st1) =
       Reply 200 (DataBody response True (now_reply example_clock_later))"
    by blast
  from r1 first(1) have "response =
      build_response (build_filters example_env (map_of (query example_search_request)))
        (fst (final_opportunities example_env example_search_request
            (embeddingCache example_server) [example_paper, example_drone]))
        [example_paper, example_drone]"
    by simp
  moreover
  have "limit (build_filters example_env (map_of (query example_search_request))) = Num 50"
    and "offset (build_filters example_env (map_of (query example_search_request))) = Num 0"
    by (simp_all add: build_filters_def example_search_request_def truthy_def)
  ultimately have "response =
      \<lparr>opportunities =
          [example_drone\<lparr>relevanceScore := Num 1\<rparr>, example_paper\<lparr>relevanceScore := Num (- 1)\<rparr>],
        totalRecords = 2, response_limit = Num 50, response_offset = Num 0\<rparr>"
    by (simp add: build_response_def example_server_def example_final_opportunities number_or_def)
  with r2 key show ?thesis
    by (simp add: example_clock_later_def)
qed

subsection \<open>The chat gateway: data\<close>

datatype LLMProvider = openai | anthropic | huggingface

datatype role = system | user | assistant

datatype LLMMessage = LLMMessage (role: role) (message_text: string)

record usage =
  prompt_tokens :: int
  completion_tokens :: int
  total_tokens :: int

text \<open>\<^verbatim>\<open>LLMResponse\<close>; its field \<^verbatim>\<open>usage\<close> is optional in the type declaration.\<close>

record LLMResponse =
  content :: string
  usage :: "usage option"
  model :: string
  provider :: LLMProvider

text \<open>
  The bodies that the adapters send. The fields are those of the object literals in the
  order of the source.
\<close>

datatype payload =
  OpenAIPayload string "(role \<times> string) list" real int bool
| AnthropicPromptPayload string string int real "string list"
| AnthropicMessagesPayload string int real string "(role \<times> string) list"
| HuggingFacePayload string int real bool

datatype http_request = Post (url: string) (request_headers: "(string \<times> string) list") (sent: payload)

text \<open>
  The reply to a \<^verbatim>\<open>fetch\<close>. When \<^verbatim>\<open>response.ok\<close> is false the reply has a status text
  and a body that is not JSON (with the parser's message), is the JSON value \<^verbatim>\<open>null\<close>, or
  is another JSON value, with the error text that the adapter looks for
  (\<^verbatim>\<open>error.error?.message\<close>, for Hugging Face \<^verbatim>\<open>error.error\<close>) when it is there. When
  \<^verbatim>\<open>response.ok\<close> is true the reply has the parsed body, with the fields that the adapter
  reads.
\<close>

datatype error_json = NotJson string | NullJson | ErrorJson "string option"

datatype 'd http_response = NotOk string error_json | Ok 'd

text \<open>
  The body of a successful reply of each upstream. A field that may be missing is an
  option; an array is a list, so that it can be empty.
  \<^item> OpenAI: the \<^verbatim>\<open>message.content\<close> of each element of \<^verbatim>\<open>choices\<close>, the \<^verbatim>\<open>usage\<close>
    block, \<^verbatim>\<open>model\<close>.
  \<^item> Anthropic, completion style: \<^verbatim>\<open>completion\<close>, the \<^verbatim>\<open>usage\<close> block with its two
    counts, \<^verbatim>\<open>model\<close>.
  \<^item> Anthropic, messages style: the \<^verbatim>\<open>text\<close> of each element of \<^verbatim>\<open>content\<close>, the
    \<^verbatim>\<open>usage\<close> block with \<^verbatim>\<open>input_tokens\<close> and \<^verbatim>\<open>output_tokens\<close>, \<^verbatim>\<open>model\<close>.
  \<^item> Hugging Face: an array of objects with \<^verbatim>\<open>generated_text\<close>, or one such object.
\<close>

datatype openai_data = OpenAIData (choices: "string list") (openai_usage: "usage option") (openai_model: string)

datatype completion_usage = CompletionUsage (reported_prompt: "int option") (reported_completion: "int option")

datatype completion_data =
  CompletionData (completion: string) (completion_usage: "completion_usage option")
    (completion_model: "string option")

datatype messages_data =
  MessagesData (blocks: "string list") (messages_usage: "(int \<times> int) option") (messages_model: string)

datatype huggingface_data = GeneratedArray "string list" | GeneratedObject string

text \<open>
  Reading a property of \<^verbatim>\<open>undefined\<close> or of \<^verbatim>\<open>null\<close> throws a \<^verbatim>\<open>TypeError\<close>; the
  message names the property in single quotes, as in
  \<^verbatim>\<open>Cannot read properties of undefined (reading 'message')\<close>.
\<close>

definition quoted :: "string \<Rightarrow> string" where
  "quoted s = [CHR 0x27] @ s @ [CHR 0x27]"

definition type_error :: "string \<Rightarrow> error" where
  "type_error property =
     Error (''Cannot read properties of undefined (reading '' @ quoted property @ '')'')"

definition null_type_error :: "string \<Rightarrow> error" where
  "null_type_error property =
     Error (''Cannot read properties of null (reading '' @ quoted property @ '')'')"

definition newline :: string where
  "newline = [CHR 0x0A]"

definition SYSTEM_PROMPT :: string where
  "SYSTEM_PROMPT =
     ''You are OpenSAM AI, an expert assistant for SAM.gov (System for Award Management) government contracting opportunities. Your expertise includes:'' @
     newline @
     newline @
     ''- Government contracting processes and terminology'' @
     newline @
     ''- SAM.gov opportunity analysis and search'' @
     newline @
     ''- Contract award history and trends'' @
     newline @
     ''- NAICS codes and industry classifications'' @
     newline @
     ''- Set-aside programs and small business categories'' @
     newline @
     ''- Federal procurement regulations (FAR)'' @
     newline @
     ''- Proposal writing and past performance evaluation'' @
     newline @
     newline @
     ''When users ask about contracting opportunities, provide detailed, accurate information. If you need to search for specific opportunities, indicate that you'' @ [CHR 0x27] @ ''ll search SAM.gov data. Always prioritize accuracy and compliance with federal regulations.'' @
     newline @
     newline @
     ''Keep responses concise but comprehensive, and always consider the business context of government contracting.''"

text \<open>\<^verbatim>\<open>parts.join(sep)\<close>.\<close>

fun join :: "string \<Rightarrow> string list \<Rightarrow> string" where
  "join sep [] = []"
| "join sep [x] = x"
| "join sep (x # y # ys) = x @ sep @ join sep (y # ys)"

subsection \<open>The chat gateway: request formats\<close>

definition formatOpenAIMessages :: "LLMMessage list \<Rightarrow> (role \<times> string) list" where
  "formatOpenAIMessages messages =
     (system, SYSTEM_PROMPT) #
     map (\<lambda>msg. (if role msg = assistant then assistant else user, message_text msg)) messages"

text \<open>\<^verbatim>\<open>formatAnthropicMessages\<close> of the app route: one prompt string.\<close>

definition formatAnthropicMessages :: "LLMMessage list \<Rightarrow> payload" where
  "formatAnthropicMessages messages =
     (let conversation =
            join (newline @ newline)
              (map (\<lambda>msg. if role msg = assistant then ''Assistant: '' @ message_text msg
                          else ''Human: '' @ message_text msg)
                 (filter (\<lambda>msg. role msg \<noteq> system) messages))
      in AnthropicPromptPayload
           (SYSTEM_PROMPT @ newline @ newline @ conversation @ newline @ newline @ ''Assistant:'')
           [] 1000 (7 / 10) [newline @ ''Human:''])"

text \<open>
  \<^verbatim>\<open>formatAnthropicMessages\<close> of the pages route: the \<^verbatim>\<open>system\<close> field and the
  \<^verbatim>\<open>messages\<close> array.
\<close>

definition formatAnthropicMessages_pages :: "LLMMessage list \<Rightarrow> string \<times> (role \<times> string) list" where
  "formatAnthropicMessages_pages messages =
     (SYSTEM_PROMPT,
      map (\<lambda>msg. (if role msg = assistant then assistant else user, message_text msg))
        (filter (\<lambda>msg. role msg \<noteq> system) messages))"

definition formatHuggingFaceMessages :: "LLMMessage list \<Rightarrow> payload" where
  "formatHuggingFaceMessages messages =
     (let conversationText =
            join (newline @ newline)
              (map (\<lambda>msg. (if role msg = user then ''Human: '' else ''Assistant: '') @ message_text msg)
                 messages)
      in HuggingFacePayload
           (SYSTEM_PROMPT @ newline @ newline @ conversationText @ newline @ newline @ ''Assistant:'')
           1000 (7 / 10) False)"

definition bearer_headers :: "string \<Rightarrow> (string \<times> string) list" where
  "bearer_headers apiKey =
     [(''Authorization'', ''Bearer '' @ apiKey), (''Content-Type'', ''application/json'')]"

definition anthropic_headers :: "string \<Rightarrow> (string \<times> string) list" where
  "anthropic_headers apiKey =
     [(''x-api-key'', apiKey), (''Content-Type'', ''application/json''),
      (''anthropic-version'', ''2023-06-01'')]"

text \<open>The requests that the adapters make.\<close>

definition openai_request :: "LLMMessage list \<Rightarrow> string \<Rightarrow> string \<Rightarrow> real \<Rightarrow> int \<Rightarrow> http_request" where
  "openai_request messages modelName apiKey temperature maxTokens =
     Post ''https://api.openai.com/v1/chat/completions'' (bearer_headers apiKey)
       (OpenAIPayload modelName (formatOpenAIMessages messages) temperature maxTokens False)"

definition anthropic_request :: "LLMMessage list \<Rightarrow> string \<Rightarrow> string \<Rightarrow> real \<Rightarrow> int \<Rightarrow> http_request" where
  "anthropic_request messages modelName apiKey temperature maxTokens =
     Post ''https://api.anthropic.com/v1/completions'' (anthropic_headers apiKey)
       (case formatAnthropicMessages messages of
          AnthropicPromptPayload prompt m max_tokens_to_sample t stop_sequences \<Rightarrow>
            AnthropicPromptPayload prompt modelName maxTokens temperature stop_sequences
        | other \<Rightarrow> other)"

definition anthropic_request_pages :: "LLMMessage list \<Rightarrow> string \<Rightarrow> string \<Rightarrow> real \<Rightarrow> int \<Rightarrow> http_request" where
  "anthropic_request_pages messages modelName apiKey temperature maxTokens =
     Post ''https://api.anthropic.com/v1/messages'' (anthropic_headers apiKey)
       (AnthropicMessagesPayload modelName maxTokens temperature
          (fst (formatAnthropicMessages_pages messages)) (snd (formatAnthropicMessages_pages messages)))"

definition huggingface_request :: "LLMMessage list \<Rightarrow> string \<Rightarrow> string \<Rightarrow> real \<Rightarrow> int \<Rightarrow> http_request" where
  "huggingface_request messages modelName apiKey temperature maxTokens =
     Post (''https://api-inference.huggingface.co/models/'' @ modelName) (bearer_headers apiKey)
       (case formatHuggingFaceMessages messages of
          HuggingFacePayload inputs max_new_tokens t return_full_text \<Rightarrow>
            HuggingFacePayload inputs maxTokens temperature return_full_text
        | other \<Rightarrow> other)"

subsection \<open>The chat gateway: adapters\<close>

text \<open>
  The error thrown for a reply that is not ok. In the app route the body is parsed with
  \<^verbatim>\<open>.catch(() => ({}))\<close>, so a body that is not JSON counts as one without an error text;
  in the pages route the parser's error is thrown. In both routes a body that is the
  JSON value \<^verbatim>\<open>null\<close> makes the expression \<^verbatim>\<open>error.error\<close> throw a \<^verbatim>\<open>TypeError\<close>.
\<close>

definition upstream_error :: "string \<Rightarrow> string \<Rightarrow> error_json \<Rightarrow> error" where
  "upstream_error prefix statusText errorBody =
     (case errorBody of
        NotJson m \<Rightarrow> Error (prefix @ statusText)
      | NullJson \<Rightarrow> null_type_error ''error''
      | ErrorJson t \<Rightarrow> Error (prefix @ js_or_default t statusText))"

definition upstream_error_pages :: "string \<Rightarrow> string \<Rightarrow> error_json \<Rightarrow> error" where
  "upstream_error_pages prefix statusText errorBody =
     (case errorBody of
        NotJson m \<Rightarrow> Error m
      | NullJson \<Rightarrow> null_type_error ''error''
      | ErrorJson t \<Rightarrow> Error (prefix @ js_or_default t statusText))"

definition callOpenAI ::
  "(http_request \<Rightarrow> openai_data http_response) \<Rightarrow> LLMMessage list \<Rightarrow> string \<Rightarrow> string \<Rightarrow> real \<Rightarrow> int \<Rightarrow>
     error + LLMResponse" where
  "callOpenAI fetch messages modelName apiKey temperature maxTokens =
     (case fetch (openai_request messages modelName apiKey temperature maxTokens) of
        NotOk statusText errorBody \<Rightarrow> Inl (upstream_error ''OpenAI API error: '' statusText errorBody)
      | Ok d \<Rightarrow>
          (case choices d of
             [] \<Rightarrow> Inl (type_error ''message'')
           | c # cs \<Rightarrow>
               Inr \<lparr>content = c, usage = openai_usage d, model = openai_model d, provider = openai\<rparr>))"

definition callOpenAI_pages ::
  "(http_request \<Rightarrow> openai_data http_response) \<Rightarrow> LLMMessage list \<Rightarrow> string \<Rightarrow> string \<Rightarrow> real \<Rightarrow> int \<Rightarrow>
     error + LLMResponse" where
  "callOpenAI_pages fetch messages modelName apiKey temperature maxTokens =
     (case fetch (openai_request messages modelName apiKey temperature maxTokens) of
        NotOk statusText errorBody \<Rightarrow> Inl (upstream_error_pages ''OpenAI API error: '' statusText errorBody)
      | Ok d \<Rightarrow>
          (case choices d of
             [] \<Rightarrow> Inl (type_error ''message'')
           | c # cs \<Rightarrow>
               Inr \<lparr>content = c, usage = openai_usage d, model = openai_model d, provider = openai\<rparr>))"

text \<open>\<^verbatim>\<open>x || 0\<close> on a count that may be missing, and \<^verbatim>\<open>data.usage?.field\<close>.\<close>

definition count_or_zero :: "int option \<Rightarrow> int" where
  "count_or_zero x = (case x of None \<Rightarrow> 0 | Some n \<Rightarrow> n)"

definition optional_field :: "('a \<Rightarrow> 'b option) \<Rightarrow> 'a option \<Rightarrow> 'b option" where
  "optional_field field obj = (case obj of None \<Rightarrow> None | Some v \<Rightarrow> field v)"

definition callAnthropic ::
  "(http_request \<Rightarrow> completion_data http_response) \<Rightarrow> LLMMessage list \<Rightarrow> string \<Rightarrow> string \<Rightarrow> real \<Rightarrow> int \<Rightarrow>
     error + LLMResponse" where
  "callAnthropic fetch messages modelName apiKey temperature maxTokens =
     (case fetch (anthropic_request messages modelName apiKey temperature maxTokens) of
        NotOk statusText errorBody \<Rightarrow> Inl (upstream_error ''Anthropic API error: '' statusText errorBody)
      | Ok d \<Rightarrow>
          Inr \<lparr>content = completion d,
               usage = Some
                 \<lparr>prompt_tokens = count_or_zero (optional_field reported_prompt (completion_usage d)),
                  completion_tokens =
                    count_or_zero (optional_field reported_completion (completion_usage d)),
                  total_tokens =
                    count_or_zero (optional_field reported_prompt (completion_usage d)) +
                    count_or_zero (optional_field reported_completion (completion_usage d))\<rparr>,
               model = js_or_default (completion_model d) modelName,
               provider = anthropic\<rparr>)"

definition callAnthropic_pages ::
  "(http_request \<Rightarrow> messages_data http_response) \<Rightarrow> LLMMessage list \<Rightarrow> string \<Rightarrow> string \<Rightarrow> real \<Rightarrow> int \<Rightarrow>
     error + LLMResponse" where
  "callAnthropic_pages fetch messages modelName apiKey temperature maxTokens =
     (case fetch (anthropic_request_pages messages modelName apiKey temperature maxTokens) of
        NotOk statusText errorBody \<Rightarrow> Inl (upstream_error_pages ''Anthropic API error: '' statusText errorBody)
      | Ok d \<Rightarrow>
          (case blocks d of
             [] \<Rightarrow> Inl (type_error ''text'')
           | t # ts \<Rightarrow>
               (case messages_usage d of
                  None \<Rightarrow> Inl (type_error ''input_tokens'')
                | Some (input_tokens, output_tokens) \<Rightarrow>
                    Inr \<lparr>content = t,
                         usage = Some
                           \<lparr>prompt_tokens = input_tokens, completion_tokens = output_tokens,
                            total_tokens = input_tokens + output_tokens\<rparr>,
                         model = messages_model d,
                         provider = anthropic\<rparr>)))"

definition huggingface_result :: "huggingface_data \<Rightarrow> string \<Rightarrow> error + LLMResponse" where
  "huggingface_result d modelName =
     (case (case d of GeneratedArray [] \<Rightarrow> Inl (type_error ''generated_text'')
            | GeneratedArray (t # ts) \<Rightarrow> Inr t
            | GeneratedObject t \<Rightarrow> Inr t) of
        Inl err \<Rightarrow> Inl err
      | Inr t \<Rightarrow>
          Inr \<lparr>content = t,
               usage = Some \<lparr>prompt_tokens = 0, completion_tokens = 0, total_tokens = 0\<rparr>,
               model = modelName,
               provider = huggingface\<rparr>)"

definition callHuggingFace ::
  "(http_request \<Rightarrow> huggingface_data http_response) \<Rightarrow> LLMMessage list \<Rightarrow> string \<Rightarrow> string \<Rightarrow> real \<Rightarrow> int \<Rightarrow>
     error + LLMResponse" where
  "callHuggingFace fetch messages modelName apiKey temperature maxTokens =
     (case fetch (huggingface_request messages modelName apiKey temperature maxTokens) of
        NotOk statusText errorBody \<Rightarrow> Inl (upstream_error ''Hugging Face API error: '' statusText errorBody)
      | Ok d \<Rightarrow> huggingface_result d modelName)"

definition callHuggingFace_pages ::
  "(http_request \<Rightarrow> huggingface_data http_response) \<Rightarrow> LLMMessage list \<Rightarrow> string \<Rightarrow> string \<Rightarrow> real \<Rightarrow> int \<Rightarrow>
     error + LLMResponse" where
  "callHuggingFace_pages fetch messages modelName apiKey temperature maxTokens =
     (case fetch (huggingface_request messages modelName apiKey temperature maxTokens) of
        NotOk statusText errorBody \<Rightarrow> Inl (upstream_error_pages ''Hugging Face API error: '' statusText errorBody)
      | Ok d \<Rightarrow> huggingface_result d modelName)"

subsection \<open>The chat gateway: the shape of a successful completion\<close>

definition zero_usage :: usage where
  "zero_usage = \<lparr>prompt_tokens = 0, completion_tokens = 0, total_tokens = 0\<rparr>"

text \<open>
  Claim C1, amended. A successful completion of each adapter is one object with the
  fields content, usage, model and provider, where provider is the adapter's own
  provider and content is the text taken from the upstream body (the first choice's
  message content, the completion or the first content block's text, the generated
  text), whatever that text is.
  \<^item> OpenAI (both routes): usage is the upstream usage block, passed through as it is,
    and missing when the upstream reports none.
  \<^item> Anthropic, app route: usage has the two reported counts, each 0 when it is not
    reported, and their sum; with no usage block all three are 0.
  \<^item> Anthropic, pages route: usage has the reported input and output counts and their
    sum.
  \<^item> Hugging Face (both routes): usage is three zeros.
\<close>

theorem adapters_normalized_response:
  "(fetch_openai (openai_request messages modelName apiKey temperature maxTokens) =
      Ok (OpenAIData (c # cs) reported m) \<longrightarrow>
      callOpenAI fetch_openai messages modelName apiKey temperature maxTokens =
        Inr \<lparr>content = c, usage = reported, model = m, provider = openai\<rparr> \<and>
      callOpenAI_pages fetch_openai messages modelName apiKey temperature maxTokens =
        Inr \<lparr>content = c, usage = reported, model = m, provider = openai\<rparr>) \<and>
   (fetch_completion (anthropic_request messages modelName apiKey temperature maxTokens) =
      Ok (CompletionData c block mo) \<longrightarrow>
      callAnthropic fetch_completion messages modelName apiKey temperature maxTokens =
        Inr \<lparr>content = c,
             usage = Some
               \<lparr>prompt_tokens = count_or_zero (optional_field reported_prompt block),
                completion_tokens = count_or_zero (optional_field reported_completion block),
                total_tokens = count_or_zero (optional_field reported_prompt block) +
                  count_or_zero (optional_field reported_completion block)\<rparr>,
             model = js_or_default mo modelName, provider = anthropic\<rparr>) \<and>
   (fetch_completion (anthropic_request messages modelName apiKey temperature maxTokens) =
      Ok (CompletionData c None mo) \<longrightarrow>
      callAnthropic fetch_completion messages modelName apiKey temperature maxTokens =
        Inr \<lparr>content = c, usage = Some zero_usage,
             model = js_or_default mo modelName, provider = anthropic\<rparr>) \<and>
   (fetch_messages (anthropic_request_pages messages modelName apiKey temperature maxTokens) =
      Ok (MessagesData (c # cs) (Some (input_tokens, output_tokens)) m) \<longrightarrow>
      callAnthropic_pages fetch_messages messages modelName apiKey temperature maxTokens =
        Inr \<lparr>content = c,
             usage = Some \<lparr>prompt_tokens = input_tokens, completion_tokens = output_tokens,
                           total_tokens = input_tokens + output_tokens\<rparr>,
             model = m, provider = anthropic\<rparr>) \<and>
   (fetch_huggingface (huggingface_request messages modelName apiKey temperature maxTokens) = Ok d \<and>
    (d = GeneratedArray (c # cs) \<or> d = GeneratedObject c) \<longrightarrow>
      callHuggingFace fetch_huggingface messages modelName apiKey temperature maxTokens =
        Inr \<lparr>content = c, usage = Some zero_usage, model = modelName, provider = huggingface\<rparr> \<and>
      callHuggingFace_pages fetch_huggingface messages modelName apiKey temperature maxTokens =
        Inr \<lparr>content = c, usage = Some zero_usage, model = modelName, provider = huggingface\<rparr>)"
proof (intro conjI impI)
  assume "fetch_openai (openai_request messages modelName apiKey temperature maxTokens) =
      Ok (OpenAIData (c # cs) reported m)"
  then show "callOpenAI fetch_openai messages modelName apiKey temperature maxTokens =
        Inr \<lparr>content = c, usage = reported, model = m, provider = openai\<rparr>"
    and "callOpenAI_pages fetch_openai messages modelName apiKey temperature maxTokens =
        Inr \<lparr>content = c, usage = reported, model = m, provider = openai\<rparr>"
    by (simp_all add: callOpenAI_def callOpenAI_pages_def)
next
  assume "fetch_completion (anthropic_request messages modelName apiKey temperature maxTokens) =
      Ok (CompletionData c block mo)"
  then show "callAnthropic fetch_completion messages modelName apiKey temperature maxTokens =
        Inr \<lparr>content = c,
             usage = Some
               \<lparr>prompt_tokens = count_or_zero (optional_field reported_prompt block),
                completion_tokens = count_or_zero (optional_field reported_completion block),
                total_tokens = count_or_zero (optional_field reported_prompt block) +
                  count_or_zero (optional_field reported_completion block)\<rparr>,
             model = js_or_default mo modelName, provider = anthropic\<rparr>"
    by (simp add: callAnthropic_def)
next
  assume "fetch_completion (anthropic_request messages modelName apiKey temperature maxTokens) =
      Ok (CompletionData c None mo)"
  then show "callAnthropic fetch_completion messages modelName apiKey temperature maxTokens =
        Inr \<lparr>content = c, usage = Some zero_usage,
             model = js_or_default mo modelName, provider = anthropic\<rparr>"
    by (simp add: callAnthropic_def zero_usage_def optional_field_def count_or_zero_def)
next
  assume "fetch_messages (anthropic_request_pages messages modelName apiKey temperature maxTokens) =
      Ok (MessagesData (c # cs) (Some (input_tokens, output_tokens)) m)"
  then show "callAnthropic_pages fetch_messages messages modelName apiKey temperature maxTokens =
        Inr \<lparr>content = c,
             usage = Some \<lparr>prompt_tokens = input_tokens, completion_tokens = output_tokens,
                           total_tokens = input_tokens + output_tokens\<rparr>,
             model = m, provider = anthropic\<rparr>"
    by (simp add: callAnthropic_pages_def)
next
  assume a: "fetch_huggingface (huggingface_request messages modelName apiKey temperature maxTokens) =
      Ok d \<and> (d = GeneratedArray (c # cs) \<or> d = GeneratedObject c)"
  then have "huggingface_result d modelName =
      Inr \<lparr>content = c, usage = Some zero_usage, model = modelName, provider = huggingface\<rparr>"
    by (auto simp: huggingface_result_def zero_usage_def)
  with a show "callHuggingFace fetch_huggingface messages modelName apiKey temperature maxTokens =
        Inr \<lparr>content = c, usage = Some zero_usage, model = modelName, provider = huggingface\<rparr>"
    and "callHuggingFace_pages fetch_huggingface messages modelName apiKey temperature maxTokens =
        Inr \<lparr>content = c, usage = Some zero_usage, model = modelName, provider = huggingface\<rparr>"
    by (simp_all add: callHuggingFace_def callHuggingFace_pages_def)
qed

text \<open>
  The conversation of one user message \<^verbatim>\<open>hello\<close>, and an upstream of each kind that
  answers \<^verbatim>\<open>Hi\<close>; the OpenAI one reports its usage, the Anthropic ones report what
  their formats have.
\<close>

definition example_conversation :: "LLMMessage list" where
  "example_conversation = [LLMMessage user ''hello'']"

theorem adapters_normalized_response_witness:
  "callOpenAI
     (\<lambda>r. Ok (OpenAIData [''Hi'']
        (Some \<lparr>prompt_tokens = 9, completion_tokens = 1, total_tokens = 10\<rparr>) ''gpt-4o-mini''))
     example_conversation ''gpt-4o-mini'' ''key'' (7 / 10) 1000 =
     Inr \<lparr>content = ''Hi'',
          usage = Some \<lparr>prompt_tokens = 9, completion_tokens = 1, total_tokens = 10\<rparr>,
          model = ''gpt-4o-mini'', provider = openai\<rparr> \<and>
   callAnthropic
     (\<lambda>r. Ok (CompletionData ''Hi'' (Some (CompletionUsage (Some 9) None)) None))
     example_conversation ''claude-2.1'' ''key'' (7 / 10) 1000 =
     Inr \<lparr>content = ''Hi'',
          usage = Some \<lparr>prompt_tokens = 9, completion_tokens = 0, total_tokens = 9\<rparr>,
          model = ''claude-2.1'', provider = anthropic\<rparr> \<and>
   callAnthropic (\<lambda>r. Ok (CompletionData ''Hi'' None None))
     example_conversation ''claude-2.1'' ''key'' (7 / 10) 1000 =
     Inr \<lparr>content = ''Hi'', usage = Some zero_usage, model = ''claude-2.1'', provider = anthropic\<rparr> \<and>
   callAnthropic_pages (\<lambda>r. Ok (MessagesData [''Hi''] (Some (9, 1)) ''claude-3-haiku''))
     example_conversation ''claude-3-haiku'' ''key'' (7 / 10) 1000 =
     Inr \<lparr>content = ''Hi'',
          usage = Some \<lparr>prompt_tokens = 9, completion_tokens = 1, total_tokens = 10\<rparr>,
          model = ''claude-3-haiku'', provider = anthropic\<rparr> \<and>
   callHuggingFace (\<lambda>r. Ok (GeneratedArray [''Hi'']))
     example_conversation ''mistral'' ''key'' (7 / 10) 1000 =
     Inr \<lparr>content = ''Hi'', usage = Some zero_usage, model = ''mistral'', provider = huggingface\<rparr>"
proof -
  note openai_case = adapters_normalized_response [where
      fetch_openai = "\<lambda>r. Ok (OpenAIData [''Hi'']
        (Some \<lparr>prompt_tokens = 9, completion_tokens = 1, total_tokens = 10\<rparr>) ''gpt-4o-mini'')"
      and messages = example_conversation and modelName = "''gpt-4o-mini''" and apiKey = "''key''"
      and temperature = "7 / 10" and maxTokens = 1000 and c = "''Hi''" and cs = "[]"
      and reported = "Some \<lparr>prompt_tokens = 9, completion_tokens = 1, total_tokens = 10\<rparr>"
      and m = "''gpt-4o-mini''", THEN conjunct1]
  note completion_case = adapters_normalized_response [where
      fetch_completion = "\<lambda>r. Ok (CompletionData ''Hi'' (Some (CompletionUsage (Some 9) None)) None)"
      and messages = example_conversation and modelName = "''claude-2.1''" and apiKey = "''key''"
      and temperature = "7 / 10" and maxTokens = 1000 and c = "''Hi''"
      and block = "Some (CompletionUsage (Some 9) None)" and mo = None,
      THEN conjunct2, THEN conjunct1]
  note silent_case = adapters_normalized_response [where
      fetch_completion = "\<lambda>r. Ok (CompletionData ''Hi'' None None)"
      and messages = example_conversation and modelName = "''claude-2.1''" and apiKey = "''key''"
      and temperature = "7 / 10" and maxTokens = 1000 and c = "''Hi''" and mo = None,
      THEN conjunct2, THEN conjunct2, THEN conjunct1]
  note messages_case = adapters_normalized_response [where
      fetch_messages = "\<lambda>r. Ok (MessagesData [''Hi''] (Some (9, 1)) ''claude-3-haiku'')"
      and messages = example_conversation and modelName = "''claude-3-haiku''" and apiKey = "''key''"
      and temperature = "7 / 10" and maxTokens = 1000 and c = "''Hi''" and cs = "[]"
      and input_tokens = 9 and output_tokens = 1 and m = "''claude-3-haiku''",
      THEN conjunct2, THEN conjunct2, THEN conjunct2, THEN conjunct1]
  note huggingface_case = adapters_normalized_response [where
      fetch_huggingface = "\<lambda>r. Ok (GeneratedArray [''Hi''])"
      and messages = example_conversation and modelName = "''mistral''" and apiKey = "''key''"
      and temperature = "7 / 10" and maxTokens = 1000 and c = "''Hi''" and cs = "[]"
      and d = "GeneratedArray [''Hi'']",
      THEN conjunct2, THEN conjunct2, THEN conjunct2, THEN conjunct2]
  from openai_case completion_case silent_case messages_case huggingface_case
  show ?thesis
    by (simp add: count_or_zero_def optional_field_def js_or_default_def)
qed

text \<open>
  The claim as it is stated fails: when the OpenAI upstream reports no usage, the result
  has no usage object; and when an upstream's text is empty, so is the content.
\<close>

theorem openai_usage_passed_through_counterexample:
  "callOpenAI (\<lambda>r. Ok (OpenAIData [''Hi''] None ''gpt-4o-mini''))
     example_conversation ''gpt-4o-mini'' ''key'' (7 / 10) 1000 =
     Inr \<lparr>content = ''Hi'', usage = None, model = ''gpt-4o-mini'', provider = openai\<rparr> \<and>
   callHuggingFace (\<lambda>r. Ok (GeneratedObject []))
     example_conversation ''mistral'' ''key'' (7 / 10) 1000 =
     Inr \<lparr>content = [], usage = Some zero_usage, model = ''mistral'', provider = huggingface\<rparr>"
  by (simp add: callOpenAI_def callHuggingFace_def huggingface_result_def zero_usage_def)

end
